(* ===== verification/Prelude.thy ===== *)
theory Prelude
  imports Main
begin

text \<open>
  Shared vocabulary of the development.

  \<^item> Rust's \<open>Result<T, E>\<close> is the sum \<open>'e + 'a\<close> (\<open>Inl\<close> is \<open>Err\<close>, \<open>Inr\<close> is \<open>Ok\<close>); the question
    mark operator is \<open>res_bind\<close>.
  \<^item> An operation of the program that touches the host (files, clock, random source, processes,
    third-party backends) is an action: a function from the state to a result and the next state.
    \<open>act_bind\<close> is the question mark operator of an effectful function body: the first error ends
    the body and keeps the effects made so far.
  \<^item> \<open>keeps R m\<close> says that the action \<open>m\<close> relates every start state to its end state by \<open>R\<close>. The
    locale \<open>effect_relation\<close> states what a relation must satisfy for the rules about the control
    operators; components interpret it for the relations they maintain.
\<close>

named_theorems act_simps "evaluation of the action operators"

section \<open>Results\<close>

definition res_bind :: "'e + 'a \<Rightarrow> ('a \<Rightarrow> 'e + 'b) \<Rightarrow> 'e + 'b" where
  "res_bind r f = (case r of Inl e \<Rightarrow> Inl e | Inr x \<Rightarrow> f x)"

definition ok_or :: "'e \<Rightarrow> 'a option \<Rightarrow> 'e + 'a" where
  "ok_or e v = (case v of None \<Rightarrow> Inl e | Some x \<Rightarrow> Inr x)"

definition map_err :: "('e \<Rightarrow> 'f) \<Rightarrow> 'e + 'a \<Rightarrow> 'f + 'a" where
  "map_err g r = (case r of Inl e \<Rightarrow> Inl (g e) | Inr x \<Rightarrow> Inr x)"

definition res_ok :: "'e + 'a \<Rightarrow> 'a option" where
  "res_ok r = (case r of Inl _ \<Rightarrow> None | Inr x \<Rightarrow> Some x)"

lemma res_bind_simps [simp]:
  "res_bind (Inl e) f = Inl e"
  "res_bind (Inr x) f = f x"
  by (simp_all add: res_bind_def)

lemma ok_or_simps [simp]:
  "ok_or e None = Inl e"
  "ok_or e (Some x) = Inr x"
  by (simp_all add: ok_or_def)

lemma map_err_simps [simp]:
  "map_err g (Inl e) = Inl (g e)"
  "map_err g (Inr x) = Inr x"
  by (simp_all add: map_err_def)

lemma res_ok_simps [simp]:
  "res_ok (Inl e) = None"
  "res_ok (Inr x) = Some x"
  by (simp_all add: res_ok_def)

lemma res_bind_eq_Inr:
  "res_bind r f = Inr y \<longleftrightarrow> (\<exists>x. r = Inr x \<and> f x = Inr y)"
  by (cases r) auto

lemma ok_or_eq_Inr: "ok_or e v = Inr x \<longleftrightarrow> v = Some x"
  by (cases v) auto

lemma map_err_eq_Inr: "map_err g r = Inr x \<longleftrightarrow> r = Inr x"
  by (cases r) auto

section \<open>Actions\<close>

type_synonym ('s, 'e, 'a) act = "'s \<Rightarrow> ('e + 'a) \<times> 's"

definition ret :: "'a \<Rightarrow> ('s, 'e, 'a) act" where
  "ret x s = (Inr x, s)"

definition fail :: "'e \<Rightarrow> ('s, 'e, 'a) act" where
  "fail e s = (Inl e, s)"

definition lift_res :: "'e + 'a \<Rightarrow> ('s, 'e, 'a) act" where
  "lift_res r s = (r, s)"

definition act_bind :: "('s, 'e, 'a) act \<Rightarrow> ('a \<Rightarrow> ('s, 'e, 'b) act) \<Rightarrow> ('s, 'e, 'b) act" where
  "act_bind m f s = (case m s of (Inl e, t) \<Rightarrow> (Inl e, t) | (Inr x, t) \<Rightarrow> f x t)"

definition act_map_err :: "('e \<Rightarrow> 'f) \<Rightarrow> ('s, 'e, 'a) act \<Rightarrow> ('s, 'f, 'a) act" where
  "act_map_err g m s = (case m s of (r, t) \<Rightarrow> (map_err g r, t))"

text \<open>A \<open>match\<close> on the result of an action that treats both outcomes.\<close>

definition act_match ::
  "('s, 'e, 'a) act \<Rightarrow> ('a \<Rightarrow> ('s, 'f, 'b) act) \<Rightarrow> ('e \<Rightarrow> ('s, 'f, 'b) act) \<Rightarrow> ('s, 'f, 'b) act" where
  "act_match m f g s = (case m s of (Inr x, t) \<Rightarrow> f x t | (Inl e, t) \<Rightarrow> g e t)"

definition act_map :: "('a \<Rightarrow> 'b) \<Rightarrow> ('s, 'e, 'a) act \<Rightarrow> ('s, 'e, 'b) act" where
  "act_map g m = act_bind m (\<lambda>x. ret (g x))"

lemma act_bind_ret [simp]: "act_bind (ret x) f = f x"
  by (rule ext) (simp add: act_bind_def ret_def)

lemma act_bind_fail [simp]: "act_bind (fail e) f = fail e"
  by (rule ext) (simp add: act_bind_def fail_def)

lemma act_bind_lift [simp]:
  "act_bind (lift_res (Inl e)) f = fail e"
  "act_bind (lift_res (Inr x)) f = f x"
  by (rule ext, simp add: act_bind_def lift_res_def fail_def)+

lemma act_bind_assoc: "act_bind (act_bind m f) g = act_bind m (\<lambda>x. act_bind (f x) g)"
  by (rule ext) (simp add: act_bind_def split: prod.split sum.split)

lemma act_map_err_simps [simp]:
  "act_map_err g (ret x) = ret x"
  "act_map_err g (fail e) = fail (g e)"
  "act_map_err g (lift_res r) = lift_res (map_err g r)"
  by (rule ext, simp add: act_map_err_def ret_def fail_def lift_res_def)+

lemma ret_apply [act_simps]: "ret x s = (Inr x, s)"
  by (simp add: ret_def)

lemma fail_apply [act_simps]: "fail e s = (Inl e, s)"
  by (simp add: fail_def)

lemma lift_res_apply [act_simps]: "lift_res r s = (r, s)"
  by (simp add: lift_res_def)

lemma act_bind_Inl [act_simps]: "m s = (Inl e, t) \<Longrightarrow> act_bind m f s = (Inl e, t)"
  by (simp add: act_bind_def)

lemma act_bind_Inr [act_simps]: "m s = (Inr x, t) \<Longrightarrow> act_bind m f s = f x t"
  by (simp add: act_bind_def)

lemma act_bind_eq_Inr:
  "act_bind m f s = (Inr y, t) \<longleftrightarrow> (\<exists>x u. m s = (Inr x, u) \<and> f x u = (Inr y, t))"
  by (auto simp: act_bind_def split: prod.splits sum.splits)

lemma act_map_err_eq_Inr: "act_map_err g m s = (Inr y, t) \<longleftrightarrow> m s = (Inr y, t)"
  by (auto simp: act_map_err_def map_err_def split: prod.splits sum.splits)

lemma ret_eq [simp]: "ret x s = (r, t) \<longleftrightarrow> r = Inr x \<and> t = s"
  by (auto simp: ret_def)

lemma fail_eq [simp]: "fail e s = (r, t) \<longleftrightarrow> r = Inl e \<and> t = s"
  by (auto simp: fail_def)

lemma lift_res_eq [simp]: "lift_res v s = (r, t) \<longleftrightarrow> v = r \<and> t = s"
  by (auto simp: lift_res_def)

lemma act_match_Inr [act_simps]: "m s = (Inr x, t) \<Longrightarrow> act_match m f g s = f x t"
  by (simp add: act_match_def)

lemma act_match_Inl [act_simps]: "m s = (Inl e, t) \<Longrightarrow> act_match m f g s = g e t"
  by (simp add: act_match_def)

lemma outcome_Inr: "\<not> isl (fst m) \<Longrightarrow> \<exists>x s. m = (Inr x, s)"
  by (cases m; cases "fst m") auto

section \<open>Relations an action keeps\<close>

definition keeps :: "('s \<Rightarrow> 's \<Rightarrow> bool) \<Rightarrow> ('s \<Rightarrow> 'r \<times> 's) \<Rightarrow> bool" where
  "keeps R m \<longleftrightarrow> (\<forall>s. R s (snd (m s)))"

lemma keepsI [intro?]: "(\<And>s. R s (snd (m s))) \<Longrightarrow> keeps R m"
  by (simp add: keeps_def)

lemma keepsD: "keeps R m \<Longrightarrow> m s = (r, t) \<Longrightarrow> R s t"
  by (metis keeps_def snd_conv)

locale effect_relation =
  fixes rel :: "'s \<Rightarrow> 's \<Rightarrow> bool"
  assumes rel_refl: "rel s s"
    and rel_trans: "rel s t \<Longrightarrow> rel t u \<Longrightarrow> rel s u"
begin

lemma keeps_ret: "keeps rel (ret x)"
  by (rule keepsI) (simp add: ret_def rel_refl)

lemma keeps_fail: "keeps rel (fail e)"
  by (rule keepsI) (simp add: fail_def rel_refl)

lemma keeps_lift_res: "keeps rel (lift_res r)"
  by (rule keepsI) (simp add: lift_res_def rel_refl)

lemma keeps_bind:
  assumes m: "keeps rel m" and f: "\<And>x. keeps rel (f x)"
  shows "keeps rel (act_bind m f)"
proof (rule keepsI)
  fix s
  obtain r t where mt: "m s = (r, t)" by (cases "m s")
  with m have st: "rel s t" by (rule keepsD)
  show "rel s (snd (act_bind m f s))"
  proof (cases r)
    case (Inl e)
    with mt st show ?thesis by (simp add: act_bind_def)
  next
    case (Inr x)
    have "rel t (snd (f x t))" using f [of x] by (simp add: keeps_def)
    with st have "rel s (snd (f x t))" by (rule rel_trans)
    with mt Inr show ?thesis by (simp add: act_bind_def)
  qed
qed

lemma keeps_bind_lift:
  assumes "\<And>x. r = Inr x \<Longrightarrow> keeps rel (f x)"
  shows "keeps rel (act_bind (lift_res r) f)"
  using assms by (cases r) (simp_all add: keeps_fail)

lemma keeps_match:
  assumes m: "keeps rel m" and f: "\<And>x. keeps rel (f x)" and g: "\<And>e. keeps rel (g e)"
  shows "keeps rel (act_match m f g)"
proof (rule keepsI)
  fix s
  obtain r t where mt: "m s = (r, t)" by (cases "m s")
  have "rel t (snd (f x t))" "rel t (snd (g e t))" for x e
    using f [of x] g [of e] by (simp_all add: keeps_def)
  with keepsD [OF m mt] have "rel s (snd (f x t))" "rel s (snd (g e t))" for x e
    by (blast intro: rel_trans)+
  then show "rel s (snd (act_match m f g s))"
    using mt by (cases r) (simp_all add: act_match_def)
qed

lemma keeps_map_err: "keeps rel m \<Longrightarrow> keeps rel (act_map_err g m)"
  by (simp add: keeps_def act_map_err_def case_prod_beta)

lemma keeps_map: "keeps rel m \<Longrightarrow> keeps rel (act_map g m)"
  unfolding act_map_def by (intro keeps_bind keeps_ret)

lemmas keeps_control = keeps_ret keeps_fail keeps_lift_res keeps_bind keeps_match keeps_map_err keeps_map

end

text \<open>Equality of states is the smallest such relation: an action that keeps it has no effect.\<close>

interpretation no_effect: effect_relation "(=)"
  by unfold_locales simp_all

lemma keeps_eq_iff: "keeps (=) m \<longleftrightarrow> (\<forall>s. snd (m s) = s)"
  by (auto simp: keeps_def)

section \<open>Keyed maps\<close>

text \<open>
  The interface of the maps the program keys by strings (JSON objects, the session table): what a
  look-up returns in an empty map and after an insertion.
\<close>

locale keyed_map =
  fixes mget :: "'m \<Rightarrow> 'k \<Rightarrow> 'v option"
    and mput :: "'k \<Rightarrow> 'v \<Rightarrow> 'm \<Rightarrow> 'm"
    and mempty :: 'm
  assumes get_empty: "mget mempty k = None"
    and get_put: "mget (mput k v m) k' = (if k' = k then Some v else mget m k')"
begin

lemma get_put_same: "mget (mput k v m) k = Some v"
  by (simp add: get_put)

lemma get_put_other: "k' \<noteq> k \<Longrightarrow> mget (mput k v m) k' = mget m k'"
  by (simp add: get_put)

lemma get_put_all:
  "mget (foldl (\<lambda>m (k, v). mput k v m) m kvs) k =
     (case map_of (rev kvs) k of None \<Rightarrow> mget m k | Some v \<Rightarrow> Some v)"
  by (induction kvs arbitrary: m rule: rev_induct) (auto simp: get_put split: option.splits)

lemma get_build: "mget (foldl (\<lambda>m (k, v). mput k v m) mempty kvs) k = map_of (rev kvs) k"
  by (simp add: get_put_all get_empty split: option.split)

end

section \<open>Lists\<close>

lemma takeWhile_not_mem: "x \<notin> set xs \<Longrightarrow> takeWhile (\<lambda>y. y \<noteq> x) (xs @ x # ys) = xs"
  by (induction xs) auto

lemma dropWhile_not_mem: "x \<notin> set xs \<Longrightarrow> dropWhile (\<lambda>y. y \<noteq> x) (xs @ x # ys) = x # ys"
  by (induction xs) auto

lemma foldl_invariant:
  assumes "P a" and "\<And>a x. P a \<Longrightarrow> x \<in> set xs \<Longrightarrow> P (f a x)"
  shows "P (foldl f a xs)"
  using assms by (induction xs arbitrary: a) auto

end
