(* ===== verification/Rust_Str.thy ===== *)
theory Rust_Str
  imports Prelude "HOL-Library.Sublist" "HOL-Library.Word"
begin

text \<open>
  The operations of Rust's \<open>str\<close>, \<open>[u8]\<close> and formatting library that the program calls.

  A Rust string is modelled by its UTF-8 bytes: a HOL \<open>char\<close> is one byte and \<open>length\<close> is
  \<open>str::len\<close>. Unicode white space is recognised by its UTF-8 encoding, which is exact on valid
  UTF-8 (an encoded character never starts inside another one). \<open>to_ascii_lowercase\<close> and
  \<open>eq_ignore_ascii_case\<close> touch ASCII letters only, as in Rust.
\<close>

type_synonym bytes = string

definition byte_val :: "char \<Rightarrow> nat" where
  "byte_val c = of_char c"

definition in_range :: "nat \<Rightarrow> nat \<Rightarrow> char \<Rightarrow> bool" where
  "in_range lo hi c \<longleftrightarrow> lo \<le> byte_val c \<and> byte_val c \<le> hi"

definition is_ascii_digit :: "char \<Rightarrow> bool" where
  "is_ascii_digit c = in_range 48 57 c"

definition is_ascii_lower :: "char \<Rightarrow> bool" where
  "is_ascii_lower c = in_range 97 122 c"

definition is_ascii_upper :: "char \<Rightarrow> bool" where
  "is_ascii_upper c = in_range 65 90 c"

definition is_ascii_alphanumeric :: "char \<Rightarrow> bool" where
  "is_ascii_alphanumeric c \<longleftrightarrow> is_ascii_digit c \<or> is_ascii_lower c \<or> is_ascii_upper c"

text \<open>A byte of lower-case hexadecimal: \<open>is_ascii_digit\<close> or in \<open>b'a'..=b'f'\<close>.\<close>

definition is_lower_hex :: "char \<Rightarrow> bool" where
  "is_lower_hex c \<longleftrightarrow> is_ascii_digit c \<or> in_range 97 102 c"

text \<open>ASCII lower-casing sets bit 5 of an upper-case letter.\<close>

fun set_bit5 :: "char \<Rightarrow> char" where
  "set_bit5 (Char b0 b1 b2 b3 b4 b5 b6 b7) = Char b0 b1 b2 b3 b4 True b6 b7"

definition ascii_lower :: "char \<Rightarrow> char" where
  "ascii_lower c = (if is_ascii_upper c then set_bit5 c else c)"

definition to_ascii_lowercase :: "string \<Rightarrow> string" where
  "to_ascii_lowercase s = map ascii_lower s"

definition eq_ignore_ascii_case :: "string \<Rightarrow> string \<Rightarrow> bool" where
  "eq_ignore_ascii_case a b \<longleftrightarrow> to_ascii_lowercase a = to_ascii_lowercase b"

lemmas byte_class_defs = byte_val_def in_range_def is_ascii_digit_def is_ascii_lower_def
  is_ascii_upper_def is_ascii_alphanumeric_def is_lower_hex_def

lemma length_to_ascii_lowercase [simp]: "length (to_ascii_lowercase s) = length s"
  by (simp add: to_ascii_lowercase_def)

section \<open>White space\<close>

text \<open>
  The number of bytes of the white-space character (Unicode \<open>White_Space\<close>) that a string starts
  with, 0 when it starts with none: U+0009..U+000D, U+0020, U+0085, U+00A0, U+1680,
  U+2000..U+200A, U+2028, U+2029, U+202F, U+205F, U+3000.
\<close>

definition ascii_ws :: "char \<Rightarrow> bool" where
  "ascii_ws c \<longleftrightarrow> in_range 9 13 c \<or> byte_val c = 32"

definition ws2 :: "char \<Rightarrow> char \<Rightarrow> bool" where
  "ws2 a b \<longleftrightarrow> byte_val a = 194 \<and> (byte_val b = 133 \<or> byte_val b = 160)"

definition ws3 :: "char \<Rightarrow> char \<Rightarrow> char \<Rightarrow> bool" where
  "ws3 a b c \<longleftrightarrow>
     (byte_val a = 225 \<and> byte_val b = 154 \<and> byte_val c = 128) \<or>
     (byte_val a = 226 \<and> byte_val b = 128 \<and>
        (in_range 128 138 c \<or> byte_val c = 168 \<or> byte_val c = 169 \<or> byte_val c = 175)) \<or>
     (byte_val a = 226 \<and> byte_val b = 129 \<and> byte_val c = 159) \<or>
     (byte_val a = 227 \<and> byte_val b = 128 \<and> byte_val c = 128)"

fun ws_len :: "string \<Rightarrow> nat" where
  "ws_len [] = 0"
| "ws_len [a] = (if ascii_ws a then 1 else 0)"
| "ws_len [a, b] = (if ascii_ws a then 1 else if ws2 a b then 2 else 0)"
| "ws_len (a # b # c # s) =
     (if ascii_ws a then 1 else if ws2 a b then 2 else if ws3 a b c then 3 else 0)"

text \<open>The same for the white-space character a string ends with, on the reversed string.\<close>

fun ws_len_rev :: "string \<Rightarrow> nat" where
  "ws_len_rev [] = 0"
| "ws_len_rev [c] = (if ascii_ws c then 1 else 0)"
| "ws_len_rev [c, b] = (if ascii_ws c then 1 else if ws2 b c then 2 else 0)"
| "ws_len_rev (c # b # a # s) =
     (if ascii_ws c then 1 else if ws2 b c then 2 else if ws3 a b c then 3 else 0)"

lemma ws_len_le: "ws_len s \<le> length s"
  by (cases s rule: ws_len.cases) auto

lemma ws_len_rev_le: "ws_len_rev s \<le> length s"
  by (cases s rule: ws_len_rev.cases) auto

lemma drop_ws_shorter: "0 < n \<Longrightarrow> n \<le> length s \<Longrightarrow> length (drop n s) < length s"
  by simp

function trim_start :: "string \<Rightarrow> string" where
  "trim_start s = (if ws_len s = 0 then s else trim_start (drop (ws_len s) s))"
  by pat_completeness auto
termination
proof (relation "measure length")
  show "wf (measure length :: (string \<times> string) set)" by simp
next
  fix s :: string
  assume "ws_len s \<noteq> 0"
  then show "(drop (ws_len s) s, s) \<in> measure length"
    using ws_len_le [of s] by (simp add: drop_ws_shorter)
qed

function trim_start_rev :: "string \<Rightarrow> string" where
  "trim_start_rev s = (if ws_len_rev s = 0 then s else trim_start_rev (drop (ws_len_rev s) s))"
  by pat_completeness auto
termination
proof (relation "measure length")
  show "wf (measure length :: (string \<times> string) set)" by simp
next
  fix s :: string
  assume "ws_len_rev s \<noteq> 0"
  then show "(drop (ws_len_rev s) s, s) \<in> measure length"
    using ws_len_rev_le [of s] by (simp add: drop_ws_shorter)
qed

declare trim_start.simps [simp del] trim_start_rev.simps [simp del]

definition trim_end :: "string \<Rightarrow> string" where
  "trim_end s = rev (trim_start_rev (rev s))"

definition trim :: "string \<Rightarrow> string" where
  "trim s = trim_end (trim_start s)"

lemma trim_start_id: "ws_len s = 0 \<Longrightarrow> trim_start s = s"
  by (simp add: trim_start.simps)

lemma trim_start_rev_id: "ws_len_rev s = 0 \<Longrightarrow> trim_start_rev s = s"
  by (simp add: trim_start_rev.simps)

lemma trim_id: "ws_len s = 0 \<Longrightarrow> ws_len_rev (rev s) = 0 \<Longrightarrow> trim s = s"
  by (simp add: trim_def trim_end_def trim_start_id trim_start_rev_id)

lemma ws_len_trim_start: "ws_len (trim_start s) = 0"
  by (induction s rule: trim_start.induct) (metis trim_start.simps)

lemma ws_len_rev_trim_start_rev: "ws_len_rev (trim_start_rev s) = 0"
  by (induction s rule: trim_start_rev.induct) (metis trim_start_rev.simps)

lemma suffix_trim_start: "suffix (trim_start s) s"
proof (induction s rule: trim_start.induct)
  case (1 s)
  show ?case
  proof (cases "ws_len s = 0")
    case True
    then show ?thesis by (simp add: trim_start_id)
  next
    case False
    then have "suffix (trim_start (drop (ws_len s) s)) (drop (ws_len s) s)" by (rule "1.IH")
    moreover have "suffix (drop (ws_len s) s) s" by (rule suffix_drop)
    ultimately have "suffix (trim_start (drop (ws_len s) s)) s"
      by (rule suffix_order.trans)
    with False show ?thesis by (simp add: trim_start.simps [of s])
  qed
qed

lemma suffix_trim_start_rev: "suffix (trim_start_rev s) s"
proof (induction s rule: trim_start_rev.induct)
  case (1 s)
  show ?case
  proof (cases "ws_len_rev s = 0")
    case True
    then show ?thesis by (simp add: trim_start_rev_id)
  next
    case False
    then have "suffix (trim_start_rev (drop (ws_len_rev s) s)) (drop (ws_len_rev s) s)"
      by (rule "1.IH")
    moreover have "suffix (drop (ws_len_rev s) s) s" by (rule suffix_drop)
    ultimately have "suffix (trim_start_rev (drop (ws_len_rev s) s)) s"
      by (rule suffix_order.trans)
    with False show ?thesis by (simp add: trim_start_rev.simps [of s])
  qed
qed

lemma length_trim_start_le: "length (trim_start s) \<le> length s"
  using suffix_trim_start [of s] by (rule suffix_length_le)

lemma prefix_trim_end: "prefix (trim_end s) s"
  using suffix_trim_start_rev [of "rev s"]
  by (simp add: trim_end_def suffix_to_prefix)

lemma set_trim_subset: "set (trim s) \<subseteq> set s"
proof -
  have "set (trim s) \<subseteq> set (trim_start s)"
    using prefix_trim_end [of "trim_start s"] set_mono_prefix by (auto simp: trim_def)
  also have "set (trim_start s) \<subseteq> set s"
    using suffix_trim_start [of s] by (rule set_mono_suffix)
  finally show ?thesis .
qed

lemma ws_len_prefix: "prefix p s \<Longrightarrow> ws_len s = 0 \<Longrightarrow> p \<noteq> [] \<Longrightarrow> ws_len p = 0"
  by (cases p rule: ws_len.cases; cases s rule: ws_len.cases)
     (auto simp: prefix_def split: if_splits)

text \<open>A trimmed string neither starts nor ends with white space, so trimming again is the identity.\<close>

lemma trim_ws_free: "ws_len (trim s) = 0" "ws_len_rev (rev (trim s)) = 0"
proof -
  show "ws_len (trim s) = 0"
  proof (cases "trim s = []")
    case False
    have "prefix (trim s) (trim_start s)" by (simp add: trim_def prefix_trim_end)
    then show ?thesis using ws_len_trim_start False by (rule ws_len_prefix)
  qed simp
  show "ws_len_rev (rev (trim s)) = 0"
    by (simp add: trim_def trim_end_def ws_len_rev_trim_start_rev)
qed

lemma trim_idem [simp]: "trim (trim s) = trim s"
  by (intro trim_id trim_ws_free)

lemma trim_eq_iff: "trim s = s \<longleftrightarrow> ws_len s = 0 \<and> ws_len_rev (rev s) = 0"
  using trim_ws_free [of s] by (auto intro: trim_id)

end
