(* ===== verification/Rust_Text.thy ===== *)
theory Rust_Text
  imports Rust_Str
begin

text \<open>
  Splitting, prefix, number and formatting operations of Rust's standard library, as the program
  calls them: \<open>split_once\<close>, \<open>lines\<close>, \<open>split_whitespace\<close>, \<open>strip_prefix\<close>, \<open>trim_matches\<close>,
  \<open>parse::<u16>\<close> / \<open>parse::<usize>\<close>, decimal and zero-padded hexadecimal formatting.
\<close>

section \<open>Splitting\<close>

text \<open>\<open>s.split_once(c)\<close> for an ASCII character \<open>c\<close>: the parts around its first occurrence.\<close>

definition split_once :: "char \<Rightarrow> string \<Rightarrow> (string \<times> string) option" where
  "split_once c s =
     (case dropWhile (\<lambda>x. x \<noteq> c) s of
        [] \<Rightarrow> None
      | _ # rest \<Rightarrow> Some (takeWhile (\<lambda>x. x \<noteq> c) s, rest))"

lemma split_once_append: "c \<notin> set k \<Longrightarrow> split_once c (k @ c # v) = Some (k, v)"
  by (simp add: split_once_def dropWhile_not_mem takeWhile_not_mem)

lemma split_once_SomeD:
  assumes "split_once c s = Some (k, v)"
  shows "s = k @ c # v" "c \<notin> set k"
proof -
  obtain y where d: "dropWhile (\<lambda>x. x \<noteq> c) s = y # v" and k: "k = takeWhile (\<lambda>x. x \<noteq> c) s"
    using assms by (auto simp: split_once_def split: list.splits)
  have "y = c" using d hd_dropWhile [of "\<lambda>x. x \<noteq> c" s] by simp
  then show "s = k @ c # v" using takeWhile_dropWhile_id [of "\<lambda>x. x \<noteq> c" s] d k by simp
  show "c \<notin> set k" using k by (auto dest: set_takeWhileD)
qed

lemma split_once_None_iff: "split_once c s = None \<longleftrightarrow> c \<notin> set s"
proof
  assume "split_once c s = None"
  then have "dropWhile (\<lambda>x. x \<noteq> c) s = []" by (auto simp: split_once_def split: list.splits)
  then show "c \<notin> set s" by auto
next
  assume "c \<notin> set s"
  then have "dropWhile (\<lambda>x. x \<noteq> c) s = []" by auto
  then show "split_once c s = None" by (simp only: split_once_def list.case)
qed

text \<open>
  \<open>s.lines()\<close>: the pieces of \<open>split_inclusive('\n')\<close>, each without its line feed and, before a line
  feed only, without a carriage return.
\<close>

fun split_inclusive_nl :: "string \<Rightarrow> string list" where
  "split_inclusive_nl [] = []"
| "split_inclusive_nl (c # s) =
     (if c = CHR 0x0A then [c] # split_inclusive_nl s
      else (case split_inclusive_nl s of [] \<Rightarrow> [[c]] | l # ls \<Rightarrow> (c # l) # ls))"

definition strip_line_end :: "string \<Rightarrow> string" where
  "strip_line_end l =
     (if l \<noteq> [] \<and> last l = CHR 0x0A
      then (let b = butlast l in if b \<noteq> [] \<and> last b = CHR 0x0D then butlast b else b)
      else l)"

definition str_lines :: "string \<Rightarrow> string list" where
  "str_lines s = map strip_line_end (split_inclusive_nl s)"

lemma split_inclusive_nl_line:
  "CHR 0x0A \<notin> set l \<Longrightarrow>
     split_inclusive_nl (l @ CHR 0x0A # s) = (l @ [CHR 0x0A]) # split_inclusive_nl s"
  by (induction l) auto

lemma str_lines_Nil [simp]: "str_lines [] = []"
  by (simp add: str_lines_def)

lemma str_lines_line:
  assumes "CHR 0x0A \<notin> set l" and "l = [] \<or> last l \<noteq> CHR 0x0D"
  shows "str_lines (l @ CHR 0x0A # s) = l # str_lines s"
  using assms by (auto simp: str_lines_def split_inclusive_nl_line strip_line_end_def Let_def)

lemma str_lines_crlf_line:
  assumes "CHR 0x0A \<notin> set l"
  shows "str_lines (l @ CHR 0x0D # CHR 0x0A # s) = l # str_lines s"
proof -
  have "split_inclusive_nl ((l @ [CHR 0x0D]) @ CHR 0x0A # s) =
      ((l @ [CHR 0x0D]) @ [CHR 0x0A]) # split_inclusive_nl s"
    using assms by (intro split_inclusive_nl_line) simp
  then show ?thesis by (simp add: str_lines_def strip_line_end_def Let_def butlast_append)
qed

text \<open>\<open>s.split_whitespace()\<close>: the maximal runs free of white space.\<close>

function words_from :: "string \<Rightarrow> string \<Rightarrow> string list" where
  "words_from acc s =
     (if s = [] then (if acc = [] then [] else [rev acc])
      else if ws_len s = 0 then words_from (hd s # acc) (tl s)
      else (if acc = [] then [] else [rev acc]) @ words_from [] (drop (ws_len s) s))"
  by pat_completeness auto
termination
proof (relation "measure (\<lambda>(acc, s). length s)")
  show "wf (measure (\<lambda>(acc, s). length s) :: ((string \<times> string) \<times> (string \<times> string)) set)"
    by simp
next
  fix acc s :: string
  assume "s \<noteq> []" "ws_len s = 0"
  then show "((hd s # acc, tl s), (acc, s)) \<in> measure (\<lambda>(acc, s). length s)" by (cases s) auto
next
  fix acc s :: string
  assume "s \<noteq> []" "ws_len s \<noteq> 0"
  then show "(([], drop (ws_len s) s), (acc, s)) \<in> measure (\<lambda>(acc, s). length s)"
    using ws_len_le [of s] by (simp add: drop_ws_shorter)
qed

declare words_from.simps [simp del]

definition split_whitespace :: "string \<Rightarrow> string list" where
  "split_whitespace s = words_from [] s"

lemma words_from_set: "w \<in> set (words_from acc s) \<Longrightarrow> set w \<subseteq> set acc \<union> set s"
proof (induction acc s arbitrary: w rule: words_from.induct)
  case (1 acc s)
  consider "s = []" | "s \<noteq> []" "ws_len s = 0" | "s \<noteq> []" "ws_len s \<noteq> 0" by blast
  then show ?case
  proof cases
    case 1
    then show ?thesis using "1.prems" by (auto simp: words_from.simps split: if_splits)
  next
    case 2
    then have "set w \<subseteq> set (hd s # acc) \<union> set (tl s)"
      using "1.prems" by (intro "1.IH"(1)) (auto simp: words_from.simps [of acc s])
    then show ?thesis using 2 by (cases s) auto
  next
    case 3
    then consider "w = rev acc" | "w \<in> set (words_from [] (drop (ws_len s) s))"
      using "1.prems" by (auto simp: words_from.simps [of acc s] split: if_splits)
    then show ?thesis
    proof cases
      case 2
      with 3 have "set w \<subseteq> set [] \<union> set (drop (ws_len s) s)" by (intro "1.IH"(2)) auto
      then show ?thesis using set_drop_subset by force
    qed auto
  qed
qed

lemma split_whitespace_set: "w \<in> set (split_whitespace s) \<Longrightarrow> set w \<subseteq> set s"
  using words_from_set [of w "[]" s] by (simp add: split_whitespace_def)

lemma words_from_nonempty: "[] \<notin> set (words_from acc s)"
  by (induction acc s rule: words_from.induct) (subst words_from.simps, auto)

lemma split_whitespace_nonempty: "w \<in> set (split_whitespace s) \<Longrightarrow> w \<noteq> []"
  using words_from_nonempty by (auto simp: split_whitespace_def)

section \<open>Prefixes and repeated ends\<close>

fun strip_prefix :: "string \<Rightarrow> string \<Rightarrow> string option" where
  "strip_prefix [] s = Some s"
| "strip_prefix (p # ps) [] = None"
| "strip_prefix (p # ps) (c # s) = (if p = c then strip_prefix ps s else None)"

definition starts_with :: "string \<Rightarrow> string \<Rightarrow> bool" where
  "starts_with p s \<longleftrightarrow> strip_prefix p s \<noteq> None"

definition trim_end_matches :: "char \<Rightarrow> string \<Rightarrow> string" where
  "trim_end_matches c s = rev (dropWhile (\<lambda>x. x = c) (rev s))"

definition trim_matches :: "char \<Rightarrow> string \<Rightarrow> string" where
  "trim_matches c s = trim_end_matches c (dropWhile (\<lambda>x. x = c) s)"

lemma strip_prefix_iff: "strip_prefix p s = Some r \<longleftrightarrow> s = p @ r"
  by (induction p s rule: strip_prefix.induct) auto

lemma starts_with_iff: "starts_with p s \<longleftrightarrow> prefix p s"
proof -
  have "starts_with p s \<longleftrightarrow> (\<exists>r. strip_prefix p s = Some r)"
    by (cases "strip_prefix p s") (auto simp: starts_with_def)
  then show ?thesis by (simp add: strip_prefix_iff prefix_def)
qed

lemma trim_end_matches_last:
  "trim_end_matches c s = [] \<or> last (trim_end_matches c s) \<noteq> c"
  using hd_dropWhile [of "\<lambda>x. x = c" "rev s"]
  by (cases "dropWhile (\<lambda>x. x = c) (rev s)") (auto simp: trim_end_matches_def)

lemma trim_end_matches_id: "s = [] \<or> last s \<noteq> c \<Longrightarrow> trim_end_matches c s = s"
  by (cases s rule: rev_cases) (auto simp: trim_end_matches_def)

lemma set_trim_end_matches: "set (trim_end_matches c s) \<subseteq> set s"
  by (auto simp: trim_end_matches_def dest: set_dropWhileD)

lemma set_trim_matches: "set (trim_matches c s) \<subseteq> set s"
  unfolding trim_matches_def using set_trim_end_matches by (fastforce dest: set_dropWhileD)

section \<open>Unsigned integers in decimal\<close>

definition digit_val :: "char \<Rightarrow> nat" where
  "digit_val c = byte_val c - 48"

definition decimal_val :: "string \<Rightarrow> nat" where
  "decimal_val ds = foldl (\<lambda>n d. 10 * n + digit_val d) 0 ds"

text \<open>
  \<open>str::parse\<close> at an unsigned type with largest value \<open>m\<close>: an optional leading plus sign, at
  least one digit, nothing else, and the value in range.
\<close>

definition parse_unsigned :: "nat \<Rightarrow> string \<Rightarrow> nat option" where
  "parse_unsigned m s =
     (let ds = (case s of [] \<Rightarrow> [] | c # r \<Rightarrow> if c = CHR ''+'' then r else s)
      in if ds = [] \<or> \<not> list_all is_ascii_digit ds then None
         else if decimal_val ds \<le> m then Some (decimal_val ds) else None)"

definition u16_max :: nat where
  "u16_max = 65535"

definition usize_max :: nat where
  "usize_max = 18446744073709551615"

lemma parse_unsigned_le: "parse_unsigned m s = Some n \<Longrightarrow> n \<le> m"
  by (auto simp: parse_unsigned_def Let_def split: if_splits)

definition digit_char :: "nat \<Rightarrow> char" where
  "digit_char d = ''0123456789'' ! d"

fun show_nat :: "nat \<Rightarrow> string" where
  "show_nat n = (if n < 10 then [digit_char n] else show_nat (n div 10) @ [digit_char (n mod 10)])"

declare show_nat.simps [simp del]

definition show_int :: "int \<Rightarrow> string" where
  "show_int i = (if i < 0 then CHR ''-'' # show_nat (nat (- i)) else show_nat (nat i))"

lemma less_ten_cases:
  "(n::nat) < 10 \<Longrightarrow>
     n \<in> {0, 1, 2, 3, 4, 5, 6, 7, 8, 9}"
  by (simp; arith)

lemma digit_char_facts:
  assumes "d < 10"
  shows "is_ascii_digit (digit_char d)" "digit_val (digit_char d) = d"
    "digit_char d \<noteq> CHR ''+''" "\<not> ascii_ws (digit_char d)"
  using less_ten_cases [OF assms]
  by (auto simp: digit_char_def digit_val_def ascii_ws_def byte_class_defs)

lemma show_nat_digits: "list_all is_ascii_digit (show_nat n)"
proof (induction n rule: show_nat.induct)
  case (1 n)
  then show ?case
    by (cases "n < 10") (simp_all add: show_nat.simps [of n] digit_char_facts)
qed

lemma show_nat_not_Nil [simp]: "show_nat n \<noteq> []"
  by (simp add: show_nat.simps [of n])

lemma decimal_val_snoc: "decimal_val (ds @ [d]) = 10 * decimal_val ds + digit_val d"
  by (simp add: decimal_val_def)

lemma decimal_val_show_nat [simp]: "decimal_val (show_nat n) = n"
proof (induction n rule: show_nat.induct)
  case (1 n)
  show ?case
  proof (cases "n < 10")
    case True
    then show ?thesis by (simp add: show_nat.simps [of n] decimal_val_def digit_char_facts)
  next
    case False
    with "1.IH" show ?thesis
      by (simp add: show_nat.simps [of n] decimal_val_snoc digit_char_facts)
  qed
qed

lemma digit_not_plus: "is_ascii_digit c \<Longrightarrow> c \<noteq> CHR ''+''"
  by (auto simp: byte_class_defs)

lemma parse_show_nat:
  assumes "n \<le> m"
  shows "parse_unsigned m (show_nat n) = Some n"
proof (cases "show_nat n")
  case (Cons c r)
  have "is_ascii_digit c" using show_nat_digits [of n] Cons by simp
  then have "c \<noteq> CHR ''+''" by (rule digit_not_plus)
  moreover have "list_all is_ascii_digit (c # r)" "decimal_val (c # r) = n"
    using show_nat_digits [of n] Cons decimal_val_show_nat [of n] by simp_all
  ultimately show ?thesis using Cons assms by (simp add: parse_unsigned_def)
qed simp

section \<open>Hexadecimal formatting\<close>

definition hex_char :: "nat \<Rightarrow> char" where
  "hex_char d = ''0123456789abcdef'' ! d"

text \<open>The \<open>w\<close> low hexadecimal digits of a number, most significant first (\<open>{:0wx}\<close> of a value
  below \<open>16 ^ w\<close>).\<close>

fun hex_digits :: "nat \<Rightarrow> nat \<Rightarrow> string" where
  "hex_digits 0 n = []"
| "hex_digits (Suc w) n = hex_digits w (n div 16) @ [hex_char (n mod 16)]"

text \<open>\<open>format!("{byte:02x}")\<close> over a byte sequence.\<close>

definition hex_bytes :: "bytes \<Rightarrow> string" where
  "hex_bytes bs = concat (map (\<lambda>b. hex_digits 2 (byte_val b)) bs)"

lemma length_hex_digits [simp]: "length (hex_digits w n) = w"
  by (induction w n rule: hex_digits.induct) auto

lemma less_sixteen_cases:
  "(n::nat) < 16 \<Longrightarrow>
     n \<in> {0, 1, 2, 3, 4, 5, 6, 7, 8, 9, 10, 11, 12, 13, 14, 15}"
  by (simp; arith)

lemma hex_char_lower_hex: "d < 16 \<Longrightarrow> is_lower_hex (hex_char d)"
  using less_sixteen_cases [of d] by (auto simp: hex_char_def byte_class_defs)

lemma hex_char_inj: "c < 16 \<Longrightarrow> d < 16 \<Longrightarrow> hex_char c = hex_char d \<Longrightarrow> c = d"
  using nth_eq_iff_index_eq [of "''0123456789abcdef''" c d] by (simp add: hex_char_def)

lemma hex_digits_lower_hex: "list_all is_lower_hex (hex_digits w n)"
  by (induction w n rule: hex_digits.induct) (auto simp: hex_char_lower_hex)

lemma hex_digits_inj:
  "hex_digits w m = hex_digits w n \<Longrightarrow> m < 16 ^ w \<Longrightarrow> n < 16 ^ w \<Longrightarrow> m = n"
proof (induction w arbitrary: m n)
  case (Suc w)
  have "m div 16 = n div 16"
    using Suc.prems by (intro Suc.IH) (simp_all add: less_mult_imp_div_less mult.commute)
  moreover have "m mod 16 = n mod 16"
    using Suc.prems hex_char_inj [of "m mod 16" "n mod 16"] by simp
  ultimately show ?case by (metis div_mult_mod_eq)
qed simp

lemma length_hex_bytes [simp]: "length (hex_bytes bs) = 2 * length bs"
  by (induction bs) (auto simp: hex_bytes_def)

lemma hex_bytes_lower_hex: "list_all is_lower_hex (hex_bytes bs)"
  by (induction bs) (auto simp: hex_bytes_def hex_digits_lower_hex)

lemma byte_val_less: "byte_val c < 256"
  by (simp add: byte_val_def)

lemma byte_val_inj: "byte_val c = byte_val d \<longleftrightarrow> c = d"
  by (simp add: byte_val_def)

lemma hex_bytes_Cons: "hex_bytes (b # bs) = hex_digits 2 (byte_val b) @ hex_bytes bs"
  by (simp add: hex_bytes_def)

lemma hex_bytes_inj: "hex_bytes as = hex_bytes bs \<longleftrightarrow> as = bs"
proof
  show "hex_bytes as = hex_bytes bs \<Longrightarrow> as = bs"
  proof (induction as arbitrary: bs)
    case Nil
    then have "length (hex_bytes bs) = 0" by (simp add: hex_bytes_def)
    then show ?case by simp
  next
    case (Cons a as)
    have "length (hex_bytes (a # as)) = length (hex_bytes bs)" using Cons.prems by simp
    then obtain b cs where bs: "bs = b # cs" by (cases bs) auto
    have "hex_digits 2 (byte_val a) = hex_digits 2 (byte_val b) \<and> hex_bytes as = hex_bytes cs"
      using Cons.prems bs by (simp add: hex_bytes_Cons)
    moreover from this have "byte_val a = byte_val b"
      using hex_digits_inj [of 2 "byte_val a" "byte_val b"] byte_val_less [of a] byte_val_less [of b]
      by simp
    ultimately show ?case using Cons.IH bs by (simp add: byte_val_inj)
  qed
qed simp

end
