(* ===== verification/Json.thy ===== *)
theory Json
  imports Rust_Text "HOL-Library.List_Lexorder" "HOL-Library.Char_ord"
begin

text \<open>
  JSON values as the program sees them through \<open>serde_json::Value\<close>: its public variants, the
  accessors the program calls (\<open>get\<close>, \<open>as_str\<close>, \<open>as_bool\<close>, \<open>as_i64\<close>, ...) and the \<open>json!\<close>
  object literal. Objects are kept sorted by key, as \<open>serde_json::Map\<close> without the
  \<open>preserve_order\<close> feature is. Parsing and printing are third-party code and stay parameters
  (theory \<open>Host\<close>).

  A finite \<open>f64\<close> is its sign, mantissa (below 2 to the 53) and binary exponent.
\<close>

section \<open>Floating-point numbers\<close>

datatype f64 = F64_NaN | F64_Inf bool | F64_Fin bool nat int

fun bit_len :: "nat \<Rightarrow> nat" where
  "bit_len n = (if n = 0 then 0 else Suc (bit_len (n div 2)))"

declare bit_len.simps [simp del]

text \<open>Round a mantissa to 53 bits, ties to even: the rounded mantissa and the bits dropped.\<close>

definition round53 :: "nat \<Rightarrow> nat \<times> nat" where
  "round53 m =
     (let sh = bit_len m - 53; q = m div 2 ^ sh; r = m mod 2 ^ sh; half = 2 ^ (sh - 1)
      in if sh = 0 then (m, 0)
         else if r > half \<or> (r = half \<and> odd q) then (q + 1, sh) else (q, sh))"

definition f64_of_nat :: "bool \<Rightarrow> nat \<Rightarrow> f64" where
  "f64_of_nat neg n = (case round53 n of (m, sh) \<Rightarrow> F64_Fin neg m (int sh))"

definition f64_magnitude :: "nat \<Rightarrow> int \<Rightarrow> nat" where
  "f64_magnitude m e = (if 0 \<le> e then m * 2 ^ nat e else m div 2 ^ nat (- e))"

definition i64_min :: int where
  "i64_min = - 9223372036854775808"

definition i64_max :: int where
  "i64_max = 9223372036854775807"

definition u64_max :: nat where
  "u64_max = 18446744073709551615"

text \<open>\<open>x as i64\<close> and \<open>x as u64\<close>: truncation towards zero, saturating, NaN to 0.\<close>

fun f64_as_i64 :: "f64 \<Rightarrow> int" where
  "f64_as_i64 F64_NaN = 0"
| "f64_as_i64 (F64_Inf neg) = (if neg then i64_min else i64_max)"
| "f64_as_i64 (F64_Fin neg m e) =
     (if neg then max i64_min (- int (f64_magnitude m e))
      else min i64_max (int (f64_magnitude m e)))"

fun f64_as_u64 :: "f64 \<Rightarrow> nat" where
  "f64_as_u64 F64_NaN = 0"
| "f64_as_u64 (F64_Inf neg) = (if neg then 0 else u64_max)"
| "f64_as_u64 (F64_Fin neg m e) = (if neg then 0 else min u64_max (f64_magnitude m e))"

text \<open>\<open>x.max(0.0)\<close> (a NaN gives the other operand) and \<open>x * 1000.0\<close> with one rounding.\<close>

fun f64_max0 :: "f64 \<Rightarrow> f64" where
  "f64_max0 F64_NaN = F64_Fin False 0 0"
| "f64_max0 (F64_Inf neg) = (if neg then F64_Fin False 0 0 else F64_Inf False)"
| "f64_max0 (F64_Fin neg m e) = (if neg then F64_Fin False 0 0 else F64_Fin False m e)"

fun f64_times_1000 :: "f64 \<Rightarrow> f64" where
  "f64_times_1000 F64_NaN = F64_NaN"
| "f64_times_1000 (F64_Inf neg) = F64_Inf neg"
| "f64_times_1000 (F64_Fin neg m e) =
     (case round53 (1000 * m) of (m', sh) \<Rightarrow>
        if m' = 0 then F64_Fin neg 0 0
        else if int (bit_len m') + e + int sh > 1024 then F64_Inf neg
        else F64_Fin neg m' (e + int sh))"

lemma f64_as_i64_range: "i64_min \<le> f64_as_i64 x" "f64_as_i64 x \<le> i64_max"
  by (cases x rule: f64_as_i64.cases; simp add: i64_min_def i64_max_def)+

lemma f64_as_u64_range: "f64_as_u64 x \<le> u64_max"
  by (cases x rule: f64_as_u64.cases) (simp_all add: u64_max_def)

section \<open>Values\<close>

datatype json_number = Pos_Int nat | Neg_Int int | Float f64

datatype json =
    Null
  | Bool bool
  | Number json_number
  | Str string
  | Array "json list"
  | Object "(string \<times> json) list"

fun obj_insert :: "string \<Rightarrow> json \<Rightarrow> (string \<times> json) list \<Rightarrow> (string \<times> json) list" where
  "obj_insert k v [] = [(k, v)]"
| "obj_insert k v ((k', v') # m) =
     (if k = k' then (k, v) # m
      else if k < k' then (k, v) # (k', v') # m
      else (k', v') # obj_insert k v m)"

definition obj_get :: "(string \<times> json) list \<Rightarrow> string \<Rightarrow> json option" where
  "obj_get m k = map_of m k"

definition obj_keys :: "(string \<times> json) list \<Rightarrow> string list" where
  "obj_keys m = map fst m"

text \<open>The members of an object literal \<open>json!({...})\<close>, and the literal itself.\<close>

definition members :: "(string \<times> json) list \<Rightarrow> (string \<times> json) list" where
  "members kvs = foldl (\<lambda>m (k, v). obj_insert k v m) [] kvs"

definition jobj :: "(string \<times> json) list \<Rightarrow> json" where
  "jobj kvs = Object (members kvs)"

interpretation object_map: keyed_map obj_get obj_insert "[]"
proof
  show "obj_get [] k = None" for k
    by (simp add: obj_get_def)
  show "obj_get (obj_insert k v m) k' = (if k' = k then Some v else obj_get m k')" for k v m k'
    by (induction k v m rule: obj_insert.induct) (auto simp: obj_get_def)
qed

text \<open>\<open>Value::get\<close> with a string key: the member of an object, \<open>None\<close> on any other value.\<close>

fun jget :: "json \<Rightarrow> string \<Rightarrow> json option" where
  "jget (Object m) k = obj_get m k"
| "jget _ k = None"

fun as_str :: "json \<Rightarrow> string option" where
  "as_str (Str s) = Some s"
| "as_str _ = None"

fun as_bool :: "json \<Rightarrow> bool option" where
  "as_bool (Bool b) = Some b"
| "as_bool _ = None"

fun as_array :: "json \<Rightarrow> json list option" where
  "as_array (Array vs) = Some vs"
| "as_array _ = None"

fun as_object :: "json \<Rightarrow> (string \<times> json) list option" where
  "as_object (Object m) = Some m"
| "as_object _ = None"

fun as_i64 :: "json \<Rightarrow> int option" where
  "as_i64 (Number (Pos_Int n)) = (if int n \<le> i64_max then Some (int n) else None)"
| "as_i64 (Number (Neg_Int i)) = Some i"
| "as_i64 _ = None"

fun as_u64 :: "json \<Rightarrow> nat option" where
  "as_u64 (Number (Pos_Int n)) = Some n"
| "as_u64 _ = None"

fun as_f64 :: "json \<Rightarrow> f64 option" where
  "as_f64 (Number (Pos_Int n)) = Some (f64_of_nat False n)"
| "as_f64 (Number (Neg_Int i)) = Some (f64_of_nat True (nat (- i)))"
| "as_f64 (Number (Float x)) = Some x"
| "as_f64 _ = None"

abbreviation jnat :: "nat \<Rightarrow> json" where
  "jnat n \<equiv> Number (Pos_Int n)"

lemma jget_jobj [simp]: "jget (jobj kvs) k = map_of (rev kvs) k"
  by (simp add: jobj_def members_def object_map.get_build)

lemma jobj_not_Null [simp]: "jobj kvs \<noteq> Null" "jobj kvs \<noteq> Str s" "jobj kvs \<noteq> Array vs"
  by (simp_all add: jobj_def)

text \<open>Objects built by insertion are sorted by key without duplicates.\<close>

definition obj_sorted :: "(string \<times> json) list \<Rightarrow> bool" where
  "obj_sorted m = sorted_wrt (<) (map fst m)"

lemma fst_obj_insert: "fst ` set (obj_insert k v m) = insert k (fst ` set m)"
  by (induction k v m rule: obj_insert.induct) auto

lemma obj_sorted_Cons:
  "obj_sorted ((k, v) # m) \<longleftrightarrow> (\<forall>x \<in> fst ` set m. k < x) \<and> obj_sorted m"
  by (auto simp: obj_sorted_def)

lemma obj_sorted_insert: "obj_sorted m \<Longrightarrow> obj_sorted (obj_insert k v m)"
proof (induction k v m rule: obj_insert.induct)
  case (2 k v k' v' m)
  consider "k = k'" | "k < k'" | "k' < k" by (meson linorder_less_linear)
  then show ?case
  proof cases
    case 3
    with 2 have "obj_sorted (obj_insert k v m)" by (simp add: obj_sorted_Cons)
    with 2 3 show ?thesis by (auto simp: obj_sorted_Cons fst_obj_insert)
  qed (use "2.prems" in \<open>auto simp: obj_sorted_Cons\<close>)
qed (simp add: obj_sorted_def)

lemma obj_sorted_members: "obj_sorted (members kvs)"
  unfolding members_def
  by (rule foldl_invariant) (auto simp: obj_sorted_insert, simp add: obj_sorted_def)

end
