(* ===== verification/Rust_Bytes.thy ===== *)
theory Rust_Bytes
  imports Rust_Text
begin

text \<open>
  UTF-8 decoding (\<open>String::from_utf8\<close>, \<open>String::from_utf8_lossy\<close>) and fixed-width big-endian
  integers (\<open>u64::to_be_bytes\<close>, \<open>u64::from_be_bytes\<close>), as the program calls them.
\<close>

section \<open>UTF-8\<close>

definition utf8_cont :: "char \<Rightarrow> bool" where
  "utf8_cont c = in_range 128 191 c"

text \<open>The second bytes allowed after a three-byte and after a four-byte lead.\<close>

definition utf8_second3 :: "nat \<Rightarrow> char \<Rightarrow> bool" where
  "utf8_second3 lead c =
     (if lead = 224 then in_range 160 191 c
      else if lead = 237 then in_range 128 159 c else utf8_cont c)"

definition utf8_second4 :: "nat \<Rightarrow> char \<Rightarrow> bool" where
  "utf8_second4 lead c =
     (if lead = 240 then in_range 144 191 c
      else if lead = 244 then in_range 128 143 c else utf8_cont c)"

text \<open>
  The sequence a byte string starts with: whether it is a well-formed character and how many bytes
  it takes. An ill-formed start takes the bytes that Rust replaces by one U+FFFD.
\<close>

definition utf8_head :: "char \<Rightarrow> bytes \<Rightarrow> bool \<times> nat" where
  "utf8_head a s =
     (let n = byte_val a in
      if n < 128 then (True, 1)
      else if 194 \<le> n \<and> n \<le> 223 then
        (case s of [] \<Rightarrow> (False, 1) | b # _ \<Rightarrow> if utf8_cont b then (True, 2) else (False, 1))
      else if 224 \<le> n \<and> n \<le> 239 then
        (case s of [] \<Rightarrow> (False, 1)
         | b # s' \<Rightarrow> if \<not> utf8_second3 n b then (False, 1)
             else (case s' of [] \<Rightarrow> (False, 2)
                   | c # _ \<Rightarrow> if utf8_cont c then (True, 3) else (False, 2)))
      else if 240 \<le> n \<and> n \<le> 244 then
        (case s of [] \<Rightarrow> (False, 1)
         | b # s' \<Rightarrow> if \<not> utf8_second4 n b then (False, 1)
             else (case s' of [] \<Rightarrow> (False, 2)
                   | c # s'' \<Rightarrow> if \<not> utf8_cont c then (False, 2)
                       else (case s'' of [] \<Rightarrow> (False, 3)
                             | d # _ \<Rightarrow> if utf8_cont d then (True, 4) else (False, 3))))
      else (False, 1))"

lemma utf8_head_pos: "0 < snd (utf8_head a s)"
  by (simp add: utf8_head_def Let_def split: list.split)

function utf8_valid :: "bytes \<Rightarrow> bool" where
  "utf8_valid [] = True"
| "utf8_valid (a # s) =
     (fst (utf8_head a s) \<and> utf8_valid (drop (snd (utf8_head a s)) (a # s)))"
  by pat_completeness auto
termination
  by (relation "measure length") (use utf8_head_pos in \<open>auto simp: drop_Cons' le_imp_less_Suc\<close>)

text \<open>The replacement character U+FFFD.\<close>

definition utf8_replacement :: bytes where
  "utf8_replacement = [CHR 0xEF, CHR 0xBF, CHR 0xBD]"

function from_utf8_lossy :: "bytes \<Rightarrow> string" where
  "from_utf8_lossy [] = []"
| "from_utf8_lossy (a # s) =
     (if fst (utf8_head a s) then take (snd (utf8_head a s)) (a # s) else utf8_replacement) @
     from_utf8_lossy (drop (snd (utf8_head a s)) (a # s))"
  by pat_completeness auto
termination
  by (relation "measure length") (use utf8_head_pos in \<open>auto simp: drop_Cons' le_imp_less_Suc\<close>)

declare utf8_valid.simps(2) [simp del] from_utf8_lossy.simps(2) [simp del]

definition from_utf8 :: "bytes \<Rightarrow> string option" where
  "from_utf8 s = (if utf8_valid s then Some s else None)"

definition is_ascii :: "string \<Rightarrow> bool" where
  "is_ascii s = list_all (\<lambda>c. byte_val c < 128) s"

lemma is_ascii_simps [simp]:
  "is_ascii []"
  "is_ascii (c # s) \<longleftrightarrow> byte_val c < 128 \<and> is_ascii s"
  "is_ascii (s @ t) \<longleftrightarrow> is_ascii s \<and> is_ascii t"
  by (simp_all add: is_ascii_def)

lemma utf8_head_ascii: "byte_val a < 128 \<Longrightarrow> utf8_head a s = (True, 1)"
  by (simp add: utf8_head_def)

lemma from_utf8_lossy_ascii_append:
  "is_ascii a \<Longrightarrow> from_utf8_lossy (a @ s) = a @ from_utf8_lossy s"
  by (induction a) (simp_all add: utf8_head_ascii from_utf8_lossy.simps(2))

lemma from_utf8_lossy_ascii: "is_ascii a \<Longrightarrow> from_utf8_lossy a = a"
  using from_utf8_lossy_ascii_append [of a "[]"] by simp

lemma from_utf8_lossy_valid: "utf8_valid s \<Longrightarrow> from_utf8_lossy s = s"
proof (induction s rule: from_utf8_lossy.induct)
  case (2 a s)
  let ?n = "snd (utf8_head a s)"
  from "2.prems" have "fst (utf8_head a s)" "utf8_valid (drop ?n (a # s))"
    by (simp_all add: utf8_valid.simps(2))
  moreover from this have "from_utf8_lossy (drop ?n (a # s)) = drop ?n (a # s)"
    by (intro "2.IH")
  ultimately show ?case
    unfolding from_utf8_lossy.simps(2) by (simp only: if_True append_take_drop_id)
qed simp

lemma utf8_valid_ascii: "is_ascii s \<Longrightarrow> utf8_valid s"
  by (induction s) (simp_all add: utf8_head_ascii utf8_valid.simps(2))

lemma utf8_head_append:
  assumes "fst (utf8_head a s)"
  shows "utf8_head a (s @ t) = utf8_head a s" "snd (utf8_head a s) \<le> length (a # s)"
  using assms
  by (cases s rule: ws_len.cases; simp add: utf8_head_def Let_def split: if_splits)+

lemma utf8_valid_append: "utf8_valid s \<Longrightarrow> utf8_valid t \<Longrightarrow> utf8_valid (s @ t)"
proof (induction s rule: utf8_valid.induct)
  case (2 a s)
  let ?n = "snd (utf8_head a s)"
  from "2.prems" have h: "fst (utf8_head a s)" and v: "utf8_valid (drop ?n (a # s))"
    by (simp_all add: utf8_valid.simps(2))
  have "utf8_valid (drop ?n (a # s) @ t)" using v "2.prems"(2) by (rule "2.IH")
  moreover have "drop ?n (a # s @ t) = drop ?n (a # s) @ t"
    using utf8_head_append(2) [OF h] drop_append [of ?n "a # s" t] by simp
  ultimately show ?case using h utf8_head_append(1) [OF h]
    by (simp only: append_Cons utf8_valid.simps(2))
qed simp

section \<open>Big-endian integers\<close>

fun be_bytes :: "nat \<Rightarrow> nat \<Rightarrow> bytes" where
  "be_bytes 0 n = []"
| "be_bytes (Suc w) n = be_bytes w (n div 256) @ [char_of (n mod 256)]"

definition be_val :: "bytes \<Rightarrow> nat" where
  "be_val bs = foldl (\<lambda>n b. 256 * n + byte_val b) 0 bs"

lemma length_be_bytes [simp]: "length (be_bytes w n) = w"
  by (induction w n rule: be_bytes.induct) auto

lemma be_val_snoc: "be_val (bs @ [b]) = 256 * be_val bs + byte_val b"
  by (simp add: be_val_def)

lemma be_val_be_bytes: "n < 256 ^ w \<Longrightarrow> be_val (be_bytes w n) = n"
proof (induction w n rule: be_bytes.induct)
  case (1 n)
  then show ?case by (simp add: be_val_def)
next
  case (2 w n)
  then have "n div 256 < 256 ^ w" by (simp add: less_mult_imp_div_less mult.commute)
  with "2.IH" show ?case by (simp add: be_val_snoc byte_val_def)
qed

lemma be_val_less: "be_val bs < 256 ^ length bs"
proof (induction bs rule: rev_induct)
  case Nil
  then show ?case by (simp add: be_val_def)
next
  case (snoc b bs)
  have "256 * be_val bs + byte_val b < 256 * (be_val bs + 1)" using byte_val_less [of b] by simp
  also have "\<dots> \<le> 256 * 256 ^ length bs" using snoc by simp
  finally show ?case by (simp add: be_val_snoc)
qed

end
