(* ===== verification/Host.thy ===== *)
theory Host
  imports Json Rust_Bytes
begin

text \<open>
  The computer the program runs on, as the program sees it.

  \<^item> \<open>host\<close> is the parameter of every definition that leaves the program: the environment, the
    random source, the clock, I/O faults, child processes and the third-party crates (\<open>serde_json\<close>,
    \<open>sha2\<close>, \<open>rs_peekaboo\<close>, \<open>praefectus\<close>, \<open>ed25519-dalek\<close>), none of which is in the repository. A
    theorem that quantifies over \<open>host\<close> holds for every behaviour they can have. What answers a
    call may depend on all calls made before it: the oracles take the list of host calls up to and
    including the current one.
  \<^item> \<open>world\<close> is the state: the file system, how many random bytes, clock readings and I/O
    operations have been consumed, the lines written to standard error, the trace of host calls,
    and the two process-wide statics of the Praefectus adapter (\<open>OBSERVATIONS\<close>, \<open>HOST_AUTHORITY\<close>).
  \<^item> The types of the third-party APIs carry the variants and fields the source names.
\<close>

section \<open>Paths\<close>

text \<open>A \<open>PathBuf\<close> on Unix by its components: absolute or not, and the component names.\<close>

datatype path = Path (path_abs: bool) (path_comps: "string list")

fun split_char :: "char \<Rightarrow> string \<Rightarrow> string list" where
  "split_char c [] = [[]]"
| "split_char c (x # s) =
     (if x = c then [] # split_char c s
      else (case split_char c s of [] \<Rightarrow> [[x]] | p # ps \<Rightarrow> (x # p) # ps))"

definition path_from :: "string \<Rightarrow> path" where
  "path_from s =
     (let parts = split_char CHR ''/'' s; absolute = starts_with ''/'' s;
          keep = filter (\<lambda>c. c \<noteq> [] \<and> c \<noteq> ''.'')
      in Path absolute
           (if \<not> absolute \<and> hd parts = ''.'' then ''.'' # keep (tl parts) else keep parts))"

definition path_join :: "path \<Rightarrow> string \<Rightarrow> path" where
  "path_join p s =
     (let q = path_from s in if path_abs q then q else Path (path_abs p) (path_comps p @ path_comps q))"

definition path_is_empty :: "path \<Rightarrow> bool" where
  "path_is_empty p \<longleftrightarrow> p = Path False []"

definition path_parent :: "path \<Rightarrow> path" where
  "path_parent p = Path (path_abs p) (butlast (path_comps p))"

section \<open>I/O errors and the file system's nodes\<close>

datatype io_kind = Not_Found | Already_Exists | Invalid_Data | Unexpected_Eof | Other_Kind nat

datatype io_error = Io_Error (io_kind: io_kind) (io_msg: string)

text \<open>Permission bits are those of \<open>st_mode & 0o777\<close>.\<close>

datatype node = Dir nat | Regular nat bytes | Symlink path | Special

type_synonym files = "path \<Rightarrow> node option"

section \<open>Third-party data\<close>

datatype image_mode = Screen_Mode | Window_Mode | Other_Mode nat

record image_capture =
  cap_path :: path
  cap_mode :: image_mode
  cap_mime :: string
  cap_ephemeral :: bool

datatype direction = Dir_Left | Dir_Right | Dir_Up | Dir_Down

record bounds =
  b_x :: int
  b_y :: int
  b_width :: int
  b_height :: int

datatype cursor_target = Target_Query string "string option" | Target_Point int int

datatype action = Invoke | Set_Value string | Other_Action string

datatype safety_class = External | Other_Safety nat

datatype verification_policy = Verify_None | Target_Value_Hash string | Other_Policy nat

datatype interaction_mode = Interactive | Background_Only

record semantic_target =
  st_observation_id :: string
  st_detail :: json

record observation =
  obs_id :: string
  obs_expires_at_ms :: int
  obs_detail :: json

record authority_grant =
  gr_protocol_version :: nat
  gr_issuer :: string
  gr_key_id :: string
  gr_operation_id :: string
  gr_subject :: string
  gr_session_id :: string
  gr_risk :: safety_class
  gr_expires_at_ms :: int
  gr_policy_generation :: string
  gr_action_hash :: string

record signed_authority =
  sa_grant :: authority_grant
  sa_signature :: string

record action_request =
  rq_protocol_version :: nat
  rq_action_version :: nat
  rq_target_version :: nat
  rq_verification_version :: nat
  rq_operation_id :: string
  rq_subject :: string
  rq_session_id :: string
  rq_authority :: signed_authority
  rq_action :: action
  rq_target :: semantic_target
  rq_interaction_mode :: interaction_mode
  rq_deadline_at_ms :: int
  rq_verification :: verification_policy
  rq_safety :: safety_class

datatype terminal =
    Rejected string string
  | Cancelled_Before_Effect
  | Expired_Before_Effect
  | Succeeded json
  | Outcome_Unknown json string
  | Failed string string
  | Other_Terminal json

datatype ack_state = Accepted | Ack_Terminal terminal | Other_Ack json

record action_ack =
  ack_sequence :: nat
  ack_replayed :: bool
  ack_state :: ack_state
  ack_detail :: json

record execute_report =
  acknowledgements :: "action_ack list"

record capabilities =
  supported_actions :: "string list"
  cap_detail :: json

section \<open>Host calls\<close>

datatype host_call =
    Run_Process string "string list" "string option" "string option"
  | Spawn_Process string "string list"
  | Clipboard_Read
  | Clipboard_Write string
  | Capture image_mode path bool
  | Capture_App string path bool
  | List_Screens
  | Permissions_Probe
  | Permissions_Grant
  | Doctor
  | Type_Text string bool bool "nat option" "string option"
  | Press string nat "nat option"
  | Paste string
  | Hotkey "string list"
  | Scroll direction nat
  | Move_Cursor cursor_target
  | Perform_Action cursor_target string
  | Open_Target string "string option" bool
  | Window_Call string "string option" "string option" "bounds option"
  | App_Call string "string option"
  | Menu_Call string string "string option" "string option"
  | Clean_Snapshots bool "string option"
  | Sleep nat
  | Query_Capabilities
  | Observe_Semantic int
  | Engine_Execute path action_request

text \<open>The two error types of the crate \<open>praefectus\<close>.\<close>

datatype lib_error = Lib_Protocol string | Lib_Semantic string

record raw_output =
  out_stdout :: bytes
  out_stderr :: bytes
  out_code :: "int option"

record host =
  h_unix :: bool
  h_os :: string
  h_arch :: string
  h_env :: "string \<Rightarrow> string option"
  h_file_mode :: nat
  h_dir_mode :: nat
  h_fault :: "nat \<Rightarrow> io_error option"
  h_random :: "nat \<Rightarrow> char"
  h_clock_ms :: "nat \<Rightarrow> int"
  h_run :: "host_call list \<Rightarrow> io_error + raw_output"
  h_spawn :: "host_call list \<Rightarrow> io_error + unit"
  h_files :: "host_call list \<Rightarrow> files \<Rightarrow> files"
  h_text :: "host_call list \<Rightarrow> string + string"
  h_unit :: "host_call list \<Rightarrow> string + unit"
  h_json :: "host_call list \<Rightarrow> string + json"
  h_permissions :: "host_call list \<Rightarrow> json"
  h_capture :: "host_call list \<Rightarrow> string + image_capture"
  h_image_mode :: "string \<Rightarrow> string + image_mode"
  h_image_mode_json :: "image_mode \<Rightarrow> json"
  h_capabilities :: "host_call list \<Rightarrow> lib_error + capabilities"
  h_observe :: "host_call list \<Rightarrow> lib_error + observation"
  h_engine :: "host_call list \<Rightarrow> lib_error + execute_report"
  h_obs_validate :: "observation \<Rightarrow> int \<Rightarrow> lib_error + unit"
  h_obs_target :: "observation \<Rightarrow> string \<Rightarrow> lib_error + semantic_target"
  h_obs_json :: "observation \<Rightarrow> string + json"
  h_report_json :: "execute_report \<Rightarrow> string + json"
  h_action_hash :: "action_request \<Rightarrow> lib_error + string"
  h_authority_bytes :: "authority_grant \<Rightarrow> lib_error + bytes"
  h_sign :: "bytes \<Rightarrow> bytes \<Rightarrow> bytes"
  h_verifier :: "bytes \<Rightarrow> authority_grant \<Rightarrow> lib_error + unit"
  h_protocol_version :: nat
  h_sha256 :: "bytes \<Rightarrow> bytes"
  h_json_string :: "json \<Rightarrow> string + string"
  h_json_pretty :: "json \<Rightarrow> string + string"
  h_json_display :: "json \<Rightarrow> string"
  h_json_parse :: "bytes \<Rightarrow> string + json"

record world =
  files :: files
  io_ops :: nat
  rng_pos :: nat
  ticks :: nat
  stderr_lines :: "string list"
  trace :: "host_call list"
  observations :: "observation list"
  host_authority :: "(bytes \<times> string) option"

section \<open>Primitive host operations\<close>

text \<open>Every file-system operation may fail with an I/O error before it has an effect.\<close>

definition io_step :: "host \<Rightarrow> (world, io_error, unit) act" where
  "io_step H w =
     ((case h_fault H (io_ops w) of None \<Rightarrow> Inr () | Some e \<Rightarrow> Inl e),
      w\<lparr>io_ops := Suc (io_ops w)\<rparr>)"

definition get_files :: "(world, 'e, files) act" where
  "get_files w = (Inr (files w), w)"

definition put_node :: "path \<Rightarrow> node option \<Rightarrow> (world, 'e, unit) act" where
  "put_node p n w = (Inr (), w\<lparr>files := (files w)(p := n)\<rparr>)"

definition read_clock :: "host \<Rightarrow> (world, 'e, int) act" where
  "read_clock H w = (Inr (h_clock_ms H (ticks w)), w\<lparr>ticks := Suc (ticks w)\<rparr>)"

definition fill_bytes :: "host \<Rightarrow> nat \<Rightarrow> (world, 'e, bytes) act" where
  "fill_bytes H n w =
     (Inr (map (h_random H) [rng_pos w ..< rng_pos w + n]), w\<lparr>rng_pos := rng_pos w + n\<rparr>)"

text \<open>
  A host call extends the trace, lets the call change files, and answers what the oracle says
  about the extended trace.
\<close>

definition host_call :: "host \<Rightarrow> (host_call list \<Rightarrow> 'e + 'a) \<Rightarrow> host_call \<Rightarrow> (world, 'e, 'a) act" where
  "host_call H answer c w =
     (let tr = trace w @ [c]
      in (answer tr, w\<lparr>trace := tr, files := h_files H tr (files w)\<rparr>))"

section \<open>The file system\<close>

text \<open>Follow symbolic links at the last component, up to the 40 hops Linux allows.\<close>

fun follow :: "nat \<Rightarrow> files \<Rightarrow> path \<Rightarrow> path option" where
  "follow 0 fs p = None"
| "follow (Suc n) fs p = (case fs p of Some (Symlink q) \<Rightarrow> follow n fs q | _ \<Rightarrow> Some p)"

definition max_symlinks :: nat where
  "max_symlinks = 40"

definition err_not_found :: io_error where
  "err_not_found = Io_Error Not_Found ''No such file or directory (os error 2)''"

definition err_exists :: io_error where
  "err_exists = Io_Error Already_Exists ''File exists (os error 17)''"

definition err_not_dir :: io_error where
  "err_not_dir = Io_Error (Other_Kind 20) ''Not a directory (os error 20)''"

definition err_is_dir :: io_error where
  "err_is_dir = Io_Error (Other_Kind 21) ''Is a directory (os error 21)''"

definition err_loop :: io_error where
  "err_loop = Io_Error (Other_Kind 40) ''Too many levels of symbolic links (os error 40)''"

definition err_no_device :: io_error where
  "err_no_device = Io_Error (Other_Kind 6) ''No such device or address (os error 6)''"

definition err_utf8 :: io_error where
  "err_utf8 = Io_Error Invalid_Data ''stream did not contain valid UTF-8''"

text \<open>
  The directory a new file goes to must exist. A path names one file: a link inside a path is
  checked for leading to a directory, but the paths through it are not identified with those of
  its target.
\<close>

definition check_parent :: "files \<Rightarrow> path \<Rightarrow> io_error + unit" where
  "check_parent fs p =
     (case follow max_symlinks fs (path_parent p) of
        None \<Rightarrow> Inl err_loop
      | Some q \<Rightarrow>
          (case fs q of
             Some (Dir m) \<Rightarrow> Inr ()
           | Some _ \<Rightarrow> Inl err_not_dir
           | None \<Rightarrow> Inl err_not_found))"

text \<open>\<open>File::open\<close> and reading it whole.\<close>

definition fs_read :: "host \<Rightarrow> path \<Rightarrow> (world, io_error, bytes) act" where
  "fs_read H p =
     act_bind (io_step H) (\<lambda>_.
     act_bind get_files (\<lambda>fs.
       (case follow max_symlinks fs p of
          None \<Rightarrow> fail err_loop
        | Some q \<Rightarrow>
            (case fs q of
               Some (Regular m bs) \<Rightarrow> ret bs
             | Some (Dir m) \<Rightarrow> fail err_is_dir
             | Some _ \<Rightarrow> fail err_no_device
             | None \<Rightarrow> fail err_not_found))))"

text \<open>\<open>fs::read_to_string\<close>.\<close>

definition fs_read_to_string :: "host \<Rightarrow> path \<Rightarrow> (world, io_error, string) act" where
  "fs_read_to_string H p =
     act_bind (fs_read H p) (\<lambda>bs. lift_res (ok_or err_utf8 (from_utf8 bs)))"

text \<open>\<open>fs::write\<close>: create or truncate, keeping the permissions of an existing file.\<close>

definition fs_write :: "host \<Rightarrow> path \<Rightarrow> bytes \<Rightarrow> (world, io_error, unit) act" where
  "fs_write H p bs =
     act_bind (io_step H) (\<lambda>_.
     act_bind get_files (\<lambda>fs.
       (case follow max_symlinks fs p of
          None \<Rightarrow> fail err_loop
        | Some q \<Rightarrow>
            (case fs q of
               Some (Regular m old) \<Rightarrow> put_node q (Some (Regular m bs))
             | Some (Dir m) \<Rightarrow> fail err_is_dir
             | Some _ \<Rightarrow> fail err_no_device
             | None \<Rightarrow>
                 act_bind (lift_res (check_parent fs q)) (\<lambda>_.
                 put_node q (Some (Regular (h_file_mode H) bs)))))))"

text \<open>\<open>fs::set_permissions\<close>.\<close>

definition fs_set_permissions :: "host \<Rightarrow> path \<Rightarrow> nat \<Rightarrow> (world, io_error, unit) act" where
  "fs_set_permissions H p mode =
     act_bind (io_step H) (\<lambda>_.
     act_bind get_files (\<lambda>fs.
       (case follow max_symlinks fs p of
          None \<Rightarrow> fail err_loop
        | Some q \<Rightarrow>
            (case fs q of
               Some (Regular m bs) \<Rightarrow> put_node q (Some (Regular mode bs))
             | Some (Dir m) \<Rightarrow> put_node q (Some (Dir mode))
             | Some _ \<Rightarrow> ret ()
             | None \<Rightarrow> fail err_not_found))))"

text \<open>\<open>OpenOptions::new().write(true).create_new(true).mode(mode).open\<close>.\<close>

definition fs_create_new :: "host \<Rightarrow> path \<Rightarrow> nat \<Rightarrow> (world, io_error, unit) act" where
  "fs_create_new H p mode =
     act_bind (io_step H) (\<lambda>_.
     act_bind get_files (\<lambda>fs.
       (case fs p of
          Some _ \<Rightarrow> fail err_exists
        | None \<Rightarrow>
            act_bind (lift_res (check_parent fs p)) (\<lambda>_.
            put_node p (Some (Regular mode []))))))"

text \<open>\<open>fs::symlink_metadata\<close>: the node itself, links not followed.\<close>

definition fs_symlink_metadata :: "host \<Rightarrow> path \<Rightarrow> (world, io_error, node) act" where
  "fs_symlink_metadata H p =
     act_bind (io_step H) (\<lambda>_.
     act_bind get_files (\<lambda>fs. lift_res (ok_or err_not_found (fs p))))"

text \<open>\<open>write_all\<close> to a file just created: its contents become the bytes.\<close>

definition fs_write_all :: "host \<Rightarrow> path \<Rightarrow> bytes \<Rightarrow> (world, io_error, unit) act" where
  "fs_write_all H p bs =
     act_bind (io_step H) (\<lambda>_.
     act_bind get_files (\<lambda>fs.
       (case fs p of
          Some (Regular m old) \<Rightarrow> put_node p (Some (Regular m bs))
        | _ \<Rightarrow> ret ())))"

text \<open>\<open>fs::remove_file\<close>: the name itself, links not followed.\<close>

definition fs_remove_file :: "host \<Rightarrow> path \<Rightarrow> (world, io_error, unit) act" where
  "fs_remove_file H p =
     act_bind (io_step H) (\<lambda>_.
     act_bind get_files (\<lambda>fs.
       (case fs p of
          None \<Rightarrow> fail err_not_found
        | Some (Dir m) \<Rightarrow> fail err_is_dir
        | Some _ \<Rightarrow> put_node p None)))"

text \<open>\<open>File::open\<close> for reading: the path of the node behind the links, which is there.\<close>

definition fs_open :: "host \<Rightarrow> path \<Rightarrow> (world, io_error, path) act" where
  "fs_open H p =
     act_bind (io_step H) (\<lambda>_.
     act_bind get_files (\<lambda>fs.
       (case follow max_symlinks fs p of
          None \<Rightarrow> fail err_loop
        | Some q \<Rightarrow>
            (case fs q of
               None \<Rightarrow> fail err_not_found
             | Some Special \<Rightarrow> fail err_no_device
             | Some _ \<Rightarrow> ret q))))"

text \<open>\<open>fs::create_dir_all\<close>: every missing ancestor, outermost first, then the directory.\<close>

fun make_dirs :: "host \<Rightarrow> path list \<Rightarrow> (world, io_error, unit) act" where
  "make_dirs H [] = ret ()"
| "make_dirs H (p # ps) =
     act_bind (io_step H) (\<lambda>_.
     act_bind get_files (\<lambda>fs.
       (case follow max_symlinks fs p of
          None \<Rightarrow> fail err_loop
        | Some q \<Rightarrow>
            (case fs q of
               Some (Dir m) \<Rightarrow> make_dirs H ps
             | Some _ \<Rightarrow> fail err_exists
             | None \<Rightarrow>
                 if q = p
                 then act_bind (put_node p (Some (Dir (h_dir_mode H)))) (\<lambda>_. make_dirs H ps)
                 else fail err_exists))))"

definition path_ancestors :: "path \<Rightarrow> path list" where
  "path_ancestors p =
     map (\<lambda>n. Path (path_abs p) (take n (path_comps p))) [1 ..< Suc (length (path_comps p))]"

definition fs_create_dir_all :: "host \<Rightarrow> path \<Rightarrow> (world, io_error, unit) act" where
  "fs_create_dir_all H p = make_dirs H (path_ancestors p)"

section \<open>Facts about the primitives\<close>

lemma io_step_eq [simp]:
  "io_step H w = (r, w') \<longleftrightarrow>
     r = (case h_fault H (io_ops w) of None \<Rightarrow> Inr () | Some e \<Rightarrow> Inl e) \<and>
     w' = w\<lparr>io_ops := Suc (io_ops w)\<rparr>"
  by (auto simp: io_step_def)

lemma get_files_eq [simp]: "get_files w = (r, w') \<longleftrightarrow> r = Inr (files w) \<and> w' = w"
  by (auto simp: get_files_def)

lemma put_node_eq [simp]:
  "put_node p n w = (r, w') \<longleftrightarrow> r = Inr () \<and> w' = w\<lparr>files := (files w)(p := n)\<rparr>"
  by (auto simp: put_node_def)

lemma read_clock_eq [simp]:
  "read_clock H w = (r, w') \<longleftrightarrow>
     r = Inr (h_clock_ms H (ticks w)) \<and> w' = w\<lparr>ticks := Suc (ticks w)\<rparr>"
  by (auto simp: read_clock_def)

lemma fill_bytes_eq [simp]:
  "fill_bytes H n w = (r, w') \<longleftrightarrow>
     r = Inr (map (h_random H) [rng_pos w ..< rng_pos w + n]) \<and>
     w' = w\<lparr>rng_pos := rng_pos w + n\<rparr>"
  by (auto simp: fill_bytes_def)

lemma put_node_apply [act_simps]: "put_node p n w = (Inr (), w\<lparr>files := (files w)(p := n)\<rparr>)"
  by (simp add: put_node_def)

text \<open>Evaluation of a bind whose first action is a primitive.\<close>

lemma bind_primitive [simp]:
  "act_bind get_files f w = f (files w) w"
  "act_bind (put_node p n) g w = g () (w\<lparr>files := (files w)(p := n)\<rparr>)"
  "act_bind (read_clock H) k w = k (h_clock_ms H (ticks w)) (w\<lparr>ticks := Suc (ticks w)\<rparr>)"
  "act_bind (fill_bytes H m) h w =
     h (map (h_random H) [rng_pos w ..< rng_pos w + m]) (w\<lparr>rng_pos := rng_pos w + m\<rparr>)"
  by (simp_all add: act_bind_def get_files_def put_node_def read_clock_def fill_bytes_def)

lemma bind_io_step_ok [act_simps]:
  "h_fault H (io_ops w) = None \<Longrightarrow>
     act_bind (io_step H) f w = f () (w\<lparr>io_ops := Suc (io_ops w)\<rparr>)"
  by (simp add: act_bind_def io_step_def)

lemma bind_io_step_fault [act_simps]:
  "h_fault H (io_ops w) = Some e \<Longrightarrow>
     act_bind (io_step H) f w = (Inl e, w\<lparr>io_ops := Suc (io_ops w)\<rparr>)"
  by (simp add: act_bind_def io_step_def)

lemma io_step_Inr: "io_step H w = (Inr x, w') \<longleftrightarrow>
    h_fault H (io_ops w) = None \<and> w' = w\<lparr>io_ops := Suc (io_ops w)\<rparr>"
  by (auto split: option.splits)

lemma follow_not_symlink: "follow n fs p = Some q \<Longrightarrow> fs q \<noteq> Some (Symlink r)"
  by (induction n fs p rule: follow.induct) (auto split: option.splits node.splits)

lemma follow_update:
  assumes "follow n fs p = Some q" and "\<And>r. nd \<noteq> Symlink r"
  shows "follow n (fs(q \<mapsto> nd)) p = Some q"
  using assms
proof (induction n fs p rule: follow.induct)
  case (2 n fs p)
  show ?case
  proof (cases "\<exists>r. fs p = Some (Symlink r)")
    case True
    then obtain r where r: "fs p = Some (Symlink r)" by blast
    with "2.prems" have "follow n fs r = Some q" by simp
    moreover from this have "p \<noteq> q" using follow_not_symlink r by metis
    ultimately show ?thesis using r "2.IH" "2.prems"(2) by simp
  next
    case False
    then have "p = q" using "2.prems" by (auto split: option.splits node.splits)
    then show ?thesis using "2.prems"(2) by (cases nd) auto
  qed
qed simp

lemma follow_regular: "fs p = Some (Regular m bs) \<Longrightarrow> follow (Suc n) fs p = Some p"
  by simp

lemma max_symlinks_Suc: "max_symlinks = Suc 39"
  by (simp add: max_symlinks_def)

lemma follow_here [simp]:
  "fs p = Some (Regular m bs) \<Longrightarrow> follow max_symlinks fs p = Some p"
  "fs p = Some (Dir m) \<Longrightarrow> follow max_symlinks fs p = Some p"
  "fs p = None \<Longrightarrow> follow max_symlinks fs p = Some p"
  by (simp_all only: max_symlinks_Suc follow.simps option.case node.case)

lemma fs_write_okD:
  assumes "fs_write H p bs w = (Inr (), w')"
  obtains q m where "follow max_symlinks (files w) p = Some q"
    "files w' = (files w)(q \<mapsto> Regular m bs)"
  using assms that
  by (auto simp: fs_write_def act_bind_eq_Inr io_step_Inr
      simp del: io_step_eq split: option.splits node.splits)

lemma fs_set_permissions_regular:
  assumes "fs_set_permissions H p mode w = (Inr (), w')"
    and "follow max_symlinks (files w) p = Some q" and "files w q = Some (Regular m bs)"
  shows "files w' = (files w)(q \<mapsto> Regular mode bs)"
  using assms by (auto simp: fs_set_permissions_def act_bind_eq_Inr io_step_Inr simp del: io_step_eq)

lemma fs_read_regular:
  assumes "follow max_symlinks (files w) p = Some q" and "files w q = Some (Regular m bs)"
    and "h_fault H (io_ops w) = None"
  shows "fs_read H p w = (Inr bs, w\<lparr>io_ops := Suc (io_ops w)\<rparr>)"
  using assms by (simp add: fs_read_def act_bind_eq_Inr)

section \<open>File systems that only grow\<close>

text \<open>
  \<open>fs_extends\<close>: every node that existed is still there with its kind and its contents or target;
  only permission bits may differ, and nodes may have been added.
\<close>

fun same_node :: "node \<Rightarrow> node \<Rightarrow> bool" where
  "same_node (Dir m) nd = (case nd of Dir _ \<Rightarrow> True | _ \<Rightarrow> False)"
| "same_node (Regular m bs) nd = (case nd of Regular _ bs' \<Rightarrow> bs' = bs | _ \<Rightarrow> False)"
| "same_node (Symlink p) nd = (nd = Symlink p)"
| "same_node Special nd = (nd = Special)"

definition fs_extends :: "files \<Rightarrow> files \<Rightarrow> bool" where
  "fs_extends fs fs' \<longleftrightarrow> (\<forall>p nd. fs p = Some nd \<longrightarrow> (\<exists>nd'. fs' p = Some nd' \<and> same_node nd nd'))"

definition world_extends :: "world \<Rightarrow> world \<Rightarrow> bool" where
  "world_extends w w' \<longleftrightarrow> fs_extends (files w) (files w')"

lemma same_node_refl [simp]: "same_node nd nd"
  by (cases nd) auto

lemma same_node_Dir: "same_node (Dir m) nd \<longleftrightarrow> (\<exists>m'. nd = Dir m')"
  by (cases nd) auto

lemma same_node_Regular: "same_node (Regular m bs) nd \<longleftrightarrow> (\<exists>m'. nd = Regular m' bs)"
  by (cases nd) auto

lemma same_node_trans: "same_node a b \<Longrightarrow> same_node b c \<Longrightarrow> same_node a c"
  by (cases a; cases b; cases c) auto

lemma fs_extends_refl [simp]: "fs_extends fs fs"
  by (auto simp: fs_extends_def)

lemma fs_extends_trans: "fs_extends a b \<Longrightarrow> fs_extends b c \<Longrightarrow> fs_extends a c"
  unfolding fs_extends_def by (meson same_node_trans)

interpretation growth: effect_relation world_extends
  by unfold_locales (auto simp: world_extends_def intro: fs_extends_trans)

lemma fs_extends_new: "fs p = None \<Longrightarrow> fs_extends fs (fs(p \<mapsto> nd))"
  by (auto simp: fs_extends_def)

lemma fs_extends_same: "fs p = Some nd \<Longrightarrow> same_node nd nd' \<Longrightarrow> fs_extends fs (fs(p \<mapsto> nd'))"
  by (auto simp: fs_extends_def)

lemma world_extends_regular:
  assumes e: "world_extends w w'" and f: "files w p = Some (Regular m bs)"
  shows "\<exists>m'. files w' p = Some (Regular m' bs)"
proof -
  from e have "\<forall>nd. files w p = Some nd \<longrightarrow> (\<exists>nd'. files w' p = Some nd' \<and> same_node nd nd')"
    unfolding world_extends_def fs_extends_def by (rule spec)
  with f have "\<exists>nd'. files w' p = Some nd' \<and> same_node (Regular m bs) nd'" by blast
  then show ?thesis by (auto simp only: same_node_Regular)
qed

lemma follow_extends:
  "follow n fs p = Some q \<Longrightarrow> fs q \<noteq> None \<Longrightarrow> fs_extends fs fs' \<Longrightarrow> follow n fs' p = Some q"
proof (induction n fs p rule: follow.induct)
  case (2 n fs p)
  show ?case
  proof (cases "fs p")
    case None
    then show ?thesis using "2.prems" by simp
  next
    case (Some nd)
    then obtain nd' where nd': "fs' p = Some nd'" "same_node nd nd'"
      using "2.prems"(3) unfolding fs_extends_def by blast
    show ?thesis
    proof (cases nd)
      case (Symlink r)
      with nd' Some "2.IH" "2.prems" show ?thesis by (cases nd') auto
    qed (use nd' Some "2.prems" in \<open>cases nd'; simp\<close>)+
  qed
qed simp

named_theorems growth_intros "actions that only let the file system grow"

lemma growth_io_step [growth_intros]: "keeps world_extends (io_step H)"
  by (rule keepsI) (simp add: io_step_def world_extends_def)

lemma growth_get_files_bind:
  assumes "\<And>fs w. files w = fs \<Longrightarrow> world_extends w (snd (f fs w))"
  shows "keeps world_extends (act_bind get_files f)"
  using assms by (intro keepsI) (simp add: act_bind_def get_files_def)

lemma growth_fs_op:
  assumes "\<And>fs w. files w = fs \<Longrightarrow> world_extends w (snd (f fs w))"
  shows "keeps world_extends (act_bind (io_step H) (\<lambda>_. act_bind get_files f))"
  by (rule growth.keeps_bind [OF growth_io_step growth_get_files_bind]) (rule assms)

lemma growth_fs_set_permissions [growth_intros]: "keeps world_extends (fs_set_permissions H p m)"
  unfolding fs_set_permissions_def
  by (rule growth_fs_op)
     (auto simp: world_extends_def fail_def ret_def put_node_def intro!: fs_extends_same
       split: option.split node.split)

lemma growth_fs_create_new [growth_intros]: "keeps world_extends (fs_create_new H p m)"
  unfolding fs_create_new_def
  by (rule growth_fs_op)
     (auto simp: world_extends_def fail_def put_node_def act_bind_def lift_res_def
       intro!: fs_extends_new split: option.split sum.split)

lemma growth_fs_symlink_metadata [growth_intros]: "keeps world_extends (fs_symlink_metadata H p)"
  unfolding fs_symlink_metadata_def
  by (rule growth_fs_op)
     (auto simp: world_extends_def lift_res_def)

lemma growth_fs_read [growth_intros]: "keeps world_extends (fs_read H p)"
  unfolding fs_read_def
  by (rule growth_fs_op)
     (auto simp: world_extends_def fail_def ret_def split: option.split node.split)

lemma growth_make_dirs: "keeps world_extends (make_dirs H ps)"
proof (induction ps)
  case Nil
  show ?case by (simp add: growth.keeps_ret)
next
  case (Cons p ps)
  have step: "world_extends w (snd (make_dirs H ps w))" for w
    using Cons by (simp add: keeps_def)
  have mk: "world_extends w (snd (make_dirs H ps (w\<lparr>files := (files w)(p \<mapsto> nd)\<rparr>)))"
    if "files w p = None" for w nd
  proof -
    have "world_extends w (w\<lparr>files := (files w)(p \<mapsto> nd)\<rparr>)"
      using that by (simp add: world_extends_def fs_extends_new)
    from this step show ?thesis by (rule growth.rel_trans)
  qed
  show ?case
    unfolding make_dirs.simps
    by (rule growth_fs_op)
       (auto simp: fail_def growth.rel_refl step intro!: mk split: option.split node.split)
qed

lemma growth_fs_create_dir_all [growth_intros]: "keeps world_extends (fs_create_dir_all H p)"
  by (simp add: fs_create_dir_all_def growth_make_dirs)

section \<open>Existing directories\<close>

definition dirs_ok :: "files \<Rightarrow> path list \<Rightarrow> bool" where
  "dirs_ok fs ps \<longleftrightarrow>
     (\<forall>p \<in> set ps. \<exists>q m. follow max_symlinks fs p = Some q \<and> fs q = Some (Dir m))"

lemma dirs_ok_extends: "dirs_ok fs ps \<Longrightarrow> fs_extends fs fs' \<Longrightarrow> dirs_ok fs' ps"
proof -
  assume d: "dirs_ok fs ps" and e: "fs_extends fs fs'"
  show "dirs_ok fs' ps"
    unfolding dirs_ok_def
  proof
    fix p
    assume "p \<in> set ps"
    with d obtain q m where q: "follow max_symlinks fs p = Some q" "fs q = Some (Dir m)"
      unfolding dirs_ok_def by blast
    from e have "\<forall>nd. fs q = Some nd \<longrightarrow> (\<exists>nd'. fs' q = Some nd' \<and> same_node nd nd')"
      unfolding fs_extends_def by (rule spec)
    with q(2) have "\<exists>nd. fs' q = Some nd \<and> same_node (Dir m) nd" by blast
    then obtain m' where "fs' q = Some (Dir m')" by (auto simp only: same_node_Dir)
    moreover have "fs q \<noteq> None" using q(2) by simp
    with q(1) have "follow max_symlinks fs' p = Some q" using e by (rule follow_extends)
    ultimately show "\<exists>q m. follow max_symlinks fs' p = Some q \<and> fs' q = Some (Dir m)"
      by blast
  qed
qed

lemma make_dirs_existing:
  assumes "dirs_ok (files w) ps" and "\<forall>n \<ge> io_ops w. h_fault H n = None"
  shows "make_dirs H ps w = (Inr (), w\<lparr>io_ops := io_ops w + length ps\<rparr>)"
  using assms
proof (induction ps arbitrary: w)
  case (Cons p ps)
  from Cons.prems obtain q m where
    q: "follow max_symlinks (files w) p = Some q" "files w q = Some (Dir m)"
    by (auto simp: dirs_ok_def)
  let ?w = "w\<lparr>io_ops := Suc (io_ops w)\<rparr>"
  have "make_dirs H ps ?w = (Inr (), ?w\<lparr>io_ops := io_ops ?w + length ps\<rparr>)"
    using Cons.prems by (intro Cons.IH) (auto simp: dirs_ok_def)
  moreover have "make_dirs H (p # ps) w = make_dirs H ps ?w"
    using q Cons.prems by (simp add: bind_io_step_ok)
  ultimately show ?case by simp
qed simp

section \<open>A concrete host\<close>

text \<open>
  One host and one start state, on which the concrete instances of the theorems are evaluated: a
  Unix machine with a home directory, no I/O faults, a constant random source and clock, and
  third-party code that refuses everything.
\<close>

definition demo_host :: host where
  "demo_host =
     \<lparr>h_unix = True, h_os = ''linux'', h_arch = ''x86_64'',
      h_env = [''HOME'' \<mapsto> ''/h''], h_file_mode = 420, h_dir_mode = 493,
      h_fault = (\<lambda>_. None), h_random = (\<lambda>_. CHR 0x5A), h_clock_ms = (\<lambda>_. 0),
      h_run = (\<lambda>_. Inl err_not_found), h_spawn = (\<lambda>_. Inl err_not_found), h_files = (\<lambda>_ fs. fs),
      h_text = (\<lambda>_. Inl []), h_unit = (\<lambda>_. Inl []), h_json = (\<lambda>_. Inl []),
      h_permissions = (\<lambda>_. Null), h_capture = (\<lambda>_. Inl []), h_image_mode = (\<lambda>_. Inl []),
      h_image_mode_json = (\<lambda>_. Null), h_capabilities = (\<lambda>_. Inl (Lib_Protocol [])), h_observe = (\<lambda>_. Inl (Lib_Protocol [])),
      h_engine = (\<lambda>_. Inl (Lib_Protocol [])), h_obs_validate = (\<lambda>_ _. Inr ()), h_obs_target = (\<lambda>_ _. Inl (Lib_Semantic [])),
      h_obs_json = (\<lambda>_. Inl []), h_report_json = (\<lambda>_. Inr Null), h_action_hash = (\<lambda>_. Inr []),
      h_authority_bytes = (\<lambda>_. Inr []), h_sign = (\<lambda>_ _. []), h_verifier = (\<lambda>_ _. Inl (Lib_Protocol [])),
      h_protocol_version = 1, h_sha256 = (\<lambda>_. replicate 32 CHR 0x00),
      h_json_string = (\<lambda>_. Inr []), h_json_pretty = (\<lambda>_. Inr []), h_json_display = (\<lambda>_. []),
      h_json_parse = (\<lambda>_. Inl [])\<rparr>"

definition demo_world :: world where
  "demo_world =
     \<lparr>files = (\<lambda>_. None), io_ops = 0, rng_pos = 0, ticks = 0, stderr_lines = [], trace = [],
      observations = [], host_authority = None\<rparr>"

end
