(* ===== verification/Core_Config.thy ===== *)
theory Core_Config
  imports Host
begin

text \<open>
  The crate \<open>folk-core\<close> (\<open>src/crates/folk-core/src/lib.rs\<close>), first part: the terminal clock, the
  access modes, and the configuration file \<open>~/.config/folk-around/config\<close> with its parser, printer,
  load and save.
\<close>

section \<open>Logging\<close>

definition pad2 :: "nat \<Rightarrow> string" where
  "pad2 n = (if n < 10 then CHR ''0'' # show_nat n else show_nat n)"

text \<open>\<open>terminal_time\<close> on a clock reading in milliseconds since the epoch (negative before it).\<close>

definition terminal_time :: "int \<Rightarrow> string" where
  "terminal_time now =
     (let seconds = (if now < 0 then 0 else nat (now div 1000) mod 86400);
          hour = seconds div 3600;
          minute = (seconds mod 3600) div 60;
          second = seconds mod 60
      in pad2 hour @ '':'' @ pad2 minute @ '':'' @ pad2 second)"

definition put_stderr :: "string \<Rightarrow> (world, 'e, unit) act" where
  "put_stderr l w = (Inr (), w\<lparr>stderr_lines := stderr_lines w @ [l]\<rparr>)"

definition log_status :: "host \<Rightarrow> string \<Rightarrow> (world, 'e, unit) act" where
  "log_status H message =
     act_bind (read_clock H) (\<lambda>now.
     put_stderr (''['' @ terminal_time now @ ''] '' @ message))"

section \<open>Access modes\<close>

datatype access_mode = Full | Limited | Sandbox

definition access_mode_parse :: "string \<Rightarrow> access_mode option" where
  "access_mode_parse value =
     (if value = ''full'' then Some Full
      else if value = ''limited'' then Some Limited
      else if value = ''sandbox'' then Some Sandbox
      else None)"

fun access_mode_as_str :: "access_mode \<Rightarrow> string" where
  "access_mode_as_str Full = ''full''"
| "access_mode_as_str Limited = ''limited''"
| "access_mode_as_str Sandbox = ''sandbox''"

section \<open>The configuration\<close>

record app_config =
  signal_url :: "string option"
  room :: "string option"
  http_port :: "nat option"
  config_mode :: "string option"

definition default_config :: app_config where
  "default_config = \<lparr>signal_url = None, room = None, http_port = None, config_mode = None\<rparr>"

datatype config_error =
    Home_Missing
  | Config_Io io_error
  | Invalid_Http_Bearer
  | Private_Permissions_Unavailable

text \<open>One turn of the loop of \<open>load_config\<close> over the file's lines.\<close>

definition config_line :: "app_config \<Rightarrow> string \<Rightarrow> app_config" where
  "config_line config raw_line =
     (let line = trim raw_line in
      if line = [] then config
      else (case split_once CHR ''='' line of
        None \<Rightarrow> config
      | Some (key, raw_value) \<Rightarrow>
          (let value = trim raw_value; k = trim key in
           if value = [] then config
           else if k = ''signal_url'' then config\<lparr>signal_url := Some value\<rparr>
           else if k = ''room'' then config\<lparr>room := Some value\<rparr>
           else if k = ''http_port'' then config\<lparr>http_port := parse_unsigned u16_max value\<rparr>
           else if k = ''mode'' then config\<lparr>config_mode := Some value\<rparr>
           else config)))"

definition parse_config :: "string \<Rightarrow> app_config" where
  "parse_config contents = foldl config_line default_config (str_lines contents)"

definition config_entry :: "string \<Rightarrow> string option \<Rightarrow> string" where
  "config_entry key value =
     (case value of None \<Rightarrow> [] | Some v \<Rightarrow> key @ ''='' @ v @ [CHR 0x0A])"

definition render_config :: "app_config \<Rightarrow> string" where
  "render_config config =
     config_entry ''signal_url'' (signal_url config) @
     config_entry ''room'' (room config) @
     config_entry ''http_port'' (map_option show_nat (http_port config)) @
     config_entry ''mode'' (config_mode config)"

definition config_dir :: "host \<Rightarrow> config_error + path" where
  "config_dir H =
     res_bind (ok_or Home_Missing (h_env H ''HOME'')) (\<lambda>home.
     Inr (path_join (path_join (path_from home) ''.config'') ''folk-around''))"

definition config_path :: "host \<Rightarrow> config_error + path" where
  "config_path H = res_bind (config_dir H) (\<lambda>d. Inr (path_join d ''config''))"

definition ensure_private_dir :: "host \<Rightarrow> path \<Rightarrow> (world, io_error, unit) act" where
  "ensure_private_dir H p =
     act_bind (fs_create_dir_all H p) (\<lambda>_.
     if h_unix H then fs_set_permissions H p 448 else ret ())"

definition restrict_file_permissions :: "host \<Rightarrow> path \<Rightarrow> (world, io_error, unit) act" where
  "restrict_file_permissions H p =
     (if h_unix H then fs_set_permissions H p 384 else ret ())"

definition load_config :: "host \<Rightarrow> (world, config_error, app_config) act" where
  "load_config H =
     act_bind (lift_res (config_path H)) (\<lambda>p.
     act_match (fs_read_to_string H p)
       (\<lambda>contents. ret (parse_config contents))
       (\<lambda>err. if io_kind err = Not_Found then ret default_config else fail (Config_Io err)))"

definition save_config :: "host \<Rightarrow> app_config \<Rightarrow> (world, config_error, unit) act" where
  "save_config H config =
     act_bind (lift_res (config_dir H)) (\<lambda>dir.
     act_map_err Config_Io (
       act_bind (ensure_private_dir H dir) (\<lambda>_.
       let path = path_join dir ''config'' in
       act_bind (fs_write H path (render_config config)) (\<lambda>_.
       restrict_file_permissions H path))))"

section \<open>The configuration text reads back\<close>

text \<open>
  A value survives the file when it is non-empty, carries no surrounding white space and no line
  feed: exactly what the line-oriented parser keeps.
\<close>

definition value_ok :: "string \<Rightarrow> bool" where
  "value_ok v \<longleftrightarrow> v \<noteq> [] \<and> trim v = v \<and> CHR 0x0A \<notin> set v"

definition config_ok :: "app_config \<Rightarrow> bool" where
  "config_ok c \<longleftrightarrow>
     pred_option value_ok (signal_url c) \<and> pred_option value_ok (room c) \<and>
     pred_option (\<lambda>n. n \<le> u16_max) (http_port c) \<and> pred_option value_ok (config_mode c)"

definition config_utf8 :: "app_config \<Rightarrow> bool" where
  "config_utf8 c \<longleftrightarrow>
     pred_option utf8_valid (signal_url c) \<and> pred_option utf8_valid (room c) \<and>
     pred_option utf8_valid (config_mode c)"

lemma ws_len_rev_before_eq_sign:
  "ws_len_rev r = 0 \<Longrightarrow> r \<noteq> [] \<Longrightarrow> ws_len_rev (r @ CHR ''='' # t) = 0"
  by (cases r rule: ws_len_rev.cases; cases t)
     (auto simp: ws2_def ws3_def byte_class_defs split: if_splits)

lemma value_ok_last: "value_ok v \<Longrightarrow> last v \<noteq> CHR 0x0D"
proof
  assume v: "value_ok v" "last v = CHR 0x0D"
  then have "rev v = CHR 0x0D # rev (butlast v)"
    by (metis append_butlast_last_id rev.simps(2) rev_rev_ident value_ok_def)
  moreover have "ws_len_rev (rev v) = 0" using v by (simp add: value_ok_def trim_eq_iff)
  ultimately show False
    by (cases "rev (butlast v)" rule: ws_len_rev.cases)
       (auto simp: ascii_ws_def byte_class_defs split: if_splits)
qed

lemma value_ok_digits:
  assumes "list_all is_ascii_digit ds" and "ds \<noteq> []"
  shows "value_ok ds"
proof -
  have digit: "\<not> ascii_ws c" "byte_val c < 194" "c \<noteq> CHR 0x0A" if "is_ascii_digit c" for c
    using that by (auto simp: ascii_ws_def byte_class_defs)
  have all: "\<forall>c \<in> set ds. \<not> ascii_ws c \<and> byte_val c < 194 \<and> c \<noteq> CHR 0x0A"
    using assms digit by (auto simp: list_all_iff)
  then have "ws_len ds = 0"
    by (cases ds rule: ws_len.cases) (auto simp: ws2_def ws3_def)
  moreover have "\<forall>c \<in> set (rev ds). \<not> ascii_ws c \<and> byte_val c < 194" using all by simp
  then have "ws_len_rev (rev ds) = 0"
    by (cases "rev ds" rule: ws_len_rev.cases) (auto simp: ws2_def ws3_def)
  ultimately show ?thesis using assms all by (auto simp: value_ok_def trim_id)
qed

lemma str_lines_entry:
  assumes "value_ok v" and "CHR 0x0A \<notin> set k"
  shows "str_lines (k @ CHR ''='' # v @ CHR 0x0A # s) = (k @ CHR ''='' # v) # str_lines s"
proof -
  have "str_lines ((k @ CHR ''='' # v) @ CHR 0x0A # s) = (k @ CHR ''='' # v) # str_lines s"
    using assms value_ok_last [of v] by (intro str_lines_line) (auto simp: value_ok_def)
  then show ?thesis by simp
qed

lemma trim_entry:
  assumes "value_ok v" and "ws_len (k @ CHR ''='' # v) = 0"
  shows "trim (k @ CHR ''='' # v) = k @ CHR ''='' # v"
  using assms ws_len_rev_before_eq_sign [of "rev v" "rev k"]
  by (intro trim_id) (auto simp: value_ok_def trim_eq_iff)

lemma config_line_entry:
  assumes v: "value_ok v" and k: "CHR ''='' \<notin> set k" "trim k = k"
    and s: "ws_len (k @ CHR ''='' # v) = 0"
  shows "config_line c (k @ CHR ''='' # v) =
     (if k = ''signal_url'' then c\<lparr>signal_url := Some v\<rparr>
      else if k = ''room'' then c\<lparr>room := Some v\<rparr>
      else if k = ''http_port'' then c\<lparr>http_port := parse_unsigned u16_max v\<rparr>
      else if k = ''mode'' then c\<lparr>config_mode := Some v\<rparr> else c)"
  using v k by (simp add: config_line_def trim_entry [OF v s] split_once_append value_ok_def)

lemma key_facts [simp]:
  "trim ''signal_url'' = ''signal_url''" "trim ''room'' = ''room''"
  "trim ''http_port'' = ''http_port''" "trim ''mode'' = ''mode''"
  by (simp_all add: trim_id ascii_ws_def ws2_def ws3_def byte_class_defs)

lemma parse_entry_step:
  assumes "value_ok v"
  shows "foldl config_line c (str_lines (''signal_url='' @ v @ CHR 0x0A # s)) =
           foldl config_line (c\<lparr>signal_url := Some v\<rparr>) (str_lines s)"
    "foldl config_line c (str_lines (''room='' @ v @ CHR 0x0A # s)) =
           foldl config_line (c\<lparr>room := Some v\<rparr>) (str_lines s)"
    "foldl config_line c (str_lines (''http_port='' @ v @ CHR 0x0A # s)) =
           foldl config_line (c\<lparr>http_port := parse_unsigned u16_max v\<rparr>) (str_lines s)"
    "foldl config_line c (str_lines (''mode='' @ v @ CHR 0x0A # s)) =
           foldl config_line (c\<lparr>config_mode := Some v\<rparr>) (str_lines s)"
  using assms str_lines_entry [of v "''signal_url''" s] str_lines_entry [of v "''room''" s]
    str_lines_entry [of v "''http_port''" s] str_lines_entry [of v "''mode''" s]
    config_line_entry [of v "''signal_url''" c] config_line_entry [of v "''room''" c]
    config_line_entry [of v "''http_port''" c] config_line_entry [of v "''mode''" c]
  by (simp_all add: ascii_ws_def ws2_def ws3_def byte_class_defs)

lemma parse_config_entry:
  "pred_option value_ok v \<Longrightarrow>
     foldl config_line c (str_lines (config_entry ''signal_url'' v @ s)) =
     foldl config_line (case v of None \<Rightarrow> c | Some x \<Rightarrow> c\<lparr>signal_url := Some x\<rparr>) (str_lines s)"
  "pred_option value_ok v \<Longrightarrow>
     foldl config_line c (str_lines (config_entry ''room'' v @ s)) =
     foldl config_line (case v of None \<Rightarrow> c | Some x \<Rightarrow> c\<lparr>room := Some x\<rparr>) (str_lines s)"
  "pred_option (\<lambda>n. n \<le> u16_max) n \<Longrightarrow>
     foldl config_line c (str_lines (config_entry ''http_port'' (map_option show_nat n) @ s)) =
     foldl config_line (case n of None \<Rightarrow> c | Some x \<Rightarrow> c\<lparr>http_port := Some x\<rparr>) (str_lines s)"
  "pred_option value_ok v \<Longrightarrow>
     foldl config_line c (str_lines (config_entry ''mode'' v)) =
     (case v of None \<Rightarrow> c | Some x \<Rightarrow> c\<lparr>config_mode := Some x\<rparr>)"
  using parse_entry_step [of _ _ s] parse_entry_step(4) [of _ c "[]"]
  by (auto simp: config_entry_def parse_show_nat value_ok_digits show_nat_digits
      split: option.split)

lemma parse_render_config:
  assumes "config_ok c"
  shows "parse_config (render_config c) = c"
  using assms
  by (cases c)
     (auto simp: parse_config_def render_config_def default_config_def config_ok_def
       parse_config_entry split: option.split)

text \<open>
  The configuration file round-trips: reading what \<open>save_config\<close> writes gives the same
  configuration, whenever every saved value is non-empty, trimmed and without a line feed and the
  port fits \<open>u16\<close>.
\<close>

theorem config_roundtrip:
  assumes "config_ok c"
  shows "parse_config (render_config c) = c"
  using assms by (rule parse_render_config)

definition demo_config :: app_config where
  "demo_config = \<lparr>signal_url = Some ''wss://s.example/a b'', room = None, http_port = Some 8080,
     config_mode = Some ''limited''\<rparr>"

lemma demo_config_ok: "config_ok demo_config" "config_utf8 demo_config"
proof -
  have "value_ok ''wss://s.example/a b''" "value_ok ''limited''"
    "utf8_valid ''wss://s.example/a b''" "utf8_valid ''limited''"
    by code_simp+
  then show "config_ok demo_config" "config_utf8 demo_config"
    by (simp_all add: config_ok_def config_utf8_def demo_config_def u16_max_def)
qed

theorem config_roundtrip_witness:
  "parse_config (render_config demo_config) = demo_config"
  using config_roundtrip demo_config_ok(1) .

section \<open>Private directories\<close>

lemma growth_restrict [growth_intros]: "keeps world_extends (restrict_file_permissions H p)"
  by (simp add: restrict_file_permissions_def growth_intros growth.keeps_ret)

lemma growth_ensure_dir [growth_intros]: "keeps world_extends (ensure_private_dir H p)"
  unfolding ensure_private_dir_def
  by (auto intro!: growth.keeps_bind growth_intros growth.keeps_ret)

lemma make_dirs_okD:
  "make_dirs H ps w = (Inr x, w') \<Longrightarrow> dirs_ok (files w') ps"
proof (induction ps arbitrary: w)
  case (Cons p ps)
  have ext: "fs_extends (files u) (files w')" if "make_dirs H ps u = (Inr x, w')" for u
    using keepsD [OF growth_make_dirs that] by (simp add: world_extends_def)
  let ?dir = "\<lambda>fs. \<exists>q m. follow max_symlinks fs p = Some q \<and> fs q = Some (Dir m)"
  let ?w = "w\<lparr>io_ops := Suc (io_ops w)\<rparr>"
  have "h_fault H (io_ops w) = None"
    using Cons.prems by (auto simp: act_bind_eq_Inr io_step_Inr simp del: io_step_eq)
  note step = bind_io_step_ok [OF this]
  have "\<exists>u. make_dirs H ps u = (Inr x, w') \<and> ?dir (files u)"
  proof (cases "follow max_symlinks (files w) p")
    case (Some q)
    show ?thesis
    proof (cases "files w q")
      case None
      with Some Cons.prems have "q = p \<and>
          make_dirs H ps (?w\<lparr>files := (files w)(p \<mapsto> Dir (h_dir_mode H))\<rparr>) = (Inr x, w')"
        by (simp add: step split: if_splits)
      then show ?thesis by (intro exI conjI) auto
    next
      case (Some nd)
      with \<open>follow max_symlinks (files w) p = Some q\<close> Cons.prems show ?thesis
        by (cases nd) (auto simp: step intro!: exI [of _ ?w])
    qed
  qed (use Cons.prems in \<open>simp add: step\<close>)
  then obtain u where u: "make_dirs H ps u = (Inr x, w')" "?dir (files u)" by blast
  then have "dirs_ok (files u) [p]" by (simp add: dirs_ok_def)
  then have "dirs_ok (files w') [p]" using ext [OF u(1)] by (rule dirs_ok_extends)
  with Cons.IH [OF u(1)] show ?case by (simp add: dirs_ok_def)
qed (simp add: dirs_ok_def)

lemma path_ancestors_self: "path_comps p \<noteq> [] \<Longrightarrow> p \<in> set (path_ancestors p)"
  by (cases p) (auto simp: path_ancestors_def image_iff Suc_le_eq
      intro!: bexI [of _ "length (path_comps p)"])

lemma ensure_private_dir_okD:
  assumes "ensure_private_dir H d w = (Inr x, w')"
  shows "dirs_ok (files w') (path_ancestors d)"
proof -
  obtain u where u: "make_dirs H (path_ancestors d) w = (Inr (), u)"
    and r: "(if h_unix H then fs_set_permissions H d 448 else ret ()) u = (Inr x, w')"
    using assms by (auto simp: ensure_private_dir_def fs_create_dir_all_def act_bind_eq_Inr)
  have "keeps world_extends (if h_unix H then fs_set_permissions H d 448 else ret ())"
    by (simp add: growth_intros growth.keeps_ret)
  from keepsD [OF this r] have "fs_extends (files u) (files w')" by (simp add: world_extends_def)
  with make_dirs_okD [OF u] show ?thesis by (rule dirs_ok_extends)
qed

lemma ensure_private_dir_existing:
  assumes d: "dirs_ok (files w) (path_ancestors d)" and nf: "\<forall>n \<ge> io_ops w. h_fault H n = None"
    and c: "path_comps d \<noteq> []"
  shows "\<exists>w'. ensure_private_dir H d w = (Inr (), w') \<and> world_extends w w' \<and>
    io_ops w \<le> io_ops w' \<and> (\<forall>p. files w p = None \<longrightarrow> files w' p = None)"
proof -
  let ?u = "w\<lparr>io_ops := io_ops w + length (path_ancestors d)\<rparr>"
  have mk: "fs_create_dir_all H d w = (Inr (), ?u)"
    using make_dirs_existing [OF d nf] by (simp add: fs_create_dir_all_def)
  from d path_ancestors_self [OF c] obtain q m where
    q: "follow max_symlinks (files w) d = Some q" "files w q = Some (Dir m)"
    unfolding dirs_ok_def by blast
  have "\<exists>w'. (if h_unix H then fs_set_permissions H d 448 else ret ()) ?u = (Inr (), w') \<and>
      io_ops ?u \<le> io_ops w' \<and> (\<forall>p. files w p = None \<longrightarrow> files w' p = None)"
    using q nf by (auto simp: fs_set_permissions_def bind_io_step_ok)
  then obtain w' where w': "(if h_unix H then fs_set_permissions H d 448 else ret ()) ?u = (Inr (), w')"
    "io_ops ?u \<le> io_ops w'" "\<forall>p. files w p = None \<longrightarrow> files w' p = None" by blast
  with mk have e: "ensure_private_dir H d w = (Inr (), w')"
    by (simp add: ensure_private_dir_def act_bind_Inr)
  have "keeps world_extends (ensure_private_dir H d)" by (rule growth_ensure_dir)
  from keepsD [OF this e] e w'(2,3) show ?thesis by auto
qed

lemma config_dir_comps: "config_dir H = Inr d \<Longrightarrow> path_comps d \<noteq> []"
  by (auto simp: config_dir_def res_bind_eq_Inr path_join_def Let_def path_from_def starts_with_iff)

definition is_file_name :: "string \<Rightarrow> bool" where
  "is_file_name s \<longleftrightarrow> s \<noteq> [] \<and> s \<noteq> ''.'' \<and> CHR ''/'' \<notin> set s"

lemma split_char_absent: "c \<notin> set s \<Longrightarrow> split_char c s = [s]"
  by (induction s) auto

lemma path_join_file_name: "is_file_name s \<Longrightarrow> path_join p s = Path (path_abs p) (path_comps p @ [s])"
  by (cases s) (auto simp: is_file_name_def path_join_def path_from_def split_char_absent
      starts_with_iff Let_def)

lemma path_parent_join: "is_file_name s \<Longrightarrow> path_parent (path_join p s) = p"
  by (simp add: path_join_file_name path_parent_def)

definition home_world :: world where
  "home_world = demo_world\<lparr>files :=
     map_of (map (\<lambda>p. (p, Dir 493)) (path_ancestors
       (Path True [''h'', ''.config'', ''folk-around'', ''artifacts''])))\<rparr>"

section \<open>Saving and loading through the file system\<close>

lemma show_nat_utf8: "utf8_valid (show_nat n)"
proof (rule utf8_valid_ascii)
  have "is_ascii_digit c \<Longrightarrow> byte_val c < 128" for c by (simp add: byte_class_defs)
  then show "is_ascii (show_nat n)"
    using show_nat_digits [of n] by (auto simp: is_ascii_def list_all_iff)
qed

lemma config_entry_utf8:
  assumes "is_ascii k" and "pred_option utf8_valid v"
  shows "utf8_valid (config_entry k v)"
proof -
  have kv: "utf8_valid (k @ ''='')" and nl: "utf8_valid [CHR 0x0A]"
    using assms by (auto intro!: utf8_valid_ascii simp: byte_val_def)
  have "utf8_valid ((k @ ''='') @ x @ [CHR 0x0A])" if "utf8_valid x" for x
    using kv utf8_valid_append [OF that nl] by (rule utf8_valid_append)
  with assms show ?thesis by (auto simp: config_entry_def split: option.split)
qed

lemma render_config_utf8: "config_utf8 c \<Longrightarrow> utf8_valid (render_config c)"
  unfolding render_config_def config_utf8_def
  by (intro utf8_valid_append config_entry_utf8)
     (auto simp: byte_val_def show_nat_utf8 pred_option_def)

lemma save_config_file:
  assumes "save_config H c w = (Inr (), w')" and "config_path H = Inr p" and "h_unix H"
  obtains q where "follow max_symlinks (files w') p = Some q"
    "files w' q = Some (Regular 384 (render_config c))"
proof -
  from assms obtain d w1 w2 where p: "p = path_join d ''config''"
    and wr: "fs_write H p (render_config c) w1 = (Inr (), w2)"
    and pe: "fs_set_permissions H p 384 w2 = (Inr (), w')"
    by (auto simp: save_config_def config_path_def act_bind_eq_Inr act_map_err_eq_Inr Let_def
        res_bind_eq_Inr restrict_file_permissions_def)
  from wr obtain q m where q: "follow max_symlinks (files w1) p = Some q"
    and f2: "files w2 = (files w1)(q \<mapsto> Regular m (render_config c))"
    by (rule fs_write_okD)
  have q2: "follow max_symlinks (files w2) p = Some q"
    unfolding f2 by (rule follow_update [OF q]) simp
  have f': "files w' = (files w2)(q \<mapsto> Regular 384 (render_config c))"
    using fs_set_permissions_regular [OF pe q2] f2 by simp
  have "follow max_symlinks (files w') p = Some q"
    unfolding f' by (rule follow_update [OF q2]) simp
  with f' show ?thesis by (intro that [of q]) simp_all
qed

text \<open>
  C22. On Unix a configuration that was saved without an error is what the next \<open>load_config\<close> returns,
  unless that load meets an I/O fault, and the file carries owner-only permissions (0600), provided that
  every text value is one the unquoted format can carry (\<open>config_ok\<close>: not empty, no line feed, no surrounding
  white space, a 16-bit port) and, as every Rust string is, valid UTF-8 (\<open>config_utf8\<close>). What happens to other
  values is \<open>room_with_line_feed_sets_the_mode\<close> in the root theory.
\<close>

theorem save_then_load:
  assumes save: "save_config H c w = (Inr (), w')"
    and c: "config_ok c" "config_utf8 c" and unix: "h_unix H"
    and no_fault: "h_fault H (io_ops w') = None"
  shows "\<exists>w'' p q. load_config H w' = (Inr c, w'') \<and> files w'' = files w' \<and>
    config_path H = Inr p \<and> follow max_symlinks (files w') p = Some q \<and>
    files w' q = Some (Regular 384 (render_config c))"
proof -
  from save obtain p where p: "config_path H = Inr p"
    by (cases "config_dir H") (auto simp: save_config_def config_path_def)
  from save_config_file [OF save p unix] obtain q where
    q: "follow max_symlinks (files w') p = Some q" "files w' q = Some (Regular 384 (render_config c))" .
  let ?w = "w'\<lparr>io_ops := Suc (io_ops w')\<rparr>"
  have "fs_read_to_string H p w' = (Inr (render_config c), ?w)"
    using fs_read_regular [OF q no_fault] render_config_utf8 [OF c(2)]
    by (simp add: fs_read_to_string_def act_bind_eq_Inr from_utf8_def)
  then have "load_config H w' = (Inr c, ?w)"
    using p c(1) by (simp add: load_config_def act_match_Inr parse_render_config)
  with p q show ?thesis by (intro exI [of _ ?w] exI [of _ p] exI [of _ q]) simp
qed

lemma save_config_existing:
  assumes d: "config_dir H = Inr d" and nf: "\<forall>n \<ge> io_ops w. h_fault H n = None"
    and k: "dirs_ok (files w) (path_ancestors d)" and free: "files w (path_join d ''config'') = None"
  shows "\<exists>w'. save_config H c w = (Inr (), w') \<and> world_extends w w'"
proof -
  let ?p = "path_join d ''config''"
  obtain w1 where w1: "ensure_private_dir H d w = (Inr (), w1)" "world_extends w w1"
    "io_ops w \<le> io_ops w1" "files w1 ?p = None"
    using ensure_private_dir_existing [OF k nf config_dir_comps [OF d]] free by blast
  have "dirs_ok (files w1) (path_ancestors d)"
    using k w1(2) unfolding world_extends_def by (rule dirs_ok_extends)
  then have par: "check_parent (files w1) ?p = Inr ()"
    using path_ancestors_self [OF config_dir_comps [OF d]]
    by (auto simp: check_parent_def path_parent_join is_file_name_def dirs_ok_def)
  let ?w2 = "w1\<lparr>io_ops := Suc (io_ops w1),
      files := (files w1)(?p \<mapsto> Regular (h_file_mode H) (render_config c))\<rparr>"
  have "fs_write H ?p (render_config c) w1 = (Inr (), ?w2)"
    using par w1(3,4) nf by (simp add: fs_write_def bind_io_step_ok)
  moreover have "\<exists>w'. restrict_file_permissions H ?p ?w2 = (Inr (), w')"
    using w1(3) nf
    by (auto simp: restrict_file_permissions_def fs_set_permissions_def bind_io_step_ok)
  then obtain w' where r: "restrict_file_permissions H ?p ?w2 = (Inr (), w')" by blast
  moreover have "world_extends w1 ?w2"
    using w1(4) by (simp add: world_extends_def fs_extends_new)
  with w1(2) keepsD [OF growth_restrict r] have "world_extends w w'"
    by (blast intro: growth.rel_trans)
  ultimately show ?thesis
    using d w1(1) r by (auto simp: save_config_def act_bind_Inr act_map_err_def Let_def)
qed

theorem save_then_load_witness:
  "fst (load_config demo_host (snd (save_config demo_host demo_config home_world))) =
     Inr demo_config"
proof -
  let ?d = "Path True [''h'', ''.config'', ''folk-around'']"
  have d: "config_dir demo_host = Inr ?d" by code_simp
  have "dirs_ok (files home_world) (path_ancestors ?d)"
    by (simp add: dirs_ok_def home_world_def path_ancestors_def upt_rec)
  moreover have "files home_world (path_join ?d ''config'') = None" by code_simp
  moreover have nf: "\<forall>n \<ge> i. h_fault demo_host n = None" for i by (simp add: demo_host_def)
  ultimately obtain w' where
    s: "save_config demo_host demo_config home_world = (Inr (), w')"
    using save_config_existing [OF d] by blast
  from save_then_load [OF s demo_config_ok] have "fst (load_config demo_host w') = Inr demo_config"
    using nf by (auto simp: demo_host_def)
  with s show ?thesis by simp
qed

end
