(* ===== verification/Core_Files.thy ===== *)
theory Core_Files
  imports Core_Config
begin

text \<open>
  The crate \<open>folk-core\<close>, second part: random hexadecimal identifiers, the HTTP bearer credential
  \<open>~/.config/folk-around/http-token\<close>, the screenshot artifact files and the pairing code.
\<close>

section \<open>Random identifiers\<close>

definition http_bearer_bytes :: nat where
  "http_bearer_bytes = 32"

definition http_bearer_hex_len :: nat where
  "http_bearer_hex_len = http_bearer_bytes * 2"

definition artifact_id_bytes :: nat where
  "artifact_id_bytes = 16"

definition generate_hex :: "host \<Rightarrow> nat \<Rightarrow> (world, 'e, string) act" where
  "generate_hex H n = act_bind (fill_bytes H n) (\<lambda>bs. ret (hex_bytes bs))"

definition generate_http_bearer :: "host \<Rightarrow> (world, 'e, string) act" where
  "generate_http_bearer H = generate_hex H http_bearer_bytes"

definition valid_http_bearer :: "string \<Rightarrow> bool" where
  "valid_http_bearer token \<longleftrightarrow> length token = http_bearer_hex_len \<and> list_all is_lower_hex token"

text \<open>\<open>format!("{:016x}", random::<u64>())\<close>: a random 64-bit value in sixteen digits.\<close>

definition generate_pairing_code :: "host \<Rightarrow> (world, 'e, string) act" where
  "generate_pairing_code H = act_bind (fill_bytes H 8) (\<lambda>bs. ret (hex_digits 16 (be_val bs)))"

section \<open>Private files\<close>

definition open_new_private_file :: "host \<Rightarrow> path \<Rightarrow> (world, io_error, unit) act" where
  "open_new_private_file H p = fs_create_new H p (if h_unix H then 384 else h_file_mode H)"

definition sync_all :: "host \<Rightarrow> (world, io_error, unit) act" where
  "sync_all H = io_step H"

definition sync_dir :: "host \<Rightarrow> path \<Rightarrow> (world, io_error, unit) act" where
  "sync_dir H p = (if h_unix H then act_bind (io_step H) (\<lambda>_. io_step H) else ret ())"

section \<open>The HTTP bearer credential\<close>

text \<open>The branch of \<open>load_or_create_http_bearer\<close> in which the file was just created.\<close>

definition create_http_bearer :: "host \<Rightarrow> path \<Rightarrow> path \<Rightarrow> (world, config_error, string) act" where
  "create_http_bearer H dir p =
     act_bind (generate_http_bearer H) (\<lambda>token.
     act_map_err Config_Io (
       act_bind (fs_write_all H p token) (\<lambda>_.
       act_bind (sync_all H) (\<lambda>_.
       act_bind (sync_dir H dir) (\<lambda>_.
       ret token)))))"

text \<open>The branch in which it exists already.\<close>

definition load_http_bearer :: "host \<Rightarrow> path \<Rightarrow> (world, config_error, string) act" where
  "load_http_bearer H p =
     act_bind (act_map_err Config_Io (fs_symlink_metadata H p)) (\<lambda>metadata.
     case metadata of
       Regular m bs \<Rightarrow>
         if length bs \<noteq> http_bearer_hex_len then fail Invalid_Http_Bearer
         else
           act_bind (act_map_err Config_Io (restrict_file_permissions H p)) (\<lambda>_.
           act_bind (act_map_err Config_Io (fs_read H p)) (\<lambda>all.
           act_bind (lift_res (map_err Config_Io
             (ok_or err_utf8 (from_utf8 (take (http_bearer_hex_len + 1) all))))) (\<lambda>token.
           if valid_http_bearer token then ret token else fail Invalid_Http_Bearer)))
     | _ \<Rightarrow> fail Invalid_Http_Bearer)"

definition load_or_create_http_bearer :: "host \<Rightarrow> (world, config_error, string) act" where
  "load_or_create_http_bearer H =
     (if \<not> h_unix H then fail Private_Permissions_Unavailable
      else
        act_bind (lift_res (config_dir H)) (\<lambda>dir.
        act_bind (act_map_err Config_Io (ensure_private_dir H dir)) (\<lambda>_.
        let p = path_join dir ''http-token'' in
        act_match (open_new_private_file H p)
          (\<lambda>_. create_http_bearer H dir p)
          (\<lambda>err. if io_kind err = Already_Exists then load_http_bearer H p
                  else fail (Config_Io err)))))"

section \<open>Artifact files\<close>

record artifact_file =
  art_path :: path
  art_locator :: string

definition err_artifact_collision :: io_error where
  "err_artifact_collision = Io_Error Already_Exists ''artifact identifier collision''"

text \<open>The loop \<open>for _ in 0..16\<close>, by the attempts left.\<close>

fun artifact_attempts :: "host \<Rightarrow> path \<Rightarrow> nat \<Rightarrow> (world, config_error, artifact_file) act" where
  "artifact_attempts H dir 0 = fail (Config_Io err_artifact_collision)"
| "artifact_attempts H dir (Suc n) =
     act_bind (generate_hex H artifact_id_bytes) (\<lambda>ident.
     let name = ident @ ''.png''; p = path_join dir name in
     act_match (open_new_private_file H p)
       (\<lambda>_. act_map_err Config_Io (
          act_bind (sync_all H) (\<lambda>_.
          act_bind (sync_dir H dir) (\<lambda>_.
          ret \<lparr>art_path = p, art_locator = ''folk-artifact:'' @ name\<rparr>))))
       (\<lambda>err. if io_kind err = Already_Exists then artifact_attempts H dir n
               else fail (Config_Io err)))"

definition create_artifact_file :: "host \<Rightarrow> (world, config_error, artifact_file) act" where
  "create_artifact_file H =
     (if \<not> h_unix H then fail Private_Permissions_Unavailable
      else
        act_bind (lift_res (config_dir H)) (\<lambda>config.
        act_bind (act_map_err Config_Io (ensure_private_dir H config)) (\<lambda>_.
        let dir = path_join config ''artifacts'' in
        act_bind (act_map_err Config_Io (ensure_private_dir H dir)) (\<lambda>_.
        artifact_attempts H dir 16))))"

section \<open>Identifiers have the promised shape\<close>

definition random_id :: "host \<Rightarrow> nat \<Rightarrow> nat \<Rightarrow> string" where
  "random_id H pos n = hex_bytes (map (h_random H) [pos ..< pos + n])"

lemma generate_hex_eq:
  "generate_hex H n w = (Inr (random_id H (rng_pos w) n), w\<lparr>rng_pos := rng_pos w + n\<rparr>)"
  by (simp add: generate_hex_def random_id_def act_simps)

lemma length_random_id [simp]: "length (random_id H pos n) = 2 * n"
  by (simp add: random_id_def)

lemma random_id_lower_hex: "list_all is_lower_hex (random_id H pos n)"
  by (simp add: random_id_def hex_bytes_lower_hex)

lemma random_id_valid_bearer: "valid_http_bearer (random_id H pos http_bearer_bytes)"
  by (simp add: valid_http_bearer_def http_bearer_hex_len_def random_id_lower_hex)

lemma lower_hex_facts:
  "is_lower_hex c \<Longrightarrow> c \<noteq> CHR ''/''" "is_lower_hex c \<Longrightarrow> c \<noteq> CHR ''.''"
  "is_lower_hex c \<Longrightarrow> byte_val c < 128" "is_lower_hex c \<Longrightarrow> c \<noteq> CHR 0x0A"
  by (auto simp: byte_class_defs)

text \<open>
  A pairing code is always sixteen lower-case hexadecimal digits, and two different 64-bit
  random values never give the same code.
\<close>

theorem pairing_code_shape:
  "\<exists>code. generate_pairing_code H w = (Inr code, w\<lparr>rng_pos := rng_pos w + 8\<rparr>) \<and>
     length code = 16 \<and> list_all is_lower_hex code \<and>
     (\<forall>H' w'. fst (generate_pairing_code H' w' :: (string + string) \<times> world) = Inr code \<longleftrightarrow>
        be_val (map (h_random H') [rng_pos w' ..< rng_pos w' + 8]) =
        be_val (map (h_random H) [rng_pos w ..< rng_pos w + 8]))"
proof -
  have bound: "be_val (map f [i ..< i + 8]) < 16 ^ 16" for f i
    using be_val_less [of "map f [i ..< i + 8]"] by simp
  show ?thesis
    using hex_digits_inj [OF _ bound bound]
    by (auto simp: generate_pairing_code_def act_simps hex_digits_lower_hex)
qed

section \<open>Existing files are never altered\<close>

lemma growth_private_file [growth_intros]: "keeps world_extends (open_new_private_file H p)"
  by (simp add: open_new_private_file_def growth_intros)

lemma growth_sync [growth_intros]:
  "keeps world_extends (sync_all H)" "keeps world_extends (sync_dir H p)"
  unfolding sync_all_def sync_dir_def
  by (auto intro!: growth.keeps_bind growth_intros growth.keeps_ret)

lemma growth_generate_hex [growth_intros]: "keeps world_extends (generate_hex H n)"
  by (rule keepsI) (simp add: generate_hex_eq world_extends_def)

lemma growth_load_http_bearer [growth_intros]: "keeps world_extends (load_http_bearer H p)"
  unfolding load_http_bearer_def
  by (intro growth.keeps_bind growth.keeps_map_err growth_intros)
     (auto split: node.split
       intro!: growth.keeps_fail growth.keeps_bind growth.keeps_map_err growth.keeps_lift_res
         growth.keeps_ret growth_intros)

lemma growth_artifact_attempts [growth_intros]: "keeps world_extends (artifact_attempts H dir n)"
proof (induction n)
  case (Suc n)
  then show ?case
    by (auto simp: Let_def intro!: growth.keeps_bind growth.keeps_match growth.keeps_map_err
        growth.keeps_ret growth.keeps_fail growth_intros)
qed (simp add: growth.keeps_fail)

lemma open_new_okD:
  assumes "open_new_private_file H p w = (Inr x, w')" and "h_unix H"
  shows "files w p = None" "files w' = (files w)(p \<mapsto> Regular 384 [])"
    "rng_pos w' = rng_pos w" "check_parent (files w) p = Inr ()"
  using assms
  by (auto simp: open_new_private_file_def fs_create_new_def act_bind_eq_Inr io_step_Inr
      simp del: io_step_eq split: option.splits)

lemma open_new_existsD:
  assumes "open_new_private_file H p w = (Inl err, w')" and "h_fault H (io_ops w) = None"
    and "io_kind err = Already_Exists" and "files w p = None"
  shows False
  using assms
  by (auto simp: open_new_private_file_def fs_create_new_def bind_io_step_ok act_bind_def
      lift_res_def check_parent_def err_loop_def err_not_dir_def err_not_found_def put_node_def
      split: option.splits node.splits prod.splits sum.splits)

lemma io_step_files: "io_step H w = (r, w') \<Longrightarrow> files w' = files w"
  by simp

lemma sync_files:
  "sync_all H w = (r, w') \<Longrightarrow> files w' = files w" "sync_dir H p w = (r, w') \<Longrightarrow> files w' = files w"
  by (auto simp: sync_all_def sync_dir_def act_bind_def split: prod.splits sum.splits if_splits
      dest!: io_step_files simp del: io_step_eq)

lemma fs_write_all_cases:
  assumes "fs_write_all H p bs w = (r, w')" and "files w p = Some (Regular m old)"
  shows "(r = Inr () \<and> files w' = (files w)(p \<mapsto> Regular m bs)) \<or>
    (\<exists>e. r = Inl e \<and> files w' = files w)"
  using assms
  by (cases "h_fault H (io_ops w)")
     (auto simp: fs_write_all_def bind_io_step_ok bind_io_step_fault)

lemma create_http_bearer_cases:
  assumes c: "create_http_bearer H dir p w = (r, w')" and f: "files w p = Some (Regular m [])"
  shows "(\<exists>e. r = Inl e \<and> files w' = files w) \<or>
    (files w' = (files w)(p \<mapsto> Regular m (random_id H (rng_pos w) http_bearer_bytes)) \<and>
     (\<forall>t. r = Inr t \<longrightarrow> t = random_id H (rng_pos w) http_bearer_bytes))"
proof -
  let ?t = "random_id H (rng_pos w) http_bearer_bytes"
  let ?w = "w\<lparr>rng_pos := rng_pos w + http_bearer_bytes\<rparr>"
  obtain v w1 where wr: "fs_write_all H p ?t ?w = (v, w1)"
    by (cases "fs_write_all H p ?t ?w")
  have "(v = Inr () \<and> files w1 = (files w)(p \<mapsto> Regular m ?t)) \<or>
      (\<exists>e. v = Inl e \<and> files w1 = files w)"
    using fs_write_all_cases [OF wr] f by simp
  with c wr show ?thesis
    by (auto simp: create_http_bearer_def generate_http_bearer_def generate_hex_eq act_bind_def
        act_map_err_def ret_def split: prod.splits sum.splits dest!: sync_files)
qed

lemma fs_extends_fresh:
  assumes "fs p = None" and "fs' = fs(p \<mapsto> nd)" and "fs'' = fs' \<or> fs'' = fs'(p \<mapsto> nd')"
  shows "fs_extends fs fs''"
proof -
  have "fs'' = fs(p \<mapsto> nd) \<or> fs'' = fs(p \<mapsto> nd')" using assms(2,3) by simp
  with fs_extends_new [of fs p] assms(1) show ?thesis by blast
qed

lemma create_new_bearer_extends:
  assumes o: "open_new_private_file H p w = (Inr x, w1)" and "h_unix H"
    and c: "create_http_bearer H dir p w1 = (r, w')"
  shows "world_extends w w'"
proof -
  note n = open_new_okD [OF o assms(2)]
  have f1: "files w1 p = Some (Regular 384 [])" by (simp add: n(2))
  have "files w' = files w1 \<or>
      files w' = (files w1)(p \<mapsto> Regular 384 (random_id H (rng_pos w1) http_bearer_bytes))"
    using create_http_bearer_cases [OF c f1] by blast
  then show ?thesis
    unfolding world_extends_def by (rule fs_extends_fresh [where fs' = "files w1", OF n(1) n(2)])
qed

lemma growth_load_or_create [growth_intros]: "keeps world_extends (load_or_create_http_bearer H)"
proof (cases "h_unix H")
  case True
  have "keeps world_extends (act_match (open_new_private_file H p)
      (\<lambda>_. create_http_bearer H dir p)
      (\<lambda>err. if io_kind err = Already_Exists then load_http_bearer H p else fail (Config_Io err)))"
    (is "keeps _ (act_match _ _ ?g)") for dir p
  proof (rule keepsI)
    fix w
    obtain v w1 where o: "open_new_private_file H p w = (v, w1)"
      by (cases "open_new_private_file H p w")
    show "world_extends w (snd (act_match (open_new_private_file H p)
        (\<lambda>_. create_http_bearer H dir p) ?g w))"
    proof (cases v)
      case (Inl e)
      have "world_extends w w1" using growth_private_file o by (rule keepsD)
      moreover have "keeps world_extends (?g e)"
        by (auto intro: growth_intros growth.keeps_fail)
      then have "world_extends w1 (snd (?g e w1))" by (simp add: keeps_def)
      ultimately show ?thesis using o Inl by (auto simp: act_match_def intro: growth.rel_trans)
    next
      case (Inr x)
      with o True create_new_bearer_extends [of H p w x w1 dir] show ?thesis
        by (cases "create_http_bearer H dir p w1") (simp add: act_match_def)
    qed
  qed
  then show ?thesis using True
    unfolding load_or_create_http_bearer_def Let_def
    by (auto intro!: growth.keeps_bind growth.keeps_lift_res growth.keeps_map_err growth_intros)
qed (simp add: load_or_create_http_bearer_def growth.keeps_fail)

lemma growth_create_artifact [growth_intros]: "keeps world_extends (create_artifact_file H)"
  unfolding create_artifact_file_def Let_def
  by (auto intro!: growth.keeps_bind growth.keeps_lift_res growth.keeps_map_err growth.keeps_fail
      growth_intros)

text \<open>
  C7. Whatever the outcome, I/O faults included, loading or creating the HTTP credential and
  creating an artifact file leave the contents of every existing file, and every link and
  directory, as they were.
\<close>

theorem credential_and_artifact_never_clobber:
  assumes "files w p = Some (Regular m bs)"
  shows "\<exists>m' m''. files (snd (load_or_create_http_bearer H w)) p = Some (Regular m' bs) \<and>
    files (snd (create_artifact_file H w)) p = Some (Regular m'' bs)"
proof -
  have "world_extends w (snd (load_or_create_http_bearer H w))"
    "world_extends w (snd (create_artifact_file H w))"
    using growth_load_or_create [of H] growth_create_artifact [of H] by (simp_all add: keeps_def)
  then show ?thesis using world_extends_regular [OF _ assms] by blast
qed

theorem credential_and_artifact_never_clobber_witness:
  "let p = Path True [''h'', ''.config'', ''folk-around'', ''http-token''];
       w = demo_world\<lparr>files := [p \<mapsto> Regular 420 ''short'']\<rparr>
   in \<exists>m' m''. files (snd (load_or_create_http_bearer demo_host w)) p = Some (Regular m' ''short'') \<and>
      files (snd (create_artifact_file demo_host w)) p = Some (Regular m'' ''short'')"
  unfolding Let_def by (rule credential_and_artifact_never_clobber) simp

section \<open>The credential is valid, private and stable\<close>

lemma valid_bearer_utf8: "valid_http_bearer t \<Longrightarrow> utf8_valid t"
  using lower_hex_facts(3)
  by (auto simp: valid_http_bearer_def is_ascii_def list_all_iff intro!: utf8_valid_ascii)

lemma load_http_bearer_okD:
  assumes "load_http_bearer H p w = (Inr t, w')" and "h_unix H"
  shows "valid_http_bearer t" "files w' p = Some (Regular 384 t)"
proof -
  let ?w1 = "w\<lparr>io_ops := Suc (io_ops w)\<rparr>"
  have nf: "h_fault H (io_ops w) = None"
    using assms by (auto simp: load_http_bearer_def fs_symlink_metadata_def act_bind_eq_Inr
        act_map_err_eq_Inr io_step_Inr simp del: io_step_eq)
  have md: "act_map_err Config_Io (fs_symlink_metadata H p) w =
      (map_err Config_Io (ok_or err_not_found (files w p)), ?w1)"
    using nf by (simp add: act_map_err_def fs_symlink_metadata_def bind_io_step_ok lift_res_def)
  from assms md obtain m bs where f: "files w p = Some (Regular m bs)"
    by (cases "files w p") (auto simp: load_http_bearer_def act_bind_def split: node.splits)
  from assms md f obtain w2 w3 where len: "length bs = http_bearer_hex_len"
    and re: "fs_set_permissions H p 384 ?w1 = (Inr (), w2)"
    and rd: "fs_read H p w2 = (Inr w3, w')"
    and ut: "from_utf8 (take (http_bearer_hex_len + 1) w3) = Some t"
    and v: "valid_http_bearer t"
    by (auto simp: load_http_bearer_def act_bind_eq_Inr act_map_err_eq_Inr ok_or_eq_Inr
        map_err_eq_Inr restrict_file_permissions_def split: if_splits)
  have fo: "follow max_symlinks (files ?w1) p = Some p"
    using f by simp
  have f2: "files w2 = (files w)(p \<mapsto> Regular 384 bs)"
    using fs_set_permissions_regular [OF re fo] f by simp
  from rd f2 have "w3 = bs" "files w' = files w2"
    by (auto simp: fs_read_def act_bind_eq_Inr io_step_Inr
        simp del: io_step_eq)
  moreover have "take (http_bearer_hex_len + 1) bs = bs" using len by simp
  ultimately show "valid_http_bearer t" "files w' p = Some (Regular 384 t)"
    using v ut f2 by (auto simp: from_utf8_def split: if_splits)
qed

lemma load_http_bearer_existing:
  assumes f: "files w p = Some (Regular m t)" and v: "valid_http_bearer t" and u: "h_unix H"
    and nf: "\<forall>n \<ge> io_ops w. h_fault H n = None"
  shows "\<exists>w'. load_http_bearer H p w = (Inr t, w')"
proof -
  let ?w1 = "w\<lparr>io_ops := Suc (io_ops w)\<rparr>"
  let ?w2 = "w\<lparr>io_ops := Suc (Suc (io_ops w)), files := (files w)(p \<mapsto> Regular 384 t)\<rparr>"
  have len: "length t = http_bearer_hex_len" using v by (simp add: valid_http_bearer_def)
  have md: "fs_symlink_metadata H p w = (Inr (Regular m t), ?w1)"
    using f nf by (simp add: fs_symlink_metadata_def bind_io_step_ok lift_res_def)
  have re: "restrict_file_permissions H p ?w1 = (Inr (), ?w2)"
    using f u nf by (simp add: restrict_file_permissions_def fs_set_permissions_def
        bind_io_step_ok)
  have "fs_read H p ?w2 = (Inr t, ?w2\<lparr>io_ops := Suc (io_ops ?w2)\<rparr>)"
    using nf by (intro fs_read_regular [of _ p p 384]) auto
  with md re len v valid_bearer_utf8 [OF v] show ?thesis
    by (simp add: load_http_bearer_def act_bind_def act_map_err_def from_utf8_def ret_def
        lift_res_def)
qed

lemma load_or_create_okD:
  assumes "load_or_create_http_bearer H w = (Inr t, w')"
  obtains d where "h_unix H" "config_dir H = Inr d" "valid_http_bearer t"
    "files w' (path_join d ''http-token'') = Some (Regular 384 t)"
    "dirs_ok (files w') (path_ancestors d)"
proof -
  have u: "h_unix H" using assms by (auto simp: load_or_create_http_bearer_def split: if_splits)
  with assms obtain d w1 where d: "config_dir H = Inr d"
    and e: "ensure_private_dir H d w = (Inr (), w1)"
    and m: "act_match (open_new_private_file H (path_join d ''http-token''))
          (\<lambda>_. create_http_bearer H d (path_join d ''http-token''))
          (\<lambda>err. if io_kind err = Already_Exists
             then load_http_bearer H (path_join d ''http-token'') else fail (Config_Io err)) w1
        = (Inr t, w')" (is "act_match (open_new_private_file H ?p) _ ?g w1 = _")
    by (auto simp: load_or_create_http_bearer_def act_bind_eq_Inr act_map_err_eq_Inr Let_def)
  obtain v w2 where o: "open_new_private_file H ?p w1 = (v, w2)"
    by (cases "open_new_private_file H ?p w1")
  have dk: "dirs_ok (files w1) (path_ancestors d)" by (rule ensure_private_dir_okD [OF e])
  have "valid_http_bearer t \<and> files w' ?p = Some (Regular 384 t) \<and> world_extends w1 w'"
  proof (cases v)
    case (Inl err)
    with o m have l: "load_http_bearer H ?p w2 = (Inr t, w')"
      by (auto simp: act_match_def split: if_splits)
    have "world_extends w1 w2" "world_extends w2 w'"
      using keepsD [OF growth_private_file o] keepsD [OF growth_load_http_bearer l] by auto
    then have "world_extends w1 w'" by (rule growth.rel_trans)
    with load_http_bearer_okD [OF l u] show ?thesis by simp
  next
    case (Inr x)
    with o have o': "open_new_private_file H ?p w1 = (Inr x, w2)" by simp
    with m have c: "create_http_bearer H d ?p w2 = (Inr t, w')" by (simp add: act_match_def)
    note n = open_new_okD [OF o' u]
    have f2: "files w2 ?p = Some (Regular 384 [])" by (simp add: n(2))
    have "t = random_id H (rng_pos w2) http_bearer_bytes \<and>
        files w' = (files w2)(?p \<mapsto> Regular 384 (random_id H (rng_pos w2) http_bearer_bytes))"
      using create_http_bearer_cases [OF c f2] by auto
    with random_id_valid_bearer create_new_bearer_extends [OF o' u c] show ?thesis by simp
  qed
  with u d dk show ?thesis
    by (intro that [of d]) (auto simp: world_extends_def intro: dirs_ok_extends)
qed

text \<open>
  A returned HTTP credential is always 64 lower-case hexadecimal digits, and it is what the
  regular file \<open>http-token\<close> holds, readable by its owner only (mode 0600). This covers both the
  freshly created and the existing file.
\<close>

theorem bearer_valid_and_private:
  assumes "load_or_create_http_bearer H w = (Inr t, w')"
  shows "length t = 64 \<and> list_all is_lower_hex t \<and>
    (\<exists>d. config_dir H = Inr d \<and> files w' (path_join d ''http-token'') = Some (Regular 384 t))"
  using assms
  by (rule load_or_create_okD)
     (auto simp: valid_http_bearer_def http_bearer_hex_len_def http_bearer_bytes_def)

theorem bearer_valid_and_private_witness:
  "\<exists>t w'. load_or_create_http_bearer demo_host demo_world = (Inr t, w') \<and> length t = 64"
proof -
  have "\<not> isl (fst (load_or_create_http_bearer demo_host demo_world))"
    by code_simp
  from outcome_Inr [OF this] obtain t w' where
    "load_or_create_http_bearer demo_host demo_world = (Inr t, w')" by blast
  with bearer_valid_and_private [OF this] show ?thesis by blast
qed

lemma bearer_existing:
  assumes u: "h_unix H" and d: "config_dir H = Inr d" and v: "valid_http_bearer t"
    and f: "files w (path_join d ''http-token'') = Some (Regular m t)"
    and k: "dirs_ok (files w) (path_ancestors d)"
    and nf: "\<forall>n \<ge> io_ops w. h_fault H n = None"
  shows "\<exists>w'. load_or_create_http_bearer H w = (Inr t, w')"
proof -
  let ?p = "path_join d ''http-token''"
  from ensure_private_dir_existing [OF k nf config_dir_comps [OF d]]
  obtain w1 where e: "ensure_private_dir H d w = (Inr (), w1)" "world_extends w w1"
    "io_ops w \<le> io_ops w1" by blast
  from world_extends_regular [OF e(2) f] obtain m' where f1: "files w1 ?p = Some (Regular m' t)"
    by blast
  let ?w2 = "w1\<lparr>io_ops := Suc (io_ops w1)\<rparr>"
  have o: "open_new_private_file H ?p w1 = (Inl err_exists, ?w2)"
    using f1 nf e(3) by (simp add: open_new_private_file_def fs_create_new_def bind_io_step_ok)
  have "\<exists>w3. load_http_bearer H ?p ?w2 = (Inr t, w3)"
    using f1 v u nf e(3) by (intro load_http_bearer_existing) auto
  with u d e o show ?thesis
    by (auto simp: load_or_create_http_bearer_def act_bind_def act_map_err_def act_match_def
        lift_res_def err_exists_def Let_def)
qed

text \<open>
  The credential is stable: once it was returned, every later call that meets no I/O fault
  returns the same credential.
\<close>

theorem bearer_stable:
  assumes r: "load_or_create_http_bearer H w = (Inr t, w')"
    and nf: "\<forall>n \<ge> io_ops w'. h_fault H n = None"
  shows "fst (load_or_create_http_bearer H w') = Inr t"
proof -
  from r obtain d where "h_unix H" "config_dir H = Inr d" "valid_http_bearer t"
    "files w' (path_join d ''http-token'') = Some (Regular 384 t)"
    "dirs_ok (files w') (path_ancestors d)"
    by (rule load_or_create_okD)
  from bearer_existing [OF this nf] show ?thesis by auto
qed

theorem bearer_stable_witness:
  "\<exists>t. fst (load_or_create_http_bearer demo_host
       (snd (load_or_create_http_bearer demo_host demo_world))) = Inr t \<and>
     fst (load_or_create_http_bearer demo_host demo_world) = Inr t"
proof -
  have "\<not> isl (fst (load_or_create_http_bearer demo_host demo_world))"
    by code_simp
  from outcome_Inr [OF this] obtain t w' where
    r: "load_or_create_http_bearer demo_host demo_world = (Inr t, w')" by blast
  with bearer_stable [OF this] show ?thesis by (simp add: demo_host_def)
qed

section \<open>Artifacts are new files\<close>

definition artifact_candidate :: "host \<Rightarrow> path \<Rightarrow> nat \<Rightarrow> path" where
  "artifact_candidate H dir pos =
     path_join dir (random_id H pos artifact_id_bytes @ ''.png'')"

definition made_artifact :: "host \<Rightarrow> path \<Rightarrow> nat \<Rightarrow> artifact_file" where
  "made_artifact H dir pos =
     \<lparr>art_path = artifact_candidate H dir pos,
      art_locator = ''folk-artifact:'' @ random_id H pos artifact_id_bytes @ ''.png''\<rparr>"

lemma open_new_errD:
  assumes "open_new_private_file H p w = (Inl err, w')"
  shows "files w' = files w" "rng_pos w' = rng_pos w"
  using assms
  by (auto simp: open_new_private_file_def fs_create_new_def act_bind_def lift_res_def fail_def
      put_node_def get_files_def io_step_def split: option.splits prod.splits sum.splits)

lemma artifact_attempts_okD:
  assumes "artifact_attempts H dir n w = (Inr a, w')" and "h_unix H"
  shows "\<exists>k < n. a = made_artifact H dir (rng_pos w + k * artifact_id_bytes) \<and>
    files w (art_path a) = None \<and> files w' (art_path a) = Some (Regular 384 [])"
  using assms
proof (induction n arbitrary: w)
  case (Suc n)
  let ?w = "w\<lparr>rng_pos := rng_pos w + artifact_id_bytes\<rparr>"
  let ?p = "artifact_candidate H dir (rng_pos w)"
  obtain v w1 where o: "open_new_private_file H ?p ?w = (v, w1)"
    by (cases "open_new_private_file H ?p ?w")
  show ?case
  proof (cases v)
    case (Inl err)
    with Suc.prems(1) o have "artifact_attempts H dir n w1 = (Inr a, w')"
      by (simp add: act_bind_def generate_hex_eq act_match_def artifact_candidate_def Let_def
          split: if_splits)
    from Suc.IH [OF this Suc.prems(2)] obtain k where k: "k < n"
      "a = made_artifact H dir (rng_pos w1 + k * artifact_id_bytes)"
      "files w1 (art_path a) = None" "files w' (art_path a) = Some (Regular 384 [])" by blast
    have same: "files w1 = files w" "rng_pos w1 = rng_pos w + artifact_id_bytes"
      using open_new_errD [of H ?p ?w err w1] o Inl by auto
    with k show ?thesis
      by (intro exI [of _ "Suc k"]) (simp add: algebra_simps)
  next
    case (Inr x)
    with o have o': "open_new_private_file H ?p ?w = (Inr x, w1)" by simp
    note n = open_new_okD [OF o' Suc.prems(2)]
    have "a = made_artifact H dir (rng_pos w) \<and> files w' = files w1"
      using Suc.prems(1) o Inr
      by (auto simp: act_bind_def generate_hex_eq act_match_def artifact_candidate_def
          made_artifact_def act_map_err_def Let_def split: prod.splits sum.splits dest!: sync_files)
    with n show ?thesis
      by (intro exI [of _ 0]) (auto simp: made_artifact_def)
  qed
qed simp


lemma random_name: "is_file_name (random_id H pos n @ ''.png'')"
proof -
  have "CHR ''/'' \<notin> set (random_id H pos n)"
    using random_id_lower_hex [of H pos n] lower_hex_facts(1) by (auto simp: list_all_iff)
  then show ?thesis by (auto simp: is_file_name_def)
qed

lemma sync_no_fault:
  assumes "\<forall>n \<ge> io_ops w. h_fault H n = None"
  shows "\<exists>w'. sync_all H w = (Inr (), w') \<and> io_ops w \<le> io_ops w'"
    "\<exists>w'. sync_dir H d w = (Inr (), w') \<and> io_ops w \<le> io_ops w'"
  using assms by (auto simp: sync_all_def sync_dir_def bind_io_step_ok)

lemma artifact_attempts_first_free:
  assumes "files w (artifact_candidate H dir (rng_pos w + k * artifact_id_bytes)) = None"
    and "\<And>j. j < k \<Longrightarrow>
      files w (artifact_candidate H dir (rng_pos w + j * artifact_id_bytes)) \<noteq> None"
    and "\<forall>n \<ge> io_ops w. h_fault H n = None" and "k < n" and "h_unix H"
    and "\<And>name. is_file_name name \<Longrightarrow> check_parent (files w) (path_join dir name) = Inr ()"
  shows "\<exists>w'. artifact_attempts H dir n w =
    (Inr (made_artifact H dir (rng_pos w + k * artifact_id_bytes)), w')"
  using assms
proof (induction n arbitrary: w k)
  case (Suc n)
  let ?w = "w\<lparr>rng_pos := rng_pos w + artifact_id_bytes, io_ops := Suc (io_ops w)\<rparr>"
  let ?p = "artifact_candidate H dir (rng_pos w)"
  show ?case
  proof (cases k)
    case 0
    let ?w1 = "?w\<lparr>files := (files w)(?p \<mapsto> Regular 384 [])\<rparr>"
    have o: "open_new_private_file H ?p (w\<lparr>rng_pos := rng_pos w + artifact_id_bytes\<rparr>) = (Inr (), ?w1)"
      using Suc.prems 0
      by (simp add: open_new_private_file_def fs_create_new_def bind_io_step_ok
          artifact_candidate_def random_name)
    have nf: "\<forall>n \<ge> io_ops ?w1. h_fault H n = None" using Suc.prems by simp
    obtain w2 where w2: "sync_all H ?w1 = (Inr (), w2)" "io_ops ?w1 \<le> io_ops w2"
      using sync_no_fault(1) [OF nf] by blast
    have nf2: "\<forall>n \<ge> io_ops w2. h_fault H n = None" using nf w2(2) by simp
    obtain w3 where "sync_dir H dir w2 = (Inr (), w3)" using sync_no_fault(2) [OF nf2] by blast
    with o w2 0 show ?thesis
      by (simp add: act_bind_def generate_hex_eq act_match_def artifact_candidate_def
          made_artifact_def act_map_err_def ret_def Let_def)
  next
    case (Suc j)
    have "files w ?p \<noteq> None" using Suc.prems(2) [of 0] Suc by simp
    then have o: "open_new_private_file H ?p (w\<lparr>rng_pos := rng_pos w + artifact_id_bytes\<rparr>) =
        (Inl err_exists, ?w)"
      using Suc.prems by (auto simp: open_new_private_file_def fs_create_new_def bind_io_step_ok)
    have "\<exists>w'. artifact_attempts H dir n ?w =
        (Inr (made_artifact H dir (rng_pos ?w + j * artifact_id_bytes)), w')"
      using Suc.prems(2) [of "Suc _"] Suc.prems(1,3-6) Suc
      by (intro Suc.IH) (auto simp: algebra_simps)
    with o Suc show ?thesis
      by (simp add: act_bind_def generate_hex_eq act_match_def artifact_candidate_def
          err_exists_def Let_def algebra_simps)
  qed
qed simp

abbreviation same_rng :: "world \<Rightarrow> world \<Rightarrow> bool" where
  "same_rng w w' \<equiv> rng_pos w' = rng_pos w"

interpretation rng: effect_relation same_rng
  by unfold_locales simp_all

lemma rng_make_dirs: "keeps same_rng (make_dirs H ps)"
proof (induction ps)
  case (Cons p ps)
  then have "rng_pos (snd (make_dirs H ps u)) = rng_pos u" for u by (simp add: keeps_def)
  then show ?case
    by (auto simp: keeps_def act_bind_def io_step_def get_files_def put_node_def fail_def
        split: option.split node.split)
qed (simp add: rng.keeps_ret)

lemma rng_ensure_dir: "keeps same_rng (ensure_private_dir H p)"
proof -
  have "keeps same_rng (fs_set_permissions H q m)" for q m
    by (auto simp: keeps_def fs_set_permissions_def act_bind_def io_step_def get_files_def
        put_node_def fail_def ret_def split: option.split node.split)
  then show ?thesis
    unfolding ensure_private_dir_def fs_create_dir_all_def
    by (auto intro!: rng.keeps_bind rng_make_dirs rng.keeps_ret)
qed

lemma fs_extends_None: "fs_extends fs fs' \<Longrightarrow> fs' p = None \<Longrightarrow> fs p = None"
  unfolding fs_extends_def by (cases "fs p") (auto dest: spec [of _ p])

text \<open>
  C21. Creating an artifact reserves a file that did not exist before: its path is
  \<open>artifacts/<id>.png\<close> in the configuration directory for one of the first sixteen random
  identifiers, the file is empty and owner-only, and the locator names it without a directory.
\<close>

theorem artifact_is_fresh:
  assumes "create_artifact_file H w = (Inr a, w')"
  shows "\<exists>d k. config_dir H = Inr d \<and> k < 16 \<and>
    a = made_artifact H (path_join d ''artifacts'') (rng_pos w + k * artifact_id_bytes) \<and>
    files w (art_path a) = None \<and> files w' (art_path a) = Some (Regular 384 [])"
proof -
  from assms have u: "h_unix H" by (auto simp: create_artifact_file_def split: if_splits)
  with assms obtain d w1 w2 where d: "config_dir H = Inr d"
    and e1: "ensure_private_dir H d w = (Inr (), w1)"
    and e2: "ensure_private_dir H (path_join d ''artifacts'') w1 = (Inr (), w2)"
    and at: "artifact_attempts H (path_join d ''artifacts'') 16 w2 = (Inr a, w')"
    by (auto simp: create_artifact_file_def act_bind_eq_Inr act_map_err_eq_Inr Let_def)
  have "fs_extends (files w) (files w2)"
    using keepsD [OF growth_ensure_dir e1] keepsD [OF growth_ensure_dir e2]
    unfolding world_extends_def by (rule fs_extends_trans)
  moreover have "rng_pos w2 = rng_pos w"
    using keepsD [OF rng_ensure_dir e1] keepsD [OF rng_ensure_dir e2] by simp
  ultimately show ?thesis
    using artifact_attempts_okD [OF at u] d fs_extends_None by fastforce
qed


text \<open>With the directories in place and no I/O fault, a free first identifier is enough.\<close>

lemma create_artifact_existing:
  assumes u: "h_unix H" and d: "config_dir H = Inr d" and nf: "\<forall>n \<ge> io_ops w. h_fault H n = None"
    and k: "dirs_ok (files w) (path_ancestors d)"
      "dirs_ok (files w) (path_ancestors (path_join d ''artifacts''))"
    and free: "files w (artifact_candidate H (path_join d ''artifacts'') (rng_pos w)) = None"
  shows "\<exists>a w'. create_artifact_file H w = (Inr a, w')"
proof -
  let ?d = "path_join d ''artifacts''"
  have ne: "path_comps ?d \<noteq> []" by (simp add: path_join_file_name is_file_name_def)
  obtain w1 where w1: "ensure_private_dir H d w = (Inr (), w1)" "world_extends w w1"
    "io_ops w \<le> io_ops w1" "\<forall>p. files w p = None \<longrightarrow> files w1 p = None"
    using ensure_private_dir_existing [OF k(1) nf config_dir_comps [OF d]] by blast
  have nf1: "\<forall>n \<ge> io_ops w1. h_fault H n = None" using nf w1(3) by simp
  have k1: "dirs_ok (files w1) (path_ancestors ?d)"
    using k(2) w1(2) unfolding world_extends_def by (rule dirs_ok_extends)
  obtain w2 where w2: "ensure_private_dir H ?d w1 = (Inr (), w2)" "world_extends w1 w2"
    "io_ops w1 \<le> io_ops w2" "\<forall>p. files w1 p = None \<longrightarrow> files w2 p = None"
    using ensure_private_dir_existing [OF k1 nf1 ne] by blast
  have "dirs_ok (files w2) (path_ancestors ?d)"
    using k1 w2(2) unfolding world_extends_def by (rule dirs_ok_extends)
  then obtain q m where "follow max_symlinks (files w2) ?d = Some q" "files w2 q = Some (Dir m)"
    using path_ancestors_self [OF ne] unfolding dirs_ok_def by blast
  then have "check_parent (files w2) (path_join ?d name) = Inr ()" if "is_file_name name" for name
    using path_parent_join [OF that] by (simp add: check_parent_def)
  moreover have "rng_pos w2 = rng_pos w"
    using keepsD [OF rng_ensure_dir w1(1)] keepsD [OF rng_ensure_dir w2(1)] by simp
  ultimately have "\<exists>w'. artifact_attempts H ?d 16 w2 = (Inr (made_artifact H ?d (rng_pos w2)), w')"
    using artifact_attempts_first_free [of w2 H ?d 0 16] u free w1 w2 nf1 by auto
  with u d w1(1) w2(1) show ?thesis
    by (auto simp: create_artifact_file_def act_bind_def act_map_err_def Let_def)
qed

theorem artifact_is_fresh_witness:
  "\<exists>a w'. create_artifact_file demo_host home_world = (Inr a, w') \<and>
     files home_world (art_path a) = None \<and> files w' (art_path a) = Some (Regular 384 [])"
proof -
  let ?d = "Path True [''h'', ''.config'', ''folk-around'']"
  have d: "config_dir demo_host = Inr ?d" "h_unix demo_host" by code_simp+
  have a: "path_join ?d ''artifacts'' = Path True [''h'', ''.config'', ''folk-around'', ''artifacts'']"
    by (simp add: path_join_file_name is_file_name_def)
  have "\<exists>a w'. create_artifact_file demo_host home_world = (Inr a, w')"
  proof (rule create_artifact_existing [OF d(2) d(1)])
    show "\<forall>n\<ge>io_ops home_world. h_fault demo_host n = None" by (simp add: demo_host_def)
    show "dirs_ok (files home_world) (path_ancestors ?d)"
      "dirs_ok (files home_world) (path_ancestors (path_join ?d ''artifacts''))"
      unfolding a by (simp_all add: dirs_ok_def home_world_def path_ancestors_def upt_rec)
    show "files home_world (artifact_candidate demo_host (path_join ?d ''artifacts'')
        (rng_pos home_world)) = None"
      unfolding a by code_simp
  qed
  then obtain a w' where "create_artifact_file demo_host home_world = (Inr a, w')" by blast
  with artifact_is_fresh [OF this] show ?thesis by blast
qed

text \<open>
  Identifier collisions are survived: when the artifact directory exists and no I/O fault
  occurs, the attempts end with the first of the random identifiers whose file does not exist yet,
  as long as one of the attempts finds one.
\<close>

theorem artifact_takes_first_free_id:
  assumes "\<exists>q m. follow max_symlinks (files w) dir = Some q \<and> files w q = Some (Dir m)"
    and "files w (artifact_candidate H dir (rng_pos w + k * artifact_id_bytes)) = None"
    and "\<forall>j < k. files w (artifact_candidate H dir (rng_pos w + j * artifact_id_bytes)) \<noteq> None"
    and "k < n" and "h_unix H" and "\<forall>i \<ge> io_ops w. h_fault H i = None"
  shows "fst (artifact_attempts H dir n w) =
    Inr (made_artifact H dir (rng_pos w + k * artifact_id_bytes))"
proof -
  have "check_parent (files w) (path_join dir name) = Inr ()" if "is_file_name name" for name
    using assms(1) path_parent_join [OF that] by (auto simp: check_parent_def)
  then show ?thesis
    using artifact_attempts_first_free [of w H dir k n] assms(2-6) by auto
qed

definition counting_host :: host where
  "counting_host = demo_host\<lparr>h_random := \<lambda>n. char_of (n div 16)\<rparr>"

definition collision_world :: world where
  "collision_world = demo_world\<lparr>files :=
     [Path True [''d''] \<mapsto> Dir 448,
      artifact_candidate counting_host (Path True [''d'']) 0 \<mapsto> Regular 384 []]\<rparr>"

theorem artifact_takes_first_free_id_witness:
  "fst (artifact_attempts counting_host (Path True [''d'']) 16 collision_world) =
     Inr (made_artifact counting_host (Path True [''d'']) 16)"
proof -
  let ?d = "Path True [''d'']"
  have c: "artifact_candidate counting_host ?d 16 \<noteq> artifact_candidate counting_host ?d 0"
    "artifact_candidate counting_host ?d 16 \<noteq> ?d" "artifact_candidate counting_host ?d 0 \<noteq> ?d"
    by code_simp+
  have "fst (artifact_attempts counting_host ?d 16 collision_world) =
      Inr (made_artifact counting_host ?d (rng_pos collision_world + 1 * artifact_id_bytes))"
    using c
    by (intro artifact_takes_first_free_id)
       (auto simp: collision_world_def demo_world_def counting_host_def demo_host_def
         artifact_id_bytes_def)
  then show ?thesis by (simp add: collision_world_def demo_world_def artifact_id_bytes_def)
qed

end
