(* ===== verification/Mcp.thy ===== *)
theory Mcp
  imports Core_Files
begin

text \<open>
  The crate \<open>folk-mcp\<close> (\<open>src/crates/folk-mcp/src/lib.rs\<close>): the tool table, the result and schema
  constructors, and the JSON-RPC message handler of the Model Context Protocol server.

  \<open>serde_json::to_string\<close> is third-party code: \<open>h_json_string\<close> of the host, which may also refuse.
\<close>

section \<open>Tools and the tool table\<close>

datatype tool_error = Message string

fun tool_error_text :: "tool_error \<Rightarrow> string" where
  "tool_error_text (Message s) = s"

type_synonym tool_handler = "json \<Rightarrow> access_mode \<Rightarrow> (world, tool_error, json) act"

record tool =
  tool_name :: string
  tool_description :: string
  tool_input_schema :: json
  tool_handler :: tool_handler

record tool_table =
  table_mode :: access_mode
  table_tools :: "tool list"

definition table_new :: "access_mode \<Rightarrow> tool_table" where
  "table_new mode = \<lparr>table_mode = mode, table_tools = []\<rparr>"

definition table_register ::
  "string \<Rightarrow> string \<Rightarrow> json \<Rightarrow> tool_handler \<Rightarrow> tool_table \<Rightarrow> tool_table" where
  "table_register name description schema handler table =
     table\<lparr>table_tools := table_tools table @
       [\<lparr>tool_name = name, tool_description = description, tool_input_schema = schema,
         tool_handler = handler\<rparr>]\<rparr>"

definition table_retain :: "(tool \<Rightarrow> bool) \<Rightarrow> tool_table \<Rightarrow> tool_table" where
  "table_retain keep table = table\<lparr>table_tools := filter keep (table_tools table)\<rparr>"

section \<open>Results and schemas\<close>

definition text_result :: "string \<Rightarrow> json" where
  "text_result text =
     jobj [(''content'', Array [jobj [(''type'', Str ''text''), (''text'', Str text)]])]"

definition json_text_result :: "host \<Rightarrow> json \<Rightarrow> json" where
  "json_text_result H value = text_result (h_json_display H value)"

definition err_result :: "string \<Rightarrow> json" where
  "err_result text =
     (case text_result text of
        Object m \<Rightarrow> Object (obj_insert ''isError'' (Bool True) m)
      | value \<Rightarrow> value)"

text \<open>\<open>schema[key] = value\<close> on an object.\<close>

fun json_set :: "string \<Rightarrow> json \<Rightarrow> json \<Rightarrow> json" where
  "json_set k v (Object m) = Object (obj_insert k v m)"
| "json_set k v value = value"

definition object_schema :: "(string \<times> json) list \<Rightarrow> string list \<Rightarrow> json" where
  "object_schema properties required =
     (let schema = jobj [(''type'', Str ''object''), (''properties'', Object properties)]
      in if required \<noteq> [] then json_set ''required'' (Array (map Str required)) schema
         else schema)"

definition string_property :: "string \<Rightarrow> json" where
  "string_property description =
     jobj [(''type'', Str ''string''), (''description'', Str description)]"

definition number_property :: "string \<Rightarrow> json" where
  "number_property description =
     jobj [(''type'', Str ''number''), (''description'', Str description)]"

definition empty_schema :: json where
  "empty_schema = jobj [(''type'', Str ''object''), (''properties'', Object [])]"

section \<open>Calling a tool\<close>

fun call_first ::
  "tool list \<Rightarrow> access_mode \<Rightarrow> string \<Rightarrow> json \<Rightarrow> (world, 'e, json) act" where
  "call_first [] mode name args = ret (err_result ''not found'')"
| "call_first (t # ts) mode name args =
     (if tool_name t = name
      then act_match (tool_handler t args mode) ret (\<lambda>e. ret (err_result (tool_error_text e)))
      else call_first ts mode name args)"

definition table_call :: "tool_table \<Rightarrow> string \<Rightarrow> json \<Rightarrow> (world, 'e, json) act" where
  "table_call table name args = call_first (table_tools table) (table_mode table) name args"

section \<open>The name of the integration\<close>

text \<open>\<open>std::env::var\<close>: set and valid Unicode.\<close>

definition env_var :: "host \<Rightarrow> string \<Rightarrow> string option" where
  "env_var H key =
     (case h_env H key of
        None \<Rightarrow> None
      | Some v \<Rightarrow> if utf8_valid v then Some v else None)"

text \<open>
  One pass over the characters of a string: an ASCII letter or digit stays, any other character,
  of one or several bytes, becomes a dash.
\<close>

definition dash_char :: "char \<Rightarrow> string" where
  "dash_char c =
     (if is_ascii_alphanumeric c then [c]
      else if in_range 128 191 c then []
      else ''-'')"

definition name_suffix :: "string \<Rightarrow> string" where
  "name_suffix raw =
     trim_matches CHR ''-'' (concat (map dash_char (to_ascii_lowercase (trim raw))))"

definition hostname_output :: "host \<Rightarrow> (world, 'e, string) act" where
  "hostname_output H =
     act_match (host_call H (h_run H) (Run_Process ''hostname'' [] None None))
       (\<lambda>output. ret (case from_utf8 (out_stdout output) of None \<Rightarrow> [] | Some s \<Rightarrow> s))
       (\<lambda>err. ret [])"

definition integration_name :: "host \<Rightarrow> string \<Rightarrow> (world, 'e, string) act" where
  "integration_name H base =
     (let var = (case env_var H ''COMPUTERNAME'' of
                   Some v \<Rightarrow> Some v | None \<Rightarrow> env_var H ''HOSTNAME'');
          given = (case var of None \<Rightarrow> None | Some v \<Rightarrow> if trim v = [] then None else Some v)
      in act_bind (case given of Some v \<Rightarrow> ret v | None \<Rightarrow> hostname_output H) (\<lambda>raw.
         let suffix = name_suffix raw
         in ret (if suffix = [] then base else base @ ''-'' @ suffix)))"

section \<open>Messages\<close>

definition tool_log :: "string \<Rightarrow> string" where
  "tool_log status = ''tool '' @ status"

definition json_response :: "host \<Rightarrow> json \<Rightarrow> json \<Rightarrow> string + string" where
  "json_response H ident result =
     h_json_string H (jobj [(''jsonrpc'', Str ''2.0''), (''id'', ident), (''result'', result)])"

definition error_response :: "host \<Rightarrow> json \<Rightarrow> int \<Rightarrow> string \<Rightarrow> string + string" where
  "error_response H ident code message =
     h_json_string H (jobj
       [(''jsonrpc'', Str ''2.0''), (''id'', ident),
        (''error'', jobj [(''code'', Number (Neg_Int code)), (''message'', Str message)])])"

definition pkg_version :: string where
  "pkg_version = ''0.3.6''"

definition initialize_result :: "string \<Rightarrow> json" where
  "initialize_result name =
     jobj [(''protocolVersion'', Str ''2024-11-05''),
       (''capabilities'', jobj [(''tools'', jobj [(''listChanged'', Bool False)])]),
       (''serverInfo'', jobj [(''name'', Str name), (''version'', Str pkg_version)])]"

definition describe_tool :: "tool \<Rightarrow> json" where
  "describe_tool t =
     jobj [(''name'', Str (tool_name t)), (''description'', Str (tool_description t)),
       (''inputSchema'', tool_input_schema t)]"

definition tools_list_result :: "tool_table \<Rightarrow> json" where
  "tools_list_result table =
     jobj [(''tools'', Array (map describe_tool (table_tools table)))]"

definition say :: "host \<Rightarrow> bool \<Rightarrow> string \<Rightarrow> (world, 'e, unit) act" where
  "say H verbose message = (if verbose then log_status H message else ret ())"

definition some_response :: "string + string \<Rightarrow> (world, string, string option) act" where
  "some_response r = act_map Some (lift_res r)"

text \<open>The branch \<open>"tools/call"\<close>, once the message is known to be a request.\<close>

definition handle_tools_call ::
  "host \<Rightarrow> bool \<Rightarrow> tool_table \<Rightarrow> (string \<times> json) list \<Rightarrow> json \<Rightarrow>
   (world, string, string option) act" where
  "handle_tools_call H verbose table m ident =
     (case obj_get m ''params'' of
        Some (Object params) \<Rightarrow>
          (case obj_get params ''name'' of
             Some (Str name) \<Rightarrow>
               (let args = (case obj_get params ''arguments'' of
                              Some a \<Rightarrow> a | None \<Rightarrow> Object [])
                in act_bind (say H verbose (tool_log ''started'')) (\<lambda>_.
                   act_bind (table_call table name args) (\<lambda>result.
                   act_bind (say H verbose (tool_log ''finished'')) (\<lambda>_.
                   some_response (json_response H ident result)))))
           | _ \<Rightarrow> some_response (error_response H ident (- 32602) ''Missing name''))
      | _ \<Rightarrow> some_response (error_response H ident (- 32602) ''Missing params''))"

definition dispatch_method ::
  "host \<Rightarrow> bool \<Rightarrow> tool_table \<Rightarrow> (string \<times> json) list \<Rightarrow> string \<Rightarrow>
   (world, string, string option) act" where
  "dispatch_method H verbose table m method =
     (let ident = (case obj_get m ''id'' of None \<Rightarrow> Null | Some v \<Rightarrow> v);
          is_notification = (ident = Null)
      in if method = ''initialize'' then
           (if is_notification then ret None
            else act_bind (integration_name H ''folk-around'') (\<lambda>name.
                 some_response (json_response H ident (initialize_result name))))
         else if method = ''notifications/initialized'' then ret None
         else if method = ''ping'' then
           (if is_notification then ret None
            else some_response (json_response H ident (Object [])))
         else if method = ''tools/list'' then
           (if is_notification then ret None
            else some_response (json_response H ident (tools_list_result table)))
         else if method = ''tools/call'' then
           (if is_notification then ret None
            else handle_tools_call H verbose table m ident)
         else if is_notification then ret None
         else some_response (error_response H ident (- 32601) method))"

definition handle_message ::
  "host \<Rightarrow> bool \<Rightarrow> tool_table \<Rightarrow> json \<Rightarrow> (world, string, string option) act" where
  "handle_message H verbose table msg =
     (case msg of
        Object m \<Rightarrow>
          (case obj_get m ''method'' of
             Some (Str method) \<Rightarrow>
               act_bind (say H verbose (''<- '' @ method)) (\<lambda>_.
               dispatch_method H verbose table m method)
           | _ \<Rightarrow> ret None)
      | _ \<Rightarrow> ret None)"

section \<open>Effects of the handler\<close>

text \<open>
  What a server built on the tool table keeps: if a relation on states holds across a log line,
  across the one process the handler itself may run (\<open>hostname\<close>) and across every handler of the
  table, it holds across every message.
\<close>

locale message_effects = effect_relation rel
  for rel :: "world \<Rightarrow> world \<Rightarrow> bool" +
  fixes H :: host
  assumes keeps_log: "keeps rel (log_status H s :: (world, string, unit) act)"
    and keeps_hostname:
      "keeps rel (host_call H (h_run H) (Run_Process ''hostname'' [] None None))"
begin

lemma keeps_say: "keeps rel (say H verbose s :: (world, string, unit) act)"
  by (simp add: say_def keeps_log keeps_ret)

lemma keeps_call_first:
  assumes "\<And>t args. t \<in> set ts \<Longrightarrow> keeps rel (tool_handler t args mode)"
  shows "keeps rel (call_first ts mode name args)"
  using assms by (induction ts) (auto intro!: keeps_match keeps_ret)

lemma keeps_integration_name: "keeps rel (integration_name H base)"
  unfolding integration_name_def hostname_output_def Let_def
  by (auto intro!: keeps_bind keeps_match keeps_ret keeps_hostname split: option.split)

lemma keeps_some_response: "keeps rel (some_response r)"
  by (simp add: some_response_def keeps_map keeps_lift_res)

lemma keeps_tools_call:
  assumes "\<And>t args. t \<in> set (table_tools table) \<Longrightarrow> keeps rel (tool_handler t args (table_mode table))"
  shows "keeps rel (handle_tools_call H verbose table m ident)"
  using assms unfolding handle_tools_call_def table_call_def Let_def
  by (auto intro!: keeps_bind keeps_say keeps_call_first keeps_some_response
      split: option.split json.split)

lemma keeps_handle_message:
  assumes "\<And>t args. t \<in> set (table_tools table) \<Longrightarrow> keeps rel (tool_handler t args (table_mode table))"
  shows "keeps rel (handle_message H verbose table msg)"
  unfolding handle_message_def dispatch_method_def Let_def
  by (auto intro!: keeps_bind keeps_say keeps_ret keeps_integration_name keeps_some_response
      keeps_tools_call assms split: json.split option.split)

end

text \<open>Logging changes the clock and the error stream only.\<close>

definition only_logs :: "world \<Rightarrow> world \<Rightarrow> bool" where
  "only_logs w w' \<longleftrightarrow>
     files w' = files w \<and> io_ops w' = io_ops w \<and> rng_pos w' = rng_pos w \<and> trace w' = trace w \<and>
     observations w' = observations w \<and> host_authority w' = host_authority w"

interpretation logs: effect_relation only_logs
  by unfold_locales (simp_all add: only_logs_def)

lemma log_status_eq:
  "log_status H s w =
     (Inr (), w\<lparr>ticks := Suc (ticks w),
        stderr_lines := stderr_lines w @
          [''['' @ terminal_time (h_clock_ms H (ticks w)) @ ''] '' @ s]\<rparr>)"
  by (simp add: log_status_def put_stderr_def)

lemma only_logs_log: "keeps only_logs (log_status H s)"
  by (rule keepsI) (simp add: log_status_eq only_logs_def)

lemma only_logs_say: "keeps only_logs (say H verbose s)"
  by (simp add: say_def only_logs_log logs.keeps_ret)

lemma say_ok: "\<exists>w'. say H verbose s w = (Inr (), w') \<and> only_logs w w'"
  by (cases verbose) (simp_all add: say_def log_status_eq ret_def only_logs_def)

lemma say_returns: "\<exists>x w'. say H verbose s w = (Inr x, w')"
  using say_ok by blast

section \<open>Notifications\<close>

lemma dispatch_notification:
  assumes "(case obj_get m ''id'' of None \<Rightarrow> Null | Some v \<Rightarrow> v) = Null"
  shows "dispatch_method H verbose table m method = ret None"
  unfolding dispatch_method_def Let_def assms by simp

text \<open>
  A message that is not an object with a string \<open>method\<close>, or that carries no request
  identifier (absent or null), gets no response, and beyond an optional log line nothing happens: no
  tool runs, no host call is made, no file changes.
\<close>

theorem notification_is_silent:
  assumes "jget msg ''id'' \<in> {None, Some Null} \<or> as_object msg = None \<or>
    (\<forall>s. jget msg ''method'' \<noteq> Some (Str s))"
  shows "\<exists>w'. handle_message H verbose table msg w = (Inr None, w') \<and> only_logs w w'"
proof (cases "\<exists>m meth. msg = Object m \<and> obj_get m ''method'' = Some (Str meth)")
  case True
  then obtain m meth where m: "msg = Object m" "obj_get m ''method'' = Some (Str meth)"
    by blast
  with assms have "(case obj_get m ''id'' of None \<Rightarrow> Null | Some v \<Rightarrow> v) = Null" by auto
  then have d: "dispatch_method H verbose table m meth = ret None"
    by (rule dispatch_notification)
  obtain w1 where "(say H verbose (''<- '' @ meth) :: (world, string, unit) act) w = (Inr (), w1)"
    "only_logs w w1"
    using say_ok by blast
  with m d show ?thesis by (simp add: handle_message_def act_bind_Inr)
next
  case False
  then have "handle_message H verbose table msg = ret None"
    by (auto simp: handle_message_def split: json.splits option.splits)
  then show ?thesis by (simp add: logs.rel_refl)
qed

theorem notification_is_silent_witness:
  "\<exists>w'. handle_message demo_host True (table_new Full)
       (jobj [(''method'', Str ''tools/call''), (''id'', Null)]) demo_world = (Inr None, w') \<and>
     only_logs demo_world w'"
proof (rule notification_is_silent)
  show "jget (jobj [(''method'', Str ''tools/call''), (''id'', Null)]) ''id'' \<in> {None, Some Null} \<or>
      as_object (jobj [(''method'', Str ''tools/call''), (''id'', Null)]) = None \<or>
      (\<forall>s. jget (jobj [(''method'', Str ''tools/call''), (''id'', Null)]) ''method'' \<noteq> Some (Str s))"
    by (rule disjI1) simp
qed

section \<open>Responses\<close>

definition is_response :: "json \<Rightarrow> json \<Rightarrow> bool" where
  "is_response ident resp \<longleftrightarrow>
     jget resp ''jsonrpc'' = Some (Str ''2.0'') \<and> jget resp ''id'' = Some ident \<and>
     (jget resp ''result'' = None) \<noteq> (jget resp ''error'' = None)"

definition answers :: "host \<Rightarrow> json \<Rightarrow> (world, string, string option) act \<Rightarrow> bool" where
  "answers H ident act \<longleftrightarrow>
     (\<forall>w. \<exists>resp. is_response ident resp \<and>
        fst (act w) = res_bind (h_json_string H resp) (\<lambda>s. Inr (Some s)))"

lemma answers_response: "answers H ident (some_response (json_response H ident r))"
  unfolding answers_def
  by (intro allI exI [of _ "jobj [(''jsonrpc'', Str ''2.0''), (''id'', ident), (''result'', r)]"])
     (auto simp: is_response_def some_response_def json_response_def act_map_def act_bind_def
       lift_res_def ret_def res_bind_def split: sum.split)

lemma answers_error: "answers H ident (some_response (error_response H ident c s))"
  unfolding answers_def error_response_def
  by (intro allI exI [of _ "jobj [(''jsonrpc'', Str ''2.0''), (''id'', ident), (''error'',
        jobj [(''code'', Number (Neg_Int c)), (''message'', Str s)])]"])
     (auto simp: is_response_def some_response_def act_map_def act_bind_def
       lift_res_def ret_def res_bind_def split: sum.split)

lemma answers_bind:
  assumes "\<And>w. \<exists>x w'. m w = (Inr x, w')" and "\<And>x. answers H ident (f x)"
  shows "answers H ident (act_bind m f)"
  unfolding answers_def
proof
  fix w
  obtain x w' where "m w = (Inr x, w')" using assms(1) by blast
  with assms(2) [of x] show "\<exists>resp. is_response ident resp \<and>
      fst (act_bind m f w) = res_bind (h_json_string H resp) (\<lambda>s. Inr (Some s))"
    by (simp add: answers_def act_bind_Inr)
qed

lemma call_first_ok: "\<exists>x w'. call_first ts mode name args w = (Inr x, w')"
  by (induction ts) (auto simp: act_match_def ret_def split: prod.split sum.split)

lemma integration_name_ok: "\<exists>x w'. integration_name H base w = (Inr x, w')"
  by (auto simp: integration_name_def hostname_output_def act_bind_def act_match_def ret_def Let_def
      split: option.split prod.split sum.split)

lemma answers_tools_call: "answers H ident (handle_tools_call H verbose table m ident)"
  unfolding handle_tools_call_def table_call_def Let_def
  using say_returns call_first_ok
  by (auto split: option.split json.split
      intro!: answers_bind answers_response answers_error)

text \<open>
  C34. Every request (a string method, an identifier that is not null) other than the notification
  \<open>notifications/initialized\<close> is answered by exactly one JSON-RPC response, which carries the
  request's identifier unchanged and either a result or an error, never both; only a failure to
  serialise it is an error of the handler.
\<close>

theorem request_is_answered:
  assumes "obj_get m ''method'' = Some (Str meth)" and "obj_get m ''id'' = Some ident"
    and "ident \<noteq> Null" and "meth \<noteq> ''notifications/initialized''"
  shows "\<exists>resp. is_response ident resp \<and>
    fst (handle_message H verbose table (Object m) w) =
      res_bind (h_json_string H resp) (\<lambda>s. Inr (Some s))"
proof -
  have "answers H ident (dispatch_method H verbose table m meth)"
    using assms(2-4) answers_bind [OF integration_name_ok answers_response]
      answers_response answers_error answers_tools_call
    by (simp add: dispatch_method_def)
  with say_returns have "answers H ident (act_bind (say H verbose (''<- '' @ meth))
      (\<lambda>_. dispatch_method H verbose table m meth))"
    by (rule answers_bind)
  with assms(1) show ?thesis by (simp add: handle_message_def answers_def)
qed

theorem request_is_answered_witness:
  "\<exists>resp. is_response (Str ''7'') resp \<and>
     fst (handle_message demo_host False (table_new Sandbox)
       (Object [(''id'', Str ''7''), (''method'', Str ''nope'')]) demo_world) =
     res_bind (h_json_string demo_host resp) (\<lambda>s. Inr (Some s))"
  by (rule request_is_answered [where meth = "''nope''"]) (simp_all add: obj_get_def)

section \<open>Dispatch\<close>

text \<open>
  What a tool call means: the first tool registered under the name is run in the table's access
  mode, and an error of its handler becomes an error result.
\<close>

definition run_tool :: "tool_table \<Rightarrow> string \<Rightarrow> json \<Rightarrow> (world, 'e, json) act" where
  "run_tool table name args =
     (case find (\<lambda>t. tool_name t = name) (table_tools table) of
        None \<Rightarrow> ret (err_result ''not found'')
      | Some t \<Rightarrow> act_match (tool_handler t args (table_mode table)) ret
                  (\<lambda>e. ret (err_result (tool_error_text e))))"

lemma table_call_run_tool: "table_call table name args = run_tool table name args"
proof -
  have "call_first ts mode name args =
      (case find (\<lambda>t. tool_name t = name) ts of
         None \<Rightarrow> ret (err_result ''not found'')
       | Some t \<Rightarrow> act_match (tool_handler t args mode) ret
                  (\<lambda>e. ret (err_result (tool_error_text e))))" for ts mode
    by (induction ts) auto
  then show ?thesis by (simp add: table_call_def run_tool_def)
qed

lemma handle_quiet_request:
  assumes "obj_get m ''method'' = Some (Str method)"
  shows "handle_message H False table (Object m) = dispatch_method H False table m method"
  using assms by (simp add: handle_message_def say_def)

lemma dispatch_tools_call:
  assumes "obj_get m ''id'' = Some ident" and "ident \<noteq> Null"
  shows "dispatch_method H verbose table m ''tools/call'' = handle_tools_call H verbose table m ident"
  using assms by (simp add: dispatch_method_def)

text \<open>
  C33. A well-formed \<open>tools/call\<close> request runs the first tool registered under the requested name,
  once, on the given arguments (an empty object when there are none) in the access mode of the
  table; its result, or its error turned into a result flagged \<open>isError\<close>, is the response. With
  \<open>--verbose\<close> the lines \<open><- tools/call\<close> and \<open>tool started\<close> are logged before the tool runs and \<open>tool finished\<close>
  after it, without it nothing is. An unknown name gives the error result \<open>not found\<close> without an effect.
\<close>

theorem tool_call_runs_the_named_tool:
  assumes "obj_get m ''method'' = Some (Str ''tools/call'')" and "obj_get m ''id'' = Some ident"
    and "ident \<noteq> Null" and "obj_get m ''params'' = Some (Object params)"
    and "obj_get params ''name'' = Some (Str name)"
  shows "handle_message H verbose table (Object m) w =
    act_bind (say H verbose ''<- tools/call'') (\<lambda>_.
    act_bind (say H verbose ''tool started'') (\<lambda>_.
    act_bind (run_tool table name
        (case obj_get params ''arguments'' of Some a \<Rightarrow> a | None \<Rightarrow> Object [])) (\<lambda>result.
    act_bind (say H verbose ''tool finished'') (\<lambda>_.
    some_response (json_response H ident result))))) w \<and>
    (name \<notin> set (map tool_name (table_tools table)) \<longrightarrow>
      run_tool table name args w = (Inr (err_result ''not found'') :: string + json, w))"
proof
  show "handle_message H verbose table (Object m) w =
    act_bind (say H verbose ''<- tools/call'') (\<lambda>_.
    act_bind (say H verbose ''tool started'') (\<lambda>_.
    act_bind (run_tool table name
        (case obj_get params ''arguments'' of Some a \<Rightarrow> a | None \<Rightarrow> Object [])) (\<lambda>result.
    act_bind (say H verbose ''tool finished'') (\<lambda>_.
    some_response (json_response H ident result))))) w"
    using assms(1,4,5)
    by (simp add: handle_message_def dispatch_tools_call [OF assms(2,3)] handle_tools_call_def tool_log_def
        table_call_run_tool)
  show "name \<notin> set (map tool_name (table_tools table)) \<longrightarrow>
      run_tool table name args w = (Inr (err_result ''not found'') :: string + json, w)"
  proof
    assume "name \<notin> set (map tool_name (table_tools table))"
    then have "find (\<lambda>t. tool_name t = name) (table_tools table) = None"
      by (auto simp: find_None_iff)
    then show "run_tool table name args w = (Inr (err_result ''not found'') :: string + json, w)"
      by (simp add: run_tool_def)
  qed
qed

definition echo_table :: tool_table where
  "echo_table = table_register ''echo'' [] empty_schema (\<lambda>args mode. ret args) (table_new Limited)"

theorem tool_call_runs_the_named_tool_witness:
  "handle_message demo_host False echo_table
     (Object [(''id'', jnat 1), (''method'', Str ''tools/call''),
       (''params'', Object [(''arguments'', Str ''x''), (''name'', Str ''echo'')])]) demo_world =
   (Inr (Some []), demo_world)"
proof -
  let ?ps = "[(''arguments'', Str ''x''), (''name'', Str ''echo'')]"
  have r: "run_tool echo_table ''echo'' (Str ''x'') = (ret (Str ''x'') :: (world, string, json) act)"
    by (rule ext)
       (simp add: run_tool_def echo_table_def table_register_def table_new_def act_match_def ret_def)
  have "handle_message demo_host False echo_table
      (Object [(''id'', jnat 1), (''method'', Str ''tools/call''), (''params'', Object ?ps)])
      demo_world =
    act_bind (say demo_host False ''<- tools/call'') (\<lambda>_.
    act_bind (say demo_host False ''tool started'') (\<lambda>_.
    act_bind (run_tool echo_table ''echo''
        (case obj_get ?ps ''arguments'' of Some a \<Rightarrow> a | None \<Rightarrow> Object [])) (\<lambda>result.
    act_bind (say demo_host False ''tool finished'') (\<lambda>_.
    some_response (json_response demo_host (jnat 1) result))))) demo_world"
    by (rule tool_call_runs_the_named_tool [THEN conjunct1]) (simp_all add: obj_get_def)
  also have "\<dots> = (Inr (Some []), demo_world)"
    by (simp add: obj_get_def r say_def some_response_def json_response_def demo_host_def act_map_def)
  finally show ?thesis .
qed

text \<open>
  Malformed and unknown requests are answered without running anything: \<open>tools/call\<close> without a
  parameter object or without a string name gives the error -32602, an unknown method the error
  -32601 that names it.
\<close>

theorem protocol_errors_have_no_effect:
  assumes "obj_get m ''method'' = Some (Str method)" and "obj_get m ''id'' = Some ident"
    and "ident \<noteq> Null"
  shows "(method = ''tools/call'' \<and> (\<forall>ps. obj_get m ''params'' \<noteq> Some (Object ps)) \<longrightarrow>
      handle_message H False table (Object m) w =
        some_response (error_response H ident (- 32602) ''Missing params'') w) \<and>
    (method = ''tools/call'' \<and> (\<exists>ps. obj_get m ''params'' = Some (Object ps) \<and>
         (\<forall>s. obj_get ps ''name'' \<noteq> Some (Str s))) \<longrightarrow>
      handle_message H False table (Object m) w =
        some_response (error_response H ident (- 32602) ''Missing name'') w) \<and>
    (method \<notin> {''initialize'', ''notifications/initialized'', ''ping'', ''tools/list'', ''tools/call''} \<longrightarrow>
      handle_message H False table (Object m) w =
        some_response (error_response H ident (- 32601) method) w)"
proof (intro conjI impI)
  assume a: "method = ''tools/call'' \<and> (\<forall>ps. obj_get m ''params'' \<noteq> Some (Object ps))"
  with assms have "handle_message H False table (Object m) = handle_tools_call H False table m ident"
    by (simp add: handle_quiet_request dispatch_tools_call)
  then show "handle_message H False table (Object m) w =
        some_response (error_response H ident (- 32602) ''Missing params'') w"
    using a by (auto simp: handle_tools_call_def split: option.split json.split)
next
  assume a: "method = ''tools/call'' \<and> (\<exists>ps. obj_get m ''params'' = Some (Object ps) \<and>
         (\<forall>s. obj_get ps ''name'' \<noteq> Some (Str s)))"
  with assms have "handle_message H False table (Object m) = handle_tools_call H False table m ident"
    by (simp add: handle_quiet_request dispatch_tools_call)
  then show "handle_message H False table (Object m) w =
        some_response (error_response H ident (- 32602) ''Missing name'') w"
    using a by (auto simp: handle_tools_call_def split: option.split json.split)
next
  assume "method \<notin> {''initialize'', ''notifications/initialized'', ''ping'', ''tools/list'', ''tools/call''}"
  then show "handle_message H False table (Object m) w =
        some_response (error_response H ident (- 32601) method) w"
    using assms(2,3) by (simp add: handle_quiet_request [OF assms(1)] dispatch_method_def)
qed

theorem protocol_errors_have_no_effect_witness:
  "handle_message demo_host False echo_table
     (Object [(''id'', jnat 1), (''method'', Str ''nope'')]) demo_world =
   some_response (error_response demo_host (jnat 1) (- 32601) ''nope'') demo_world"
proof -
  note p = protocol_errors_have_no_effect
    [of "[(''id'', jnat 1), (''method'', Str ''nope'')]" "''nope''" "jnat 1"]
  show ?thesis
    by (rule p [THEN conjunct2, THEN conjunct2, THEN mp]) (simp_all add: obj_get_def)
qed


section \<open>The integration name\<close>

definition host_label :: "string \<Rightarrow> bool" where
  "host_label s \<longleftrightarrow> s \<noteq> [] \<and> hd s \<noteq> CHR ''-'' \<and> last s \<noteq> CHR ''-'' \<and>
     (\<forall>c \<in> set s. is_ascii_digit c \<or> is_ascii_lower c \<or> c = CHR ''-'')"

lemma trim_matches_ends:
  assumes "trim_matches c s \<noteq> []"
  shows "hd (trim_matches c s) \<noteq> c" "last (trim_matches c s) \<noteq> c"
proof -
  let ?t = "dropWhile (\<lambda>x. x = c) s"
  have "trim_matches c s @ rev (takeWhile (\<lambda>x. x = c) (rev ?t)) = ?t"
    unfolding trim_matches_def trim_end_matches_def rev_append [symmetric]
    by (simp only: takeWhile_dropWhile_id rev_rev_ident)
  then have "hd (trim_matches c s) = hd ?t" "?t \<noteq> []"
    using assms by (metis hd_append2, metis append_is_Nil_conv)
  then show "hd (trim_matches c s) \<noteq> c" using hd_dropWhile [of "\<lambda>x. x = c" s] by simp
  show "last (trim_matches c s) \<noteq> c"
    using trim_end_matches_last [of c ?t] assms by (simp add: trim_matches_def)
qed

lemma ascii_lower_not_upper: "\<not> is_ascii_upper (ascii_lower c)"
  by (cases c) (auto simp: ascii_lower_def byte_class_defs)

lemma name_suffix_label: "name_suffix raw \<noteq> [] \<Longrightarrow> host_label (name_suffix raw)"
proof -
  assume ne: "name_suffix raw \<noteq> []"
  let ?cs = "concat (map dash_char (to_ascii_lowercase (trim raw)))"
  have "c \<in> set (dash_char (ascii_lower d)) \<Longrightarrow>
      is_ascii_digit c \<or> is_ascii_lower c \<or> c = CHR ''-''" for c d
    using ascii_lower_not_upper [of d]
    by (auto simp: dash_char_def is_ascii_alphanumeric_def split: if_splits)
  then have "\<forall>c \<in> set ?cs. is_ascii_digit c \<or> is_ascii_lower c \<or> c = CHR ''-''"
    by (auto simp: to_ascii_lowercase_def)
  moreover have "set (name_suffix raw) \<subseteq> set ?cs"
    unfolding name_suffix_def by (rule set_trim_matches)
  ultimately have "\<forall>c \<in> set (name_suffix raw). is_ascii_digit c \<or> is_ascii_lower c \<or> c = CHR ''-''"
    by blast
  then show ?thesis
    using ne trim_matches_ends [of "CHR ''-''" ?cs]
    by (simp add: host_label_def name_suffix_def)
qed

text \<open>
  The server's name is \<open>folk-around\<close>, or \<open>folk-around-\<close> followed by a host label: lower-case
  letters, digits and inner dashes only, whatever the environment variables and the \<open>hostname\<close>
  command contain. Finding it runs at most that one command.
\<close>

theorem integration_name_is_label:
  "\<exists>name w'. integration_name H ''folk-around'' w = (Inr name :: string + string, w') \<and>
     (name = ''folk-around'' \<or> (\<exists>l. host_label l \<and> name = ''folk-around-'' @ l)) \<and>
     (w' = w \<or> trace w' = trace w @ [Run_Process ''hostname'' [] None None])"
proof -
  have pick: "\<exists>raw w'. (case given of Some v \<Rightarrow> ret v | None \<Rightarrow> hostname_output H) w =
        (Inr raw :: string + string, w') \<and>
      (w' = w \<or> trace w' = trace w @ [Run_Process ''hostname'' [] None None])" for given
    by (auto simp: hostname_output_def act_match_def host_call_def ret_def Let_def
        split: option.split prod.split sum.split)
  show ?thesis
    unfolding integration_name_def Let_def
    using pick [of "case (case env_var H ''COMPUTERNAME'' of
                   Some v \<Rightarrow> Some v | None \<Rightarrow> env_var H ''HOSTNAME'') of
        None \<Rightarrow> None | Some v \<Rightarrow> if trim v = [] then None else Some v"] name_suffix_label
    by (elim exE conjE) (auto simp: act_bind_def ret_def)
qed

end
