(* ===== verification/Adapter.thy ===== *)
theory Adapter
  imports Mcp
begin

text \<open>
  The Praefectus adapter of the crate \<open>folk-computer-use\<close>
  (\<open>src/crates/folk-computer-use/src/praefectus_adapter.rs\<close>) with the error type and the access
  check it shares with the tools: the cache of semantic observations, the signed action requests, the
  operation ledger's path and the judgement whether an operation may be retried.

  The crates \<open>praefectus\<close>, \<open>ed25519-dalek\<close> and \<open>sha2\<close> are parameters of the host. The mutex of the
  cache is not poisoned: nothing in its critical sections panics.
\<close>

section \<open>Errors of the tools\<close>

datatype tool_exec_error =
    Missing string
  | Invalid_Arguments
  | Exec_Io io_error
  | Blocked
  | Peekaboo_Error string
  | Exec_Json string
  | Praefectus_Error string
  | Semantic_Error string
  | Semantic_Unavailable
  | Coordinates_Unavailable
  | Screenshot_Reference_Unavailable

fun exec_error_text :: "tool_exec_error \<Rightarrow> string" where
  "exec_error_text (Missing what) = ''missing '' @ what"
| "exec_error_text Invalid_Arguments = ''invalid tool arguments''"
| "exec_error_text (Exec_Io err) = ''host I/O request failed''"
| "exec_error_text Blocked = ''action blocked in this mode''"
| "exec_error_text (Peekaboo_Error err) = ''computer-use backend request failed''"
| "exec_error_text (Exec_Json text) = text"
| "exec_error_text (Praefectus_Error err) = ''computer-use protocol request failed''"
| "exec_error_text (Semantic_Error err) = ''semantic computer-use target is unavailable''"
| "exec_error_text Semantic_Unavailable = ''semantic computer-use backend is unavailable''"
| "exec_error_text Coordinates_Unavailable = ''raw coordinate actions are unavailable''"
| "exec_error_text Screenshot_Reference_Unavailable =
     ''safe screenshot reference is unavailable''"

fun from_lib_error :: "lib_error \<Rightarrow> tool_exec_error" where
  "from_lib_error (Lib_Protocol s) = Praefectus_Error s"
| "from_lib_error (Lib_Semantic s) = Semantic_Error s"

type_synonym 'a exec = "(world, tool_exec_error, 'a) act"

definition ensure_mutation :: "access_mode \<Rightarrow> tool_exec_error + unit" where
  "ensure_mutation mode = (if mode \<noteq> Full then Inl Blocked else Inr ())"

section \<open>The clock\<close>

definition wrap_i64 :: "int \<Rightarrow> int" where
  "wrap_i64 t = (t + 9223372036854775808) mod 18446744073709551616 - 9223372036854775808"

definition saturating_add_i64 :: "int \<Rightarrow> int \<Rightarrow> int" where
  "saturating_add_i64 a b = max i64_min (min i64_max (a + b))"

definition err_clock :: io_error where
  "err_clock = Io_Error (Other_Kind 0) ''second time provided was later than self''"

definition now_ms :: "host \<Rightarrow> int exec" where
  "now_ms H =
     act_bind (read_clock H) (\<lambda>t.
     if t < 0 then fail (Exec_Io err_clock) else ret (wrap_i64 t))"

section \<open>The observation cache\<close>

definition max_cached_observations :: nat where
  "max_cached_observations = 8"

definition action_deadline_ms :: int where
  "action_deadline_ms = 30000"

definition lift_lib :: "lib_error + 'a \<Rightarrow> 'a exec" where
  "lift_lib r = lift_res (map_err from_lib_error r)"

definition get_observations :: "observation list exec" where
  "get_observations w = (Inr (observations w), w)"

definition put_observations :: "observation list \<Rightarrow> unit exec" where
  "put_observations os w = (Inr (), w\<lparr>observations := os\<rparr>)"

text \<open>\<open>while observations.len() > MAX { observations.pop_front() }\<close>.\<close>

fun pop_to_limit :: "observation list \<Rightarrow> observation list" where
  "pop_to_limit [] = []"
| "pop_to_limit (x # os) =
     (if length (x # os) > max_cached_observations then pop_to_limit os else x # os)"

definition insert_observation :: "int \<Rightarrow> observation \<Rightarrow> observation list \<Rightarrow> observation list" where
  "insert_observation now obs os =
     pop_to_limit (filter (\<lambda>c. obs_id c \<noteq> obs_id obs) (filter (\<lambda>c. obs_expires_at_ms c > now) os)
       @ [obs])"

definition cache_observation :: "host \<Rightarrow> observation \<Rightarrow> unit exec" where
  "cache_observation H obs =
     act_bind (now_ms H) (\<lambda>t.
     act_bind (lift_lib (h_obs_validate H obs t)) (\<lambda>_.
     act_bind get_observations (\<lambda>os.
     act_bind (now_ms H) (\<lambda>now.
     put_observations (insert_observation now obs os)))))"

definition cached_target :: "host \<Rightarrow> string \<Rightarrow> string \<Rightarrow> (semantic_target \<times> int) exec" where
  "cached_target H ident tag =
     act_bind get_observations (\<lambda>os.
     act_bind (lift_res (ok_or Semantic_Unavailable (find (\<lambda>c. obs_id c = ident) os))) (\<lambda>obs.
     act_bind (now_ms H) (\<lambda>t.
     act_bind (lift_lib (h_obs_validate H obs t)) (\<lambda>_.
     act_bind (lift_lib (h_obs_target H obs tag)) (\<lambda>target.
     ret (target, obs_expires_at_ms obs))))))"

definition observe_semantic :: "host \<Rightarrow> observation exec" where
  "observe_semantic H =
     act_bind (now_ms H) (\<lambda>t.
     act_bind (act_map_err from_lib_error
       (host_call H (h_observe H) (Observe_Semantic (saturating_add_i64 t action_deadline_ms)))) (\<lambda>obs.
     act_bind (cache_observation H obs) (\<lambda>_.
     ret obs)))"

section \<open>Supported actions\<close>

definition supports_action :: "capabilities \<Rightarrow> string \<Rightarrow> bool" where
  "supports_action caps name \<longleftrightarrow> name \<noteq> [] \<and> list_ex (\<lambda>s. s = name) (supported_actions caps)"

definition supports_semantic_action :: "host \<Rightarrow> string \<Rightarrow> (world, 'e, bool) act" where
  "supports_semantic_action H name =
     act_match (host_call H (h_capabilities H) Query_Capabilities)
       (\<lambda>caps. ret (supports_action caps name))
       (\<lambda>err. ret False)"

fun action_name :: "action \<Rightarrow> string" where
  "action_name Invoke = ''invoke''"
| "action_name (Set_Value v) = ''set_value''"
| "action_name _ = []"

section \<open>Signed requests\<close>

definition value_hash :: "host \<Rightarrow> string \<Rightarrow> string" where
  "value_hash H v = hex_bytes (h_sha256 H v)"

definition action_policy :: "host \<Rightarrow> action \<Rightarrow> safety_class \<times> verification_policy" where
  "action_policy H a =
     (External, case a of Set_Value v \<Rightarrow> Target_Value_Hash (value_hash H v) | _ \<Rightarrow> Verify_None)"

definition unsigned_request ::
  "host \<Rightarrow> action \<Rightarrow> semantic_target \<Rightarrow> string \<Rightarrow> int \<Rightarrow> string \<Rightarrow> interaction_mode \<Rightarrow> action_request" where
  "unsigned_request H a target operation_id deadline session_id imode =
     (let version = h_protocol_version H;
          subject = ''folk-local-host'';
          policy = action_policy H a;
          grant = \<lparr>gr_protocol_version = version, gr_issuer = ''folk-around'',
                    gr_key_id = ''process-key'', gr_operation_id = operation_id,
                    gr_subject = subject, gr_session_id = session_id, gr_risk = fst policy,
                    gr_expires_at_ms = deadline, gr_policy_generation = ''folk-full-v2'',
                    gr_action_hash = []\<rparr>
      in \<lparr>rq_protocol_version = version, rq_action_version = version, rq_target_version = version,
          rq_verification_version = version, rq_operation_id = operation_id, rq_subject = subject,
          rq_session_id = session_id, rq_authority = \<lparr>sa_grant = grant, sa_signature = []\<rparr>,
          rq_action = a, rq_target = target, rq_interaction_mode = imode,
          rq_deadline_at_ms = deadline, rq_verification = snd policy, rq_safety = fst policy\<rparr>)"

definition signed_request ::
  "host \<Rightarrow> action \<Rightarrow> semantic_target \<Rightarrow> string \<Rightarrow> int \<Rightarrow> bytes \<Rightarrow> string \<Rightarrow> interaction_mode \<Rightarrow>
   tool_exec_error + action_request" where
  "signed_request H a target operation_id deadline key session_id imode =
     (let request = unsigned_request H a target operation_id deadline session_id imode in
      res_bind (map_err from_lib_error (h_action_hash H request)) (\<lambda>hash.
      let grant = (sa_grant (rq_authority request))\<lparr>gr_action_hash := hash\<rparr> in
      res_bind (map_err from_lib_error (h_authority_bytes H grant)) (\<lambda>bs.
      Inr (request\<lparr>rq_authority :=
             \<lparr>sa_grant = grant, sa_signature = hex_bytes (h_sign H key bs)\<rparr>\<rparr>))))"

text \<open>\<open>HOST_AUTHORITY.get_or_init\<close>: the process draws its key and session name once.\<close>

definition get_host_authority :: "host \<Rightarrow> (bytes \<times> string) exec" where
  "get_host_authority H w =
     (case host_authority w of
        Some a \<Rightarrow> (Inr a, w)
      | None \<Rightarrow>
          act_bind (fill_bytes H 32) (\<lambda>key.
          act_bind (fill_bytes H 16) (\<lambda>session.
          \<lambda>w'. let a = (key, ''folk-process-'' @ hex_digits 32 (be_val session))
               in (Inr a, w'\<lparr>host_authority := Some a\<rparr>))) w)"

section \<open>Results of the engine\<close>

fun terminal_proves_no_effect :: "terminal \<Rightarrow> bool" where
  "terminal_proves_no_effect (Rejected c m) = True"
| "terminal_proves_no_effect Cancelled_Before_Effect = True"
| "terminal_proves_no_effect Expired_Before_Effect = True"
| "terminal_proves_no_effect _ = False"

fun ack_terminal :: "action_ack \<Rightarrow> terminal option" where
  "ack_terminal a = (case ack_state a of Ack_Terminal t \<Rightarrow> Some t | _ \<Rightarrow> None)"

definition report_is_retry_safe :: "execute_report \<Rightarrow> bool" where
  "report_is_retry_safe report =
     (case List.map_filter ack_terminal (acknowledgements report) of
        [] \<Rightarrow> False
      | first # rest \<Rightarrow> terminal_proves_no_effect first \<and> list_all terminal_proves_no_effect rest)"

definition report_result :: "host \<Rightarrow> execute_report \<Rightarrow> tool_exec_error + json" where
  "report_result H report =
     res_bind (map_err Exec_Json (h_report_json H report)) (\<lambda>value.
     Inr (json_text_result H
       (jobj [(''report'', value), (''retry_safe'', Bool (report_is_retry_safe report))])))"

section \<open>The operation ledger\<close>

definition nonempty_path :: "path option \<Rightarrow> path option" where
  "nonempty_path p = (case p of Some q \<Rightarrow> if path_is_empty q then None else Some q | None \<Rightarrow> None)"

definition ledger_path_from :: "path option \<Rightarrow> path option \<Rightarrow> path option" where
  "ledger_path_from xdg home =
     (let state_home =
        (case nonempty_path xdg of
           Some p \<Rightarrow> if path_abs p then Some p else None
         | None \<Rightarrow>
             (case nonempty_path home of
                Some p \<Rightarrow>
                  if path_abs p then Some (path_join (path_join p ''.local'') ''state'') else None
              | None \<Rightarrow> None))
      in map_option (\<lambda>d. path_join (path_join (path_join d ''folk-around'') ''praefectus'')
           ''operations.jsonl'') state_home)"

definition err_ledger :: io_error where
  "err_ledger = Io_Error Not_Found ''HOME and XDG_STATE_HOME are not set''"

definition ledger_path :: "host \<Rightarrow> tool_exec_error + path" where
  "ledger_path H =
     ok_or (Exec_Io err_ledger)
       (ledger_path_from (map_option path_from (h_env H ''XDG_STATE_HOME''))
          (map_option path_from (h_env H ''HOME'')))"

section \<open>Executing\<close>

definition execute_semantic ::
  "host \<Rightarrow> action \<Rightarrow> semantic_target \<Rightarrow> string \<Rightarrow> int \<Rightarrow> interaction_mode \<Rightarrow> json exec" where
  "execute_semantic H a target operation_id deadline imode =
     act_bind (act_map_err from_lib_error (host_call H (h_capabilities H) Query_Capabilities)) (\<lambda>caps.
     if \<not> supports_action caps (action_name a) then fail Semantic_Unavailable
     else
       act_bind (get_host_authority H) (\<lambda>(key, session_id).
       act_bind (lift_res (signed_request H a target operation_id deadline key session_id imode)) (\<lambda>request.
       act_bind (lift_lib (h_verifier H key (sa_grant (rq_authority request)))) (\<lambda>_.
       act_bind (lift_res (ledger_path H)) (\<lambda>ledger.
       act_bind (act_map_err from_lib_error
         (host_call H (h_engine H) (Engine_Execute ledger request))) (\<lambda>report.
       lift_res (report_result H report)))))))"

definition execute_click ::
  "host \<Rightarrow> access_mode \<Rightarrow> string \<Rightarrow> string \<Rightarrow> string \<Rightarrow> interaction_mode \<Rightarrow> json exec" where
  "execute_click H mode operation_id observation_id tag imode =
     act_bind (lift_res (ensure_mutation mode)) (\<lambda>_.
     act_bind (cached_target H observation_id tag) (\<lambda>(target, deadline).
     execute_semantic H Invoke target operation_id deadline imode))"

definition execute_set_value ::
  "host \<Rightarrow> access_mode \<Rightarrow> string \<Rightarrow> string \<Rightarrow> string \<Rightarrow> string \<Rightarrow> interaction_mode \<Rightarrow> json exec" where
  "execute_set_value H mode operation_id observation_id tag value imode =
     act_bind (lift_res (ensure_mutation mode)) (\<lambda>_.
     act_bind (cached_target H observation_id tag) (\<lambda>(target, deadline).
     execute_semantic H (Set_Value value) target operation_id deadline imode))"

definition execute_move :: "access_mode \<Rightarrow> int \<Rightarrow> int \<Rightarrow> json option exec" where
  "execute_move mode x y =
     act_bind (lift_res (ensure_mutation mode)) (\<lambda>_. fail Coordinates_Unavailable)"

section \<open>The cache is bounded and keyed\<close>

text \<open>
  A cache of keyed entries with a limit: what an insertion promises, and what follows for a sequence
  of insertions that starts empty.
\<close>

locale bounded_cache =
  fixes ins :: "'a \<Rightarrow> 'a list \<Rightarrow> 'a list"
    and key :: "'a \<Rightarrow> 'k"
    and limit :: nat
  assumes ins_length: "length (ins x xs) \<le> limit"
    and ins_distinct: "distinct (map key xs) \<Longrightarrow> distinct (map key (ins x xs))"
    and ins_mem: "x \<in> set (ins x xs)"
    and ins_old: "set (ins x xs) \<subseteq> insert x (set xs)"
begin

definition cached_ok :: "'a list \<Rightarrow> bool" where
  "cached_ok xs \<longleftrightarrow> length xs \<le> limit \<and> distinct (map key xs)"

lemma ins_ok: "cached_ok xs \<Longrightarrow> cached_ok (ins x xs)"
  by (simp add: cached_ok_def ins_length ins_distinct)

lemma find_inserted:
  assumes "distinct (map key xs)"
  shows "find (\<lambda>c. key c = key x) (ins x xs) = Some x"
proof -
  have d: "distinct (map key (ins x xs))" using assms by (rule ins_distinct)
  have "find (\<lambda>c. key c = key x) (ins x xs) \<noteq> None" 
    using ins_mem by (auto simp: find_None_iff)
  then obtain y where y: "find (\<lambda>c. key c = key x) (ins x xs) = Some y" by blast
  then have "y \<in> set (ins x xs)" "key y = key x" by (auto simp: find_Some_iff)
  with d ins_mem have "y = x" by (auto simp: distinct_map dest: inj_onD)
  with y show ?thesis by simp
qed

end

lemma pop_to_limit_drop: "pop_to_limit os = drop (length os - max_cached_observations) os"
  by (induction os) (auto simp: Suc_diff_le)

lemma insert_observation_drop:
  "\<exists>n os'. insert_observation now obs os = drop n (os' @ [obs]) \<and> n \<le> length os' \<and>
     os' = filter (\<lambda>c. obs_expires_at_ms c > now \<and> obs_id c \<noteq> obs_id obs) os \<and>
     length (os' @ [obs]) - n \<le> max_cached_observations"
proof -
  let ?f = "filter (\<lambda>c. obs_expires_at_ms c > now \<and> obs_id c \<noteq> obs_id obs) os"
  have "insert_observation now obs os = drop (length (?f @ [obs]) - max_cached_observations) (?f @ [obs])"
    by (simp only: insert_observation_def pop_to_limit_drop filter_filter)
  then show ?thesis
    by (intro exI [of _ "length (?f @ [obs]) - max_cached_observations"] exI [of _ ?f])
       (auto simp: max_cached_observations_def)
qed

interpretation obs_cache: bounded_cache "insert_observation now" obs_id max_cached_observations
  for now
proof
  fix x xs
  obtain n os' where e: "insert_observation now x xs = drop n (os' @ [x])" "n \<le> length os'"
    and f: "os' = filter (\<lambda>c. obs_expires_at_ms c > now \<and> obs_id c \<noteq> obs_id x) xs"
    and l: "length (os' @ [x]) - n \<le> max_cached_observations"
    using insert_observation_drop [of now x xs] by blast
  show "length (insert_observation now x xs) \<le> max_cached_observations"
    using e(1) l by simp
  show "x \<in> set (insert_observation now x xs)" using e by simp
  show "set (insert_observation now x xs) \<subseteq> insert x (set xs)"
    using set_drop_subset [of n "os' @ [x]"] unfolding e(1) f by auto
  show "distinct (map obs_id xs) \<Longrightarrow> distinct (map obs_id (insert_observation now x xs))"
  proof -
    assume "distinct (map obs_id xs)"
    then have "distinct (map obs_id (os' @ [x]))"
      unfolding f by (auto simp: distinct_map inj_on_def)
    then show "distinct (map obs_id (insert_observation now x xs))"
      unfolding e(1) drop_map [symmetric] by (rule distinct_drop)
  qed
qed

definition cache_ok :: "observation list \<Rightarrow> bool" where
  "cache_ok os \<longleftrightarrow> length os \<le> max_cached_observations \<and> distinct (map obs_id os)"

lemma cache_ok_insert: "cache_ok os \<Longrightarrow> cache_ok (insert_observation now obs os)"
  using obs_cache.ins_ok [of os now obs] by (simp add: cache_ok_def obs_cache.cached_ok_def)

text \<open>Operations that leave the cache well-formed, whatever else they do.\<close>

definition cache_kept :: "world \<Rightarrow> world \<Rightarrow> bool" where
  "cache_kept w w' \<longleftrightarrow> (cache_ok (observations w) \<longrightarrow> cache_ok (observations w'))"

interpretation cache: effect_relation cache_kept
  by unfold_locales (auto simp: cache_kept_def)

lemma now_ms_eq:
  "now_ms H w =
     ((if h_clock_ms H (ticks w) < 0 then Inl (Exec_Io err_clock)
       else Inr (wrap_i64 (h_clock_ms H (ticks w)))), w\<lparr>ticks := Suc (ticks w)\<rparr>)"
  by (simp add: now_ms_def fail_def ret_def)

lemma host_call_state:
  assumes "host_call H f c w = (r, w')"
  shows "trace w' = trace w @ [c]" "observations w' = observations w" "r = f (trace w @ [c])"
    "host_authority w' = host_authority w" "rng_pos w' = rng_pos w"
  using assms by (auto simp: host_call_def Let_def)

lemma cache_now_ms: "keeps cache_kept (now_ms H)"
  by (rule keepsI) (simp add: now_ms_def cache_kept_def fail_def ret_def)

lemma cache_host_call: "keeps cache_kept (host_call H f c)"
  by (rule keepsI) (simp add: host_call_def cache_kept_def Let_def)

lemma cache_cache_observation: "keeps cache_kept (cache_observation H obs)"
proof -
  have "keeps cache_kept (act_bind get_observations (\<lambda>os.
      act_bind (now_ms H) (\<lambda>now. put_observations (insert_observation now obs os))))"
    by (rule keepsI)
       (simp add: get_observations_def act_bind_def now_ms_eq put_observations_def cache_kept_def
         cache_ok_insert)
  then show ?thesis
    unfolding cache_observation_def lift_lib_def
    by (rule cache.keeps_bind [OF cache_now_ms cache.keeps_bind [OF cache.keeps_lift_res]])
qed

lemma cache_observe_semantic: "keeps cache_kept (observe_semantic H)"
  unfolding observe_semantic_def
  by (intro cache.keeps_bind cache.keeps_map_err cache.keeps_ret cache_now_ms cache_host_call
      cache_cache_observation)

text \<open>
  C31. The observation cache never holds more than eight observations nor two with the same
  identifier, across every snapshot, failed ones included; an observation returned by a snapshot is
  then the one found under its identifier.
\<close>

theorem observation_cache_bounded:
  assumes "cache_ok (observations w)" and "observe_semantic H w = (r, w')"
  shows "cache_ok (observations w') \<and>
    (\<forall>obs. r = Inr obs \<longrightarrow> find (\<lambda>c. obs_id c = obs_id obs) (observations w') = Some obs)"
proof
  show "cache_ok (observations w')"
    using keepsD [OF cache_observe_semantic assms(2)] assms(1) by (simp add: cache_kept_def)
  show "\<forall>obs. r = Inr obs \<longrightarrow> find (\<lambda>c. obs_id c = obs_id obs) (observations w') = Some obs"
  proof (intro allI impI)
    fix obs
    assume "r = Inr obs"
    with assms(2) obtain w1 c e where
      h: "host_call H (h_observe H) c (w\<lparr>ticks := Suc (ticks w)\<rparr>) = (e, w1)"
      and c: "cache_observation H obs w1 = (Inr (), w')"
      by (auto simp: observe_semantic_def act_bind_eq_Inr act_map_err_eq_Inr now_ms_eq
          split: if_splits)
    from host_call_state(2) [OF h] have w1: "observations w1 = observations w" by simp
    from c obtain now where "observations w' = insert_observation now obs (observations w1)"
      by (auto simp: cache_observation_def act_bind_eq_Inr now_ms_eq lift_lib_def
          get_observations_def put_observations_def split: if_splits)
    moreover have "distinct (map obs_id (observations w1))" using assms(1) w1 by (simp add: cache_ok_def)
    ultimately show "find (\<lambda>c. obs_id c = obs_id obs) (observations w') = Some obs"
      by (simp add: obs_cache.find_inserted)
  qed
qed


text \<open>A host whose backends answer, for concrete instances.\<close>

definition demo_observation :: observation where
  "demo_observation = \<lparr>obs_id = ''o1'', obs_expires_at_ms = 30000, obs_detail = Null\<rparr>"

definition sight_host :: host where
  "sight_host = demo_host\<lparr>h_observe := \<lambda>_. Inr demo_observation,
     h_obs_target := \<lambda>obs tag. Inr \<lparr>st_observation_id = obs_id obs, st_detail = Str tag\<rparr>,
     h_capabilities := \<lambda>_. Inr \<lparr>supported_actions = [''invoke''], cap_detail = Null\<rparr>,
     h_verifier := \<lambda>_ _. Inr (), h_engine := \<lambda>_. Inr \<lparr>acknowledgements = []\<rparr>\<rparr>"

lemmas demo_defs = demo_host_def demo_world_def sight_host_def demo_observation_def

lemma observe_sight:
  "\<exists>w'. observe_semantic sight_host demo_world = (Inr demo_observation, w') \<and>
     observations w' = [demo_observation]"
  by (simp add: observe_semantic_def cache_observation_def act_bind_def now_ms_eq host_call_def
      lift_lib_def lift_res_def get_observations_def put_observations_def act_map_err_def ret_def
      insert_observation_def max_cached_observations_def demo_defs)

theorem observation_cache_bounded_witness:
  "cache_ok (observations (snd (observe_semantic sight_host demo_world))) \<and>
   find (\<lambda>c. obs_id c = ''o1'') (observations (snd (observe_semantic sight_host demo_world))) =
     Some demo_observation"
proof -
  obtain w' where w': "observe_semantic sight_host demo_world = (Inr demo_observation, w')"
    using observe_sight by blast
  moreover have "cache_ok (observations demo_world)" by (simp add: cache_ok_def demo_world_def)
  ultimately show ?thesis
    using observation_cache_bounded [of demo_world sight_host] by (auto simp: demo_observation_def)
qed

section \<open>Targets come from live observations\<close>

lemma cached_target_eq:
  "cached_target H ident tag w =
     (case find (\<lambda>c. obs_id c = ident) (observations w) of
        None \<Rightarrow> (Inl Semantic_Unavailable, w)
      | Some obs \<Rightarrow>
          ((if h_clock_ms H (ticks w) < 0 then Inl (Exec_Io err_clock)
            else res_bind (map_err from_lib_error (h_obs_validate H obs (wrap_i64 (h_clock_ms H (ticks w)))))
              (\<lambda>_. res_bind (map_err from_lib_error (h_obs_target H obs tag))
                (\<lambda>target. Inr (target, obs_expires_at_ms obs)))),
           w\<lparr>ticks := Suc (ticks w)\<rparr>))"
  by (simp add: cached_target_def get_observations_def act_bind_def now_ms_eq lift_lib_def
      lift_res_def ret_def ok_or_def res_bind_def split: option.split sum.split)

text \<open>
  A semantic target is only ever made from a cached observation with the requested identifier
  that is still valid at the moment of the call, and the deadline of the action is that observation's
  expiry; an identifier that is not cached is refused. Looking a target up makes no host call and
  leaves the cache as it was.
\<close>

theorem target_is_observation_bound:
  "\<exists>r w'. cached_target H ident tag w = (r, w') \<and> only_logs w w' \<and>
     (case r of
        Inr (target, deadline) \<Rightarrow>
          \<exists>obs \<in> set (observations w). obs_id obs = ident \<and> obs_expires_at_ms obs = deadline \<and>
            0 \<le> h_clock_ms H (ticks w) \<and>
            h_obs_validate H obs (wrap_i64 (h_clock_ms H (ticks w))) = Inr () \<and>
            h_obs_target H obs tag = Inr target
      | Inl e \<Rightarrow> ident \<notin> set (map obs_id (observations w)) \<longrightarrow> e = Semantic_Unavailable)"
proof (cases "find (\<lambda>c. obs_id c = ident) (observations w)")
  case None
  then show ?thesis by (simp add: cached_target_eq only_logs_def)
next
  case (Some obs)
  then have "obs \<in> set (observations w)" "obs_id obs = ident"
    by (auto simp: find_Some_iff)
  then show ?thesis
    using Some by (auto simp: cached_target_eq only_logs_def res_bind_def map_err_def
        split: sum.split)
qed

theorem target_is_observation_bound_witness:
  "\<exists>r w'. cached_target sight_host ''o2'' ''e0'' demo_world = (r, w') \<and> only_logs demo_world w' \<and>
     r = Inl Semantic_Unavailable"
proof -
  obtain r w' where c: "cached_target sight_host ''o2'' ''e0'' demo_world = (r, w')"
    "only_logs demo_world w'"
    "case r of
        Inr (target, deadline) \<Rightarrow>
          \<exists>obs \<in> set (observations demo_world). obs_id obs = ''o2'' \<and>
            obs_expires_at_ms obs = deadline \<and> 0 \<le> h_clock_ms sight_host (ticks demo_world) \<and>
            h_obs_validate sight_host obs (wrap_i64 (h_clock_ms sight_host (ticks demo_world))) = Inr () \<and>
            h_obs_target sight_host obs ''e0'' = Inr target
      | Inl e \<Rightarrow> ''o2'' \<notin> set (map obs_id (observations demo_world)) \<longrightarrow> e = Semantic_Unavailable"
    using target_is_observation_bound [of sight_host "''o2''" "''e0''" demo_world] by blast
  then have "r = Inl Semantic_Unavailable"
    by (auto simp: demo_world_def split: sum.splits)
  with c show ?thesis by blast
qed

section \<open>The operation ledger has one place\<close>

lemma path_join_abs: "path_abs p \<Longrightarrow> path_abs (path_join p s)"
  by (simp add: path_join_def Let_def)

text \<open>
  The ledger of executed operations always has an absolute path, under \<open>XDG_STATE_HOME\<close> when that
  is set and not empty and under \<open>HOME/.local/state\<close> otherwise; a relative \<open>XDG_STATE_HOME\<close> is
  refused, it never falls back to the home directory.
\<close>

theorem ledger_path_is_absolute:
  "(\<forall>p. ledger_path_from xdg home = Some p \<longrightarrow> path_abs p) \<and>
   (\<forall>x. xdg = Some (Path False (x # xs)) \<longrightarrow> ledger_path_from xdg home = None) \<and>
   ledger_path_from (Some (Path True cs)) home =
     Some (Path True (cs @ [''folk-around'', ''praefectus'', ''operations.jsonl''])) \<and>
   ledger_path_from None (Some (Path True cs)) =
     Some (Path True (cs @ [''.local'', ''state'', ''folk-around'', ''praefectus'', ''operations.jsonl'']))"
proof (intro conjI)
  have join: "path_join p s = Path (path_abs p) (path_comps p @ [s])"
    if "s \<in> {''folk-around'', ''praefectus'', ''operations.jsonl'', ''.local'', ''state''}" for p s
    using that by (intro path_join_file_name) (auto simp: is_file_name_def)
  show "\<forall>p. ledger_path_from xdg home = Some p \<longrightarrow> path_abs p"
    by (auto simp: ledger_path_from_def Let_def path_join_abs split: option.splits if_splits)
  show "\<forall>x. xdg = Some (Path False (x # xs)) \<longrightarrow> ledger_path_from xdg home = None"
    by (auto simp: ledger_path_from_def nonempty_path_def path_is_empty_def)
  show "ledger_path_from (Some (Path True cs)) home =
     Some (Path True (cs @ [''folk-around'', ''praefectus'', ''operations.jsonl'']))"
    by (simp add: ledger_path_from_def nonempty_path_def path_is_empty_def join)
  show "ledger_path_from None (Some (Path True cs)) =
     Some (Path True (cs @ [''.local'', ''state'', ''folk-around'', ''praefectus'', ''operations.jsonl'']))"
    by (simp add: ledger_path_from_def nonempty_path_def path_is_empty_def join)
qed

theorem ledger_path_is_absolute_witness:
  "ledger_path_from (Some (Path False [''state''])) (Some (Path True [''h''])) = None \<and>
   ledger_path_from None (Some (Path True [''h''])) =
     Some (Path True [''h'', ''.local'', ''state'', ''folk-around'', ''praefectus'', ''operations.jsonl''])"
  using ledger_path_is_absolute [of "Some (Path False [''state''])" "Some (Path True [''h''])" "[]" "[''h'']"]
  by simp

section \<open>Retrying\<close>

text \<open>
  An operation is reported as safe to retry exactly when the engine acknowledged a terminal state
  and every terminal state it acknowledged proves that nothing happened (rejected, or cancelled or
  expired before an effect): a success, a failure or an unknown outcome anywhere rules it out.
\<close>

theorem retry_safe_iff_no_effect_proved:
  "report_is_retry_safe report \<longleftrightarrow>
     (\<exists>a \<in> set (acknowledgements report). \<exists>t. ack_state a = Ack_Terminal t) \<and>
     (\<forall>a \<in> set (acknowledgements report). \<forall>t. ack_state a = Ack_Terminal t \<longrightarrow>
        (\<exists>c m. t = Rejected c m) \<or> t = Cancelled_Before_Effect \<or> t = Expired_Before_Effect)"
proof -
  have no_effect: "terminal_proves_no_effect t \<longleftrightarrow>
      (\<exists>c m. t = Rejected c m) \<or> t = Cancelled_Before_Effect \<or> t = Expired_Before_Effect" for t
    by (cases t) auto
  have mem: "t \<in> set (List.map_filter ack_terminal as) \<longleftrightarrow> (\<exists>a \<in> set as. ack_state a = Ack_Terminal t)"
    for t as
    by (induction as) (auto simp: List.map_filter_simps split: ack_state.split)
  let ?ts = "List.map_filter ack_terminal (acknowledgements report)"
  have "report_is_retry_safe report \<longleftrightarrow> ?ts \<noteq> [] \<and>
      (\<forall>t. t \<in> set ?ts \<longrightarrow> terminal_proves_no_effect t)"
    by (cases ?ts) (auto simp: report_is_retry_safe_def list_all_iff)
  moreover have "?ts \<noteq> [] \<longleftrightarrow> (\<exists>t. t \<in> set ?ts)" by (cases ?ts) auto
  ultimately have "report_is_retry_safe report \<longleftrightarrow>
      (\<exists>t. \<exists>a \<in> set (acknowledgements report). ack_state a = Ack_Terminal t) \<and>
      (\<forall>t. (\<exists>a \<in> set (acknowledgements report). ack_state a = Ack_Terminal t) \<longrightarrow>
        terminal_proves_no_effect t)"
    by (simp only: mem)
  then show ?thesis unfolding no_effect by blast
qed

definition unsure_report :: execute_report where
  "unsure_report = \<lparr>acknowledgements =
     [\<lparr>ack_sequence = 0, ack_replayed = False, ack_state = Ack_Terminal Cancelled_Before_Effect, ack_detail = Null\<rparr>,
      \<lparr>ack_sequence = 1, ack_replayed = False, ack_state = Ack_Terminal (Outcome_Unknown Null []), ack_detail = Null\<rparr>]\<rparr>"

theorem retry_safe_iff_no_effect_proved_witness:
  "\<not> report_is_retry_safe unsure_report"
  unfolding retry_safe_iff_no_effect_proved by (simp add: unsure_report_def)

section \<open>Authorised requests\<close>

lemma signed_request_fields:
  assumes "signed_request H a target op dl key sid im = Inr req"
  shows "rq_action req = a" "rq_target req = target" "rq_operation_id req = op"
    "rq_deadline_at_ms req = dl" "rq_session_id req = sid" "rq_interaction_mode req = im"
    "rq_safety req = External" "rq_verification req = snd (action_policy H a)"
  using assms
  by (auto simp: signed_request_def unsigned_request_def res_bind_eq_Inr Let_def action_policy_def)

text \<open>
  C32. The authority grant of a request says exactly what the request says: the same operation,
  subject, session, risk and protocol version, valid until the request's deadline, bound to the hash
  of the action; its signature is the host key's over the canonical bytes of that very grant. A value
  to be set is verified by the hash of the value.
\<close>

theorem signed_request_is_consistent:
  assumes "signed_request H a target op dl key sid im = Inr req"
  shows "gr_operation_id (sa_grant (rq_authority req)) = rq_operation_id req \<and>
    gr_subject (sa_grant (rq_authority req)) = rq_subject req \<and>
    gr_session_id (sa_grant (rq_authority req)) = rq_session_id req \<and>
    gr_risk (sa_grant (rq_authority req)) = rq_safety req \<and>
    gr_protocol_version (sa_grant (rq_authority req)) = rq_protocol_version req \<and>
    gr_expires_at_ms (sa_grant (rq_authority req)) = rq_deadline_at_ms req \<and>
    h_action_hash H (unsigned_request H a target op dl sid im) =
      Inr (gr_action_hash (sa_grant (rq_authority req))) \<and>
    (\<exists>bs. h_authority_bytes H (sa_grant (rq_authority req)) = Inr bs \<and>
      sa_signature (rq_authority req) = hex_bytes (h_sign H key bs)) \<and>
    (\<forall>v. a = Set_Value v \<longrightarrow> rq_verification req = Target_Value_Hash (hex_bytes (h_sha256 H v)))"
proof -
  from assms obtain hash bs where
    h: "h_action_hash H (unsigned_request H a target op dl sid im) = Inr hash"
    and b: "h_authority_bytes H
        ((sa_grant (rq_authority (unsigned_request H a target op dl sid im)))\<lparr>gr_action_hash := hash\<rparr>)
        = Inr bs"
    and r: "req = (unsigned_request H a target op dl sid im)\<lparr>rq_authority :=
        \<lparr>sa_grant = (sa_grant (rq_authority (unsigned_request H a target op dl sid im)))
             \<lparr>gr_action_hash := hash\<rparr>,
         sa_signature = hex_bytes (h_sign H key bs)\<rparr>\<rparr>"
    by (auto simp: signed_request_def res_bind_eq_Inr map_err_eq_Inr Let_def)
  show ?thesis
    using h b unfolding r
    by (auto simp: unsigned_request_def action_policy_def value_hash_def Let_def)
qed

theorem signed_request_is_consistent_witness:
  "\<exists>req. signed_request demo_host (Set_Value ''v'') \<lparr>st_observation_id = ''o1'', st_detail = Null\<rparr>
       ''op:1'' 30000 [] ''s'' Interactive = Inr req \<and>
     rq_verification req = Target_Value_Hash (hex_bytes (h_sha256 demo_host ''v''))"
proof -
  have "\<exists>req. signed_request demo_host (Set_Value ''v'')
      \<lparr>st_observation_id = ''o1'', st_detail = Null\<rparr> ''op:1'' 30000 [] ''s'' Interactive = Inr req"
    by (simp add: signed_request_def demo_host_def Let_def)
  then obtain req where r: "signed_request demo_host (Set_Value ''v'')
      \<lparr>st_observation_id = ''o1'', st_detail = Null\<rparr> ''op:1'' 30000 [] ''s'' Interactive = Inr req"
    by blast
  with signed_request_is_consistent [OF r] show ?thesis by blast
qed

section \<open>The engine runs at most once\<close>

text \<open>
  The effect of an accepted semantic action: either nothing reached the backends, or only the
  capability query, or the query followed by one engine run of the request that was asked for.
\<close>

definition request_asked ::
  "host \<Rightarrow> observation list \<Rightarrow> action \<Rightarrow> string \<Rightarrow> string \<Rightarrow> string \<Rightarrow> interaction_mode \<Rightarrow>
   action_request \<Rightarrow> bool" where
  "request_asked H os a op ident tag im req \<longleftrightarrow>
     rq_action req = a \<and> rq_operation_id req = op \<and> rq_interaction_mode req = im \<and>
     (\<exists>obs \<in> set os. obs_id obs = ident \<and> h_obs_target H obs tag = Inr (rq_target req) \<and>
        rq_deadline_at_ms req = obs_expires_at_ms obs)"

definition one_engine_run :: "(action_request \<Rightarrow> bool) \<Rightarrow> world \<Rightarrow> world \<Rightarrow> bool" where
  "one_engine_run asked w w' \<longleftrightarrow>
     trace w' = trace w \<or> trace w' = trace w @ [Query_Capabilities] \<or>
     (\<exists>ledger req. trace w' = trace w @ [Query_Capabilities, Engine_Execute ledger req] \<and>
        path_abs ledger \<and> asked req)"

lemma get_host_authority_state:
  "\<exists>a w'. get_host_authority H w = (Inr a, w') \<and> trace w' = trace w \<and>
     host_authority w' = Some a \<and> (\<forall>b. host_authority w = Some b \<longrightarrow> a = b \<and> w' = w)"
  by (cases "host_authority w") (auto simp: get_host_authority_def Let_def)

lemma ledger_path_abs: "ledger_path H = Inr p \<Longrightarrow> path_abs p"
  by (auto simp: ledger_path_def ok_or_eq_Inr ledger_path_from_def Let_def path_join_abs
      split: option.splits if_splits)

lemma execute_semantic_trace:
  assumes "execute_semantic H a target op dl im w = (r, w')"
  shows "one_engine_run (\<lambda>req. rq_action req = a \<and> rq_operation_id req = op \<and>
      rq_interaction_mode req = im \<and> rq_target req = target \<and> rq_deadline_at_ms req = dl) w w'"
    (is "one_engine_run ?ok w w'")
proof -
  obtain v w1 where q: "host_call H (h_capabilities H) Query_Capabilities w = (v, w1)"
    by (cases "host_call H (h_capabilities H) Query_Capabilities w")
  note t1 = host_call_state(1) [OF q]
  obtain au w2 where au: "get_host_authority H w1 = (Inr au, w2)" and t2: "trace w2 = trace w1"
    using get_host_authority_state by blast
  obtain key sid where ks: "au = (key, sid)" by (cases au)
  let ?sr = "signed_request H a target op dl key sid im"
  show ?thesis
  proof (cases "\<exists>req led. ?sr = Inr req \<and> ledger_path H = Inr led \<and>
      h_verifier H key (sa_grant (rq_authority req)) = Inr () \<and>
      (\<exists>caps. v = Inr caps \<and> supports_action caps (action_name a))")
    case True
    then obtain req led caps where s: "?sr = Inr req" "ledger_path H = Inr led"
      "h_verifier H key (sa_grant (rq_authority req)) = Inr ()" "v = Inr caps"
      "supports_action caps (action_name a)" by blast
    obtain e w3 where e: "host_call H (h_engine H) (Engine_Execute led req) w2 = (e, w3)"
      by (cases "host_call H (h_engine H) (Engine_Execute led req) w2")
    have "w' = w3"
      using assms q au ks s e
      by (cases e) (simp_all add: execute_semantic_def act_bind_def act_map_err_def lift_lib_def
          lift_res_def)
    with host_call_state(1) [OF e] t1 t2 have
      "trace w' = trace w @ [Query_Capabilities, Engine_Execute led req]" by simp
    with ledger_path_abs [OF s(2)] signed_request_fields [OF s(1)] show ?thesis
      unfolding one_engine_run_def by blast
  next
    case False
    have "w' = w1 \<or> w' = w2"
      using assms q au ks False
      by (auto simp: execute_semantic_def act_bind_def act_map_err_def lift_lib_def lift_res_def
          map_err_def fail_def split: sum.splits prod.splits if_splits)
    with t1 t2 show ?thesis unfolding one_engine_run_def by auto
  qed
qed

lemma execute_target_trace:
  assumes "act_bind (lift_res (ensure_mutation mode)) (\<lambda>_.
      act_bind (cached_target H ident tag) (\<lambda>(target, dl). execute_semantic H a target op dl im)) w
    = (r, w')"
  shows "(mode \<noteq> Full \<longrightarrow> r = Inl Blocked \<and> w' = w) \<and>
    one_engine_run (request_asked H (observations w) a op ident tag im) w w'"
proof (cases "mode = Full")
  case False
  with assms show ?thesis by (auto simp: ensure_mutation_def one_engine_run_def)
next
  case True
  obtain v w1 where c: "cached_target H ident tag w = (v, w1)"
    by (cases "cached_target H ident tag w")
  then have t1: "trace w1 = trace w"
    by (auto simp: cached_target_eq split: option.splits)
  show ?thesis
  proof (cases v)
    case (Inl e)
    with assms True c t1 show ?thesis by (auto simp: ensure_mutation_def act_bind_def one_engine_run_def)
  next
    case (Inr td)
    obtain target dl where td: "td = (target, dl)" by (cases td)
    from assms True c Inr td have "execute_semantic H a target op dl im w1 = (r, w')"
      by (simp add: ensure_mutation_def act_bind_Inr)
    from execute_semantic_trace [OF this] have one: "one_engine_run (\<lambda>req. rq_action req = a \<and>
        rq_operation_id req = op \<and> rq_interaction_mode req = im \<and> rq_target req = target \<and>
        rq_deadline_at_ms req = dl) w1 w'" .
    from c Inr td have "\<exists>obs \<in> set (observations w). obs_id obs = ident \<and>
        h_obs_target H obs tag = Inr target \<and> obs_expires_at_ms obs = dl"
      by (auto simp: cached_target_eq res_bind_eq_Inr map_err_eq_Inr find_Some_iff
          split: option.splits if_splits)
    with one t1 True show ?thesis
      unfolding one_engine_run_def request_asked_def by auto
  qed
qed

text \<open>
  C11. A click or a value change reaches the automation engine at most once per call, whatever fails
  on the way, and then with the request that was asked for: the caller's operation id, action and
  interaction mode on the target of the named observation, not past that observation's expiry, with
  an absolute ledger path. Outside full mode both are refused before anything is looked up.
\<close>

theorem engine_runs_at_most_once:
  "(\<forall>r w'. execute_click H mode op ident tag im w = (r, w') \<longrightarrow>
      (mode \<noteq> Full \<longrightarrow> r = Inl Blocked \<and> w' = w) \<and>
      one_engine_run (request_asked H (observations w) Invoke op ident tag im) w w') \<and>
   (\<forall>r w'. execute_set_value H mode op ident tag v im w = (r, w') \<longrightarrow>
      (mode \<noteq> Full \<longrightarrow> r = Inl Blocked \<and> w' = w) \<and>
      one_engine_run (request_asked H (observations w) (Set_Value v) op ident tag im) w w')"
  unfolding execute_click_def execute_set_value_def using execute_target_trace by blast

text \<open>On a host whose engine answers, the one run does happen.\<close>

definition seen_world :: world where
  "seen_world = demo_world\<lparr>observations := [demo_observation]\<rparr>"

lemma click_runs_engine:
  "\<exists>ledger req w'. execute_click sight_host Full ''op:1'' ''o1'' ''e0'' Interactive seen_world =
       (Inr (text_result []), w') \<and> trace w' = [Query_Capabilities, Engine_Execute ledger req]"
proof -
  have "\<exists>ledger. ledger_path sight_host = Inr ledger"
    by (simp add: ledger_path_def ledger_path_from_def demo_defs nonempty_path_def path_is_empty_def
        path_from_def starts_with_def Let_def)
  then obtain ledger where "ledger_path sight_host = Inr ledger" by blast
  then show ?thesis
    by (simp add: execute_click_def ensure_mutation_def cached_target_eq act_bind_def lift_res_def
        execute_semantic_def host_call_def act_map_err_def get_host_authority_def fill_bytes_def
        lift_lib_def signed_request_def report_result_def supports_action_def seen_world_def
        json_text_result_def demo_defs Let_def)
qed

theorem engine_runs_at_most_once_witness:
  "execute_click sight_host Limited ''op:1'' ''o1'' ''e0'' Interactive seen_world =
     (Inl Blocked, seen_world) \<and>
   one_engine_run (request_asked sight_host [demo_observation] Invoke ''op:1'' ''o1'' ''e0'' Interactive)
     seen_world (snd (execute_click sight_host Full ''op:1'' ''o1'' ''e0'' Interactive seen_world))"
proof -
  note t = engine_runs_at_most_once [of sight_host _ "''op:1''" "''o1''" "''e0''" Interactive seen_world
      "[]", THEN conjunct1, THEN spec, THEN spec, THEN mp, OF surjective_pairing]
  show ?thesis
    using t [of Limited] t [of Full] by (auto simp: prod_eq_iff seen_world_def)
qed

end
