(* ===== verification/Tools_Args.thy ===== *)
theory Tools_Args
  imports Adapter
begin

text \<open>
  The crate \<open>folk-computer-use\<close> (\<open>src/crates/folk-computer-use/src/lib.rs\<close>), first part: what the
  tools accept. Argument extraction, the strict arguments of the semantic tools, the access checks and
  the command allowlist of the limited and sandbox modes.
\<close>

section \<open>Arguments\<close>

definition str_arg :: "json \<Rightarrow> string \<Rightarrow> string option" where
  "str_arg args key = Option.bind (jget args key) as_str"

definition bool_arg :: "json \<Rightarrow> string \<Rightarrow> bool option" where
  "bool_arg args key = Option.bind (jget args key) as_bool"

definition u64_arg :: "json \<Rightarrow> string \<Rightarrow> nat option" where
  "u64_arg args key = Option.bind (jget args key) as_u64"

text \<open>\<open>int_arg\<close>: an integer of \<open>i64\<close>, or a floating-point number cast to it.\<close>

definition int_arg :: "json \<Rightarrow> string \<Rightarrow> int option" where
  "int_arg args key =
     (case jget args key of
        None \<Rightarrow> None
      | Some v \<Rightarrow>
          (case as_i64 v of
             Some i \<Rightarrow> Some i
           | None \<Rightarrow> map_option f64_as_i64 (as_f64 v)))"

definition need_str :: "json \<Rightarrow> string \<Rightarrow> tool_exec_error + string" where
  "need_str args key = ok_or (Missing key) (str_arg args key)"

definition need_int :: "json \<Rightarrow> string \<Rightarrow> tool_exec_error + int" where
  "need_int args key = ok_or (Missing key) (int_arg args key)"

section \<open>The strict arguments of the semantic tools\<close>

definition ensure_exact_args :: "json \<Rightarrow> string list \<Rightarrow> tool_exec_error + unit" where
  "ensure_exact_args args allowed =
     res_bind (ok_or Invalid_Arguments (as_object args)) (\<lambda>m.
     if list_all (\<lambda>k. k \<in> set allowed) (obj_keys m) then Inr () else Inl Invalid_Arguments)"

definition semantic_keys :: "bool \<Rightarrow> string list" where
  "semantic_keys set_value =
     (if set_value
      then [''operation_id'', ''observation_id'', ''tag'', ''value'', ''interaction_mode'']
      else [''operation_id'', ''observation_id'', ''tag'', ''interaction_mode''])"

definition valid_operation_id :: "string \<Rightarrow> bool" where
  "valid_operation_id s \<longleftrightarrow> s \<noteq> [] \<and> length s \<le> 256 \<and>
     list_all (\<lambda>c. is_ascii_alphanumeric c \<or> c \<in> set ''-_:'') s"

definition valid_observation_id :: "string \<Rightarrow> bool" where
  "valid_observation_id s \<longleftrightarrow> length s = 64 \<and> list_all is_lower_hex s"

definition valid_tag :: "string \<Rightarrow> bool" where
  "valid_tag s \<longleftrightarrow>
     (case strip_prefix ''e'' s of
        None \<Rightarrow> False
      | Some index \<Rightarrow> index \<noteq> [] \<and> length index \<le> 4 \<and> list_all is_ascii_digit index)"

definition max_value_bytes :: nat where
  "max_value_bytes = 16 * 1024"

definition ensure_semantic_args :: "json \<Rightarrow> bool \<Rightarrow> tool_exec_error + unit" where
  "ensure_semantic_args args set_value =
     res_bind (ensure_exact_args args (semantic_keys set_value)) (\<lambda>_.
     res_bind (ok_or Invalid_Arguments (str_arg args ''operation_id'')) (\<lambda>operation_id.
     res_bind (ok_or Invalid_Arguments (str_arg args ''observation_id'')) (\<lambda>observation_id.
     res_bind (ok_or Invalid_Arguments (str_arg args ''tag'')) (\<lambda>tag.
     if valid_operation_id operation_id \<and> valid_observation_id observation_id \<and> valid_tag tag \<and>
        (\<not> set_value \<or>
          (case str_arg args ''value'' of None \<Rightarrow> False | Some v \<Rightarrow> length v \<le> max_value_bytes)) \<and>
        (case str_arg args ''interaction_mode'' of
           None \<Rightarrow> False | Some m \<Rightarrow> m = ''interactive'' \<or> m = ''background_only'')
     then Inr () else Inl Invalid_Arguments))))"

definition interaction_mode_arg :: "json \<Rightarrow> tool_exec_error + interaction_mode" where
  "interaction_mode_arg args =
     (case str_arg args ''interaction_mode'' of
        None \<Rightarrow> Inl Invalid_Arguments
      | Some m \<Rightarrow>
          if m = ''interactive'' then Inr Interactive
          else if m = ''background_only'' then Inr Background_Only
          else Inl Invalid_Arguments)"

section \<open>Access checks\<close>

definition ensure_safe_focus_or_full :: "access_mode \<Rightarrow> string \<Rightarrow> tool_exec_error + unit" where
  "ensure_safe_focus_or_full mode a =
     (if a = ''list'' \<or> a = ''focus'' \<or> a = ''activate'' then Inr () else ensure_mutation mode)"

section \<open>The command allowlist\<close>

definition safe_commands :: "string list" where
  "safe_commands =
     [''ls'', ''cat'', ''grep'', ''find'', ''head'', ''tail'', ''wc'', ''curl'', ''echo'', ''date'', ''whoami'',
      ''hostname'', ''uname'', ''which'', ''pwd'', ''ps'', ''uptime'', ''df'', ''du'']"

definition restricted_shell_chars :: "char list" where
  "restricted_shell_chars =
     [CHR '';'', CHR ''&'', CHR ''|'', CHR ''<'', CHR ''>'', CHR ''('', CHR '')'', CHR ''{'', CHR ''}'',
      CHR ''['', CHR '']'', CHR ''$'', CHR 0x60, CHR 0x5C, CHR 0x27, CHR 0x22, CHR ''*'', CHR ''?'',
      CHR ''~'', CHR 0x0A, CHR 0x0D]"

definition restricted_command :: "string \<Rightarrow> (string \<times> string list) option" where
  "restricted_command command =
     (if list_ex (\<lambda>c. c \<in> set restricted_shell_chars) command then None
      else
        (case split_whitespace command of
           [] \<Rightarrow> None
         | program # parts \<Rightarrow>
             if program \<in> set safe_commands then Some (program, parts) else None))"

section \<open>Argument schemas\<close>

definition bool_property :: "string \<Rightarrow> json" where
  "bool_property description =
     jobj [(''type'', Str ''boolean''), (''description'', Str description)]"

definition constrained_string_property :: "string \<Rightarrow> nat \<Rightarrow> nat \<Rightarrow> string \<Rightarrow> json" where
  "constrained_string_property description min_length max_length pattern =
     jobj [(''type'', Str ''string''), (''description'', Str description),
       (''minLength'', jnat min_length), (''maxLength'', jnat max_length), (''pattern'', Str pattern)]"

definition interaction_mode_property :: json where
  "interaction_mode_property =
     jobj [(''type'', Str ''string''),
       (''description'', Str ''Delivery mode: interactive or background_only''),
       (''enum'', Array [Str ''interactive'', Str ''background_only''])]"

definition schema :: "(string \<times> json) list \<Rightarrow> string list \<Rightarrow> json" where
  "schema entries required = object_schema (members entries) required"

definition strict_schema :: "(string \<times> json) list \<Rightarrow> string list \<Rightarrow> json" where
  "strict_schema entries required =
     json_set ''additionalProperties'' (Bool False) (schema entries required)"

section \<open>What the checks accept\<close>

lemma ensure_exact_args_ok:
  "ensure_exact_args args allowed = Inr () \<longleftrightarrow>
     (\<exists>m. args = Object m \<and> set (obj_keys m) \<subseteq> set allowed)"
  by (cases args) (auto simp: ensure_exact_args_def list_all_iff)

text \<open>
  The arguments of a click (\<open>set_value\<close> false) or a value change (true) are accepted exactly when
  they form an object without unknown members whose operation id has 1 to 256 bytes of
  \<open>[A-Za-z0-9_:-]\<close>, whose observation id is 64 lower-case hexadecimal digits, whose tag is \<open>e\<close> with one
  to four digits, whose interaction mode is one of the two, and, for a value change, whose value is a
  string of at most 16 KiB.
\<close>

theorem semantic_args_iff:
  "ensure_semantic_args args set_value = Inr () \<longleftrightarrow>
     (\<exists>m op ob tag im. args = Object m \<and> set (obj_keys m) \<subseteq> set (semantic_keys set_value) \<and>
        str_arg args ''operation_id'' = Some op \<and> 1 \<le> length op \<and> length op \<le> 256 \<and>
          (\<forall>c \<in> set op. is_ascii_alphanumeric c \<or> c \<in> {CHR ''-'', CHR ''_'', CHR '':''}) \<and>
        str_arg args ''observation_id'' = Some ob \<and> length ob = 64 \<and> (\<forall>c \<in> set ob. is_lower_hex c) \<and>
        str_arg args ''tag'' = Some (CHR ''e'' # tag) \<and> 1 \<le> length tag \<and> length tag \<le> 4 \<and>
          (\<forall>c \<in> set tag. is_ascii_digit c) \<and>
        interaction_mode_arg args = Inr im \<and>
        (set_value \<longrightarrow> (\<exists>v. str_arg args ''value'' = Some v \<and> length v \<le> 16384)))"
  (is "?l \<longleftrightarrow> ?r")
proof -
  have tag: "valid_tag t \<longleftrightarrow> (\<exists>i. t = CHR ''e'' # i \<and> 1 \<le> length i \<and> length i \<le> 4 \<and>
      (\<forall>c \<in> set i. is_ascii_digit c))" for t
    by (cases t) (auto simp: valid_tag_def list_all_iff Suc_le_eq)
  have im: "(case str_arg args ''interaction_mode'' of None \<Rightarrow> False
      | Some m \<Rightarrow> m = ''interactive'' \<or> m = ''background_only'') \<longleftrightarrow>
      (\<exists>im. interaction_mode_arg args = Inr im)"
    by (auto simp: interaction_mode_arg_def split: option.split)
  have op: "valid_operation_id s \<longleftrightarrow> 1 \<le> length s \<and> length s \<le> 256 \<and>
      (\<forall>c \<in> set s. is_ascii_alphanumeric c \<or> c \<in> {CHR ''-'', CHR ''_'', CHR '':''})" for s
    by (cases s) (auto simp: valid_operation_id_def list_all_iff)
  have val: "(\<not> set_value \<or> (case str_arg args ''value'' of None \<Rightarrow> False
      | Some v \<Rightarrow> length v \<le> max_value_bytes)) \<longleftrightarrow>
      (set_value \<longrightarrow> (\<exists>v. str_arg args ''value'' = Some v \<and> length v \<le> 16384))"
    by (auto simp: max_value_bytes_def split: option.split)
  have "?l \<longleftrightarrow> (\<exists>m. args = Object m \<and> set (obj_keys m) \<subseteq> set (semantic_keys set_value)) \<and>
      (\<exists>op ob t. str_arg args ''operation_id'' = Some op \<and> str_arg args ''observation_id'' = Some ob \<and>
        str_arg args ''tag'' = Some t \<and> valid_operation_id op \<and> valid_observation_id ob \<and> valid_tag t \<and>
        (set_value \<longrightarrow> (\<exists>v. str_arg args ''value'' = Some v \<and> length v \<le> 16384)) \<and>
        (\<exists>im. interaction_mode_arg args = Inr im))"
    unfolding ensure_semantic_args_def im val
    by (auto simp: res_bind_eq_Inr ok_or_eq_Inr ensure_exact_args_ok split: if_splits)
  also have "\<dots> \<longleftrightarrow> ?r"
    unfolding op tag valid_observation_id_def list_all_iff by blast
  finally show ?thesis .
qed

definition demo_click_args :: json where
  "demo_click_args = jobj [(''operation_id'', Str ''op:1''), (''tag'', Str ''e12''),
     (''observation_id'', Str (replicate 64 CHR ''a'')), (''interaction_mode'', Str ''interactive'')]"

lemma demo_click_args_get:
  "str_arg demo_click_args ''operation_id'' = Some ''op:1''"
  "str_arg demo_click_args ''observation_id'' = Some (replicate 64 CHR ''a'')"
  "str_arg demo_click_args ''tag'' = Some ''e12''"
  "str_arg demo_click_args ''interaction_mode'' = Some ''interactive''"
  by (simp_all add: demo_click_args_def str_arg_def)

theorem semantic_args_iff_witness:
  "ensure_semantic_args demo_click_args False = Inr () \<and>
   ensure_semantic_args demo_click_args True \<noteq> Inr ()"
proof
  have keys: "\<exists>m. demo_click_args = Object m \<and> set (obj_keys m) \<subseteq> set (semantic_keys False)"
    unfolding ensure_exact_args_ok [symmetric] by code_simp
  have "(\<forall>c \<in> set ''op:1''. is_ascii_alphanumeric c \<or> c \<in> {CHR ''-'', CHR ''_'', CHR '':''})"
    "(\<forall>c \<in> set (replicate 64 CHR ''a''). is_lower_hex c)" "(\<forall>c \<in> set ''12''. is_ascii_digit c)"
    by (auto simp: byte_class_defs)
  moreover have "interaction_mode_arg demo_click_args = Inr Interactive"
    by (simp add: interaction_mode_arg_def demo_click_args_get)
  ultimately show "ensure_semantic_args demo_click_args False = Inr ()"
    unfolding semantic_args_iff using keys demo_click_args_get
    by (elim exE conjE) (rule exI, rule exI [of _ "''op:1''"], rule exI, rule exI [of _ "''12''"], auto)
  have "str_arg demo_click_args ''value'' = None"
    by (simp add: demo_click_args_def str_arg_def)
  then show "ensure_semantic_args demo_click_args True \<noteq> Inr ()"
    unfolding semantic_args_iff by simp
qed

end
