(* ===== verification/Tools.thy ===== *)
theory Tools
  imports Tools_Args
begin

text \<open>
  The crate \<open>folk-computer-use\<close>, second part: the handler of every tool, those the table no longer
  advertises included, with the screenshot artifacts they return.

  A handler is an action that always ends in a JSON result: \<open>flatten\<close> turns an error into one. The
  third-party automation backend (\<open>rs_peekaboo\<close>) answers through the host calls.
\<close>

section \<open>Common parts\<close>

definition flatten :: "json exec \<Rightarrow> (world, 'e, json) act" where
  "flatten m = act_match m ret (\<lambda>err. ret (err_result (exec_error_text err)))"

definition backend :: "host \<Rightarrow> (host_call list \<Rightarrow> string + 'a) \<Rightarrow> host_call \<Rightarrow> 'a exec" where
  "backend H answer c = act_map_err Peekaboo_Error (host_call H answer c)"

definition try_io :: "(world, io_error, 'a) act \<Rightarrow> 'a exec" where
  "try_io m = act_map_err Exec_Io m"

section \<open>Processes\<close>

record command_output =
  cmd_stdout :: string
  cmd_stderr :: string
  cmd_status :: int

definition run_command ::
  "host \<Rightarrow> string \<Rightarrow> string list \<Rightarrow> string option \<Rightarrow> string option \<Rightarrow> command_output exec" where
  "run_command H program args input cwd =
     act_bind (try_io (host_call H (h_run H) (Run_Process program args input cwd))) (\<lambda>output.
     ret \<lparr>cmd_stdout = from_utf8_lossy (out_stdout output),
          cmd_stderr = from_utf8_lossy (out_stderr output),
          cmd_status = (case out_code output of None \<Rightarrow> - 1 | Some c \<Rightarrow> c)\<rparr>)"

definition run_shell :: "host \<Rightarrow> string \<Rightarrow> string option \<Rightarrow> command_output exec" where
  "run_shell H command cwd = run_command H ''/bin/sh'' [''-c'', command] None cwd"

definition shell_text :: "command_output \<Rightarrow> string" where
  "shell_text out =
     ''stdout:'' @ [CHR 0x0A] @ cmd_stdout out @ [CHR 0x0A, CHR 0x0A] @
     ''stderr:'' @ [CHR 0x0A] @ cmd_stderr out @ [CHR 0x0A, CHR 0x0A] @
     ''exit: '' @ show_int (cmd_status out)"

definition shell :: "host \<Rightarrow> json \<Rightarrow> access_mode \<Rightarrow> (world, 'e, json) act" where
  "shell H args mode = flatten (
     act_bind (lift_res (need_str args ''command'')) (\<lambda>command.
     let cwd = str_arg args ''cwd'' in
     if mode = Full then
       act_bind (run_shell H command cwd) (\<lambda>out. ret (text_result (shell_text out)))
     else
       (case restricted_command command of
          Some (program, parts) \<Rightarrow>
            act_bind (run_command H program parts None cwd) (\<lambda>out.
            ret (text_result (shell_text out)))
        | None \<Rightarrow> ret (err_result ''command blocked in this mode''))))"

fun join_lines :: "string list \<Rightarrow> string" where
  "join_lines [] = []"
| "join_lines [l] = l"
| "join_lines (l # ls) = l @ CHR 0x0A # join_lines ls"

definition list_apps :: "host \<Rightarrow> access_mode \<Rightarrow> (world, 'e, json) act" where
  "list_apps H mode =
     (let limit = (if mode = Full then 50 else 30) in
      flatten (
        act_bind (run_command H ''ps'' [''ax'', ''-o'', ''pid=,comm=''] None None) (\<lambda>out.
        ret (text_result (join_lines (take limit (str_lines (cmd_stdout out))))))))"

definition spawn_command :: "host \<Rightarrow> json \<Rightarrow> access_mode \<Rightarrow> (world, 'e, json) act" where
  "spawn_command H args mode = flatten (
     if mode \<noteq> Full then ret (err_result ''full mode only'')
     else
       act_bind (lift_res (need_str args ''command'')) (\<lambda>command.
       act_bind (try_io (host_call H (h_spawn H) (Spawn_Process ''/bin/sh'' [''-c'', command]))) (\<lambda>_.
       ret (text_result ''spawned''))))"

section \<open>Clipboard, permissions, health\<close>

definition clipboard_read :: "host \<Rightarrow> (world, 'e, json) act" where
  "clipboard_read H = flatten (
     act_bind (backend H (h_text H) Clipboard_Read) (\<lambda>t.
     ret (if t = [] then text_result ''(empty)'' else text_result t)))"

definition clipboard_write :: "host \<Rightarrow> json \<Rightarrow> access_mode \<Rightarrow> (world, 'e, json) act" where
  "clipboard_write H args mode = flatten (
     act_bind (lift_res (ensure_mutation mode)) (\<lambda>_.
     act_bind (lift_res (need_str args ''text'')) (\<lambda>t.
     act_bind (backend H (h_unit H) (Clipboard_Write t)) (\<lambda>_.
     ret (text_result ''copied to clipboard'')))))"

definition doctor :: "host \<Rightarrow> (world, 'e, json) act" where
  "doctor H = flatten (
     act_bind (backend H (h_json H) Doctor) (\<lambda>v. ret (json_text_result H v)))"

definition permissions :: "host \<Rightarrow> json \<Rightarrow> access_mode \<Rightarrow> (world, 'e, json) act" where
  "permissions H args mode = flatten (
     act_bind
       (if str_arg args ''action'' = Some ''grant'' then
          act_bind (lift_res (ensure_mutation mode)) (\<lambda>_.
          backend H (h_json H) Permissions_Grant)
        else host_call H (\<lambda>tr. Inr (h_permissions H tr)) Permissions_Probe)
       (\<lambda>v. ret (json_text_result H v)))"

definition system_info :: "host \<Rightarrow> (world, 'e, json) act" where
  "system_info H = ret (text_result (''os: '' @ h_os H @ [CHR 0x0A] @ ''arch: '' @ h_arch H))"

definition list_screens :: "host \<Rightarrow> (world, 'e, json) act" where
  "list_screens H = flatten (
     act_bind (backend H (h_json H) List_Screens) (\<lambda>v. ret (json_text_result H v)))"

section \<open>Screenshots\<close>

definition max_screenshot_bytes :: nat where
  "max_screenshot_bytes = 64 * 1024 * 1024"

definition ensure_screenshot_reference_supported :: "host \<Rightarrow> tool_exec_error + unit" where
  "ensure_screenshot_reference_supported H =
     (if h_unix H then Inr () else Inl Screenshot_Reference_Unavailable)"

text \<open>
  The loop that reads the file in buffers of 8192 bytes: the bytes given to the hash. Each read may
  fail; the last one returns nothing.
\<close>

function hash_reads :: "host \<Rightarrow> bytes \<Rightarrow> nat \<Rightarrow> bytes \<Rightarrow> bytes exec" where
  "hash_reads H left sofar acc =
     act_bind (try_io (io_step H)) (\<lambda>_.
     if left = [] then ret acc
     else
       (let chunk = take 8192 left; sofar' = sofar + length chunk in
        if sofar' > u64_max \<or> sofar' > max_screenshot_bytes then fail Screenshot_Reference_Unavailable
        else hash_reads H (drop 8192 left) sofar' (acc @ chunk)))"
  by pat_completeness auto
termination
  by (relation "measure (\<lambda>(H, left, sofar, acc). length left)") auto

declare hash_reads.simps [simp del]

definition screenshot_reference :: "host \<Rightarrow> image_capture \<Rightarrow> json exec" where
  "screenshot_reference H capture =
     (if \<not> h_unix H then fail Screenshot_Reference_Unavailable
      else
        act_bind (try_io (fs_open H (cap_path capture))) (\<lambda>q.
        act_bind (try_io (fs_symlink_metadata H q)) (\<lambda>metadata.
        case metadata of
          Regular m bs \<Rightarrow>
            if length bs > max_screenshot_bytes then fail Screenshot_Reference_Unavailable
            else
              act_bind (try_io (fs_set_permissions H q 384)) (\<lambda>_.
              act_bind (try_io (fs_symlink_metadata H q)) (\<lambda>metadata'.
              if (case metadata' of Regular m' _ \<Rightarrow> m' mod 64 \<noteq> 0 | _ \<Rightarrow> True)
              then fail Screenshot_Reference_Unavailable
              else
                act_bind (hash_reads H bs 0 []) (\<lambda>hashed.
                ret (jobj [(''contentHash'', Str (''sha256:'' @ hex_bytes (h_sha256 H hashed))),
                   (''mimeType'', Str (cap_mime capture))]))))
        | _ \<Rightarrow> fail Screenshot_Reference_Unavailable)))"

text \<open>\<open>serde_json::to_string_pretty(&value).unwrap_or_else(|_| value.to_string())\<close>.\<close>

definition pretty_text :: "host \<Rightarrow> json \<Rightarrow> string" where
  "pretty_text H value =
     (case h_json_pretty H value of Inr t \<Rightarrow> t | Inl _ \<Rightarrow> h_json_display H value)"

definition image_result :: "host \<Rightarrow> json \<Rightarrow> image_capture \<Rightarrow> string \<Rightarrow> json exec" where
  "image_result H value capture locator =
     (if cap_ephemeral capture then
        act_match (fs_remove_file H (cap_path capture))
          (\<lambda>_. fail Screenshot_Reference_Unavailable)
          (\<lambda>_. fail Screenshot_Reference_Unavailable)
      else
        act_bind (screenshot_reference H capture) (\<lambda>artifact.
        let value' = json_set ''artifact'' (json_set ''locator'' (Str locator) artifact) value
        in ret (jobj
             [(''content'', Array [jobj [(''type'', Str ''text''), (''text'', Str (pretty_text H value'))]]),
              (''structuredContent'', value')])))"

definition new_artifact :: "host \<Rightarrow> artifact_file exec" where
  "new_artifact H = act_map_err (\<lambda>_. Screenshot_Reference_Unavailable) (create_artifact_file H)"

definition screen_capture :: "host \<Rightarrow> json \<Rightarrow> (world, 'e, json) act" where
  "screen_capture H args = flatten (
     act_bind (lift_res (ensure_screenshot_reference_supported H)) (\<lambda>_.
     let target = (case str_arg args ''target'' of None \<Rightarrow> ''display'' | Some t \<Rightarrow> t) in
     if target \<noteq> ''display'' \<and> target \<noteq> ''window'' then fail Coordinates_Unavailable
     else
       act_bind (new_artifact H) (\<lambda>artifact.
       act_bind
         (if target = ''window''
          then backend H (h_capture H) (Capture Window_Mode (art_path artifact) True)
          else backend H (h_capture H) (Capture Screen_Mode (art_path artifact) True))
         (\<lambda>capture. image_result H (jobj [(''target'', Str target)]) capture (art_locator artifact)))))"

definition retina_arg :: "json \<Rightarrow> bool" where
  "retina_arg args = (case bool_arg args ''retina'' of None \<Rightarrow> True | Some b \<Rightarrow> b)"

definition image_mode_arg :: "host \<Rightarrow> json \<Rightarrow> tool_exec_error + image_mode" where
  "image_mode_arg H args =
     map_err Peekaboo_Error
       (h_image_mode H (case str_arg args ''mode'' of None \<Rightarrow> ''screen'' | Some m \<Rightarrow> m))"

definition image :: "host \<Rightarrow> json \<Rightarrow> (world, 'e, json) act" where
  "image H args = flatten (
     act_bind (lift_res (ensure_screenshot_reference_supported H)) (\<lambda>_.
     act_bind (new_artifact H) (\<lambda>artifact.
     let retina = retina_arg args in
     act_bind
       (case str_arg args ''app'' of
          Some app \<Rightarrow> backend H (h_capture H) (Capture_App app (art_path artifact) retina)
        | None \<Rightarrow>
            act_bind (lift_res (image_mode_arg H args)) (\<lambda>mode.
            backend H (h_capture H) (Capture mode (art_path artifact) retina)))
       (\<lambda>capture. image_result H (jobj [(''mode'', h_image_mode_json H (cap_mode capture))])
          capture (art_locator artifact)))))"

text \<open>
  The observation is embedded by the \<open>json!\<close> macro, which would panic if it did not serialise; its
  derived serialiser does not fail, and the model reports the error instead.
\<close>

definition see :: "host \<Rightarrow> json \<Rightarrow> (world, 'e, json) act" where
  "see H args = flatten (
     act_bind (lift_res (ensure_screenshot_reference_supported H)) (\<lambda>_.
     act_bind (lift_res (image_mode_arg H args)) (\<lambda>mode.
     act_bind (new_artifact H) (\<lambda>artifact.
     let retina = retina_arg args in
     act_bind (observe_semantic H) (\<lambda>obs.
     act_bind (backend H (h_capture H) (Capture mode (art_path artifact) retina)) (\<lambda>capture.
     act_bind (lift_res (map_err Exec_Json (h_obs_json H obs))) (\<lambda>ov.
     image_result H
       (jobj [(''observation'', ov), (''mode'', h_image_mode_json H (cap_mode capture))])
       capture (art_locator artifact))))))))"

definition ui_snapshot :: "host \<Rightarrow> (world, 'e, json) act" where
  "ui_snapshot H = flatten (
     act_bind (observe_semantic H) (\<lambda>obs.
     act_bind (lift_res (map_err Exec_Json (h_obs_json H obs))) (\<lambda>v.
     ret (json_text_result H v))))"

section \<open>Semantic actions\<close>

definition click :: "host \<Rightarrow> json \<Rightarrow> access_mode \<Rightarrow> (world, 'e, json) act" where
  "click H args mode = flatten (
     act_bind (lift_res (ensure_mutation mode)) (\<lambda>_.
     act_bind (lift_res (ensure_semantic_args args False)) (\<lambda>_.
     act_bind (lift_res (need_str args ''operation_id'')) (\<lambda>operation_id.
     act_bind (lift_res (need_str args ''observation_id'')) (\<lambda>observation_id.
     act_bind (lift_res (need_str args ''tag'')) (\<lambda>tag.
     act_bind (lift_res (interaction_mode_arg args)) (\<lambda>imode.
     execute_click H mode operation_id observation_id tag imode)))))))"

definition set_value :: "host \<Rightarrow> json \<Rightarrow> access_mode \<Rightarrow> (world, 'e, json) act" where
  "set_value H args mode = flatten (
     act_bind (lift_res (ensure_mutation mode)) (\<lambda>_.
     act_bind (lift_res (ensure_semantic_args args True)) (\<lambda>_.
     act_bind (lift_res (need_str args ''operation_id'')) (\<lambda>operation_id.
     act_bind (lift_res (need_str args ''observation_id'')) (\<lambda>observation_id.
     act_bind (lift_res (need_str args ''tag'')) (\<lambda>tag.
     act_bind (lift_res (need_str args ''value'')) (\<lambda>value.
     act_bind (lift_res (interaction_mode_arg args)) (\<lambda>imode.
     execute_set_value H mode operation_id observation_id tag value imode))))))))"

section \<open>Handlers that are no longer advertised\<close>

text \<open>\<open>n as u32\<close> of a non-negative \<open>i64\<close> or of a \<open>u64\<close>: the low 32 bits.\<close>

definition as_u32 :: "nat \<Rightarrow> nat" where
  "as_u32 n = n mod 4294967296"

definition flag_arg :: "json \<Rightarrow> string \<Rightarrow> bool" where
  "flag_arg args key = (case bool_arg args key of None \<Rightarrow> False | Some b \<Rightarrow> b)"

definition type_text :: "host \<Rightarrow> json \<Rightarrow> access_mode \<Rightarrow> (world, 'e, json) act" where
  "type_text H args mode = flatten (
     act_bind (lift_res (ensure_mutation mode)) (\<lambda>_.
     act_bind (lift_res (need_str args ''text'')) (\<lambda>t.
     act_bind (backend H (h_unit H)
       (Type_Text t (flag_arg args ''clear'') (flag_arg args ''return'') (u64_arg args ''delay_ms'')
          (str_arg args ''app''))) (\<lambda>_.
     ret (text_result ''typed'')))))"

definition press :: "host \<Rightarrow> json \<Rightarrow> access_mode \<Rightarrow> (world, 'e, json) act" where
  "press H args mode = flatten (
     act_bind (lift_res (ensure_mutation mode)) (\<lambda>_.
     act_bind (lift_res (need_str args ''key'')) (\<lambda>key.
     let count = as_u32 (nat (max 1 (case int_arg args ''count'' of None \<Rightarrow> 1 | Some n \<Rightarrow> n))) in
     act_bind (backend H (h_unit H) (Press key count (u64_arg args ''delay_ms''))) (\<lambda>_.
     ret (text_result ''pressed'')))))"

definition paste :: "host \<Rightarrow> json \<Rightarrow> access_mode \<Rightarrow> (world, 'e, json) act" where
  "paste H args mode = flatten (
     act_bind (lift_res (ensure_mutation mode)) (\<lambda>_.
     act_bind (lift_res (need_str args ''text'')) (\<lambda>t.
     act_bind (backend H (h_unit H) (Paste t)) (\<lambda>_.
     ret (text_result ''pasted'')))))"

definition hotkey :: "host \<Rightarrow> json \<Rightarrow> access_mode \<Rightarrow> (world, 'e, json) act" where
  "hotkey H args mode = flatten (
     act_bind (lift_res (ensure_mutation mode)) (\<lambda>_.
     act_bind (lift_res (need_str args ''keys'')) (\<lambda>keys.
     act_bind (backend H (h_unit H) (Hotkey (map trim (split_char CHR ''+'' keys)))) (\<lambda>_.
     ret (text_result ''hotkey pressed'')))))"

definition scroll_step :: "int \<Rightarrow> int \<Rightarrow> direction \<times> nat" where
  "scroll_step dx dy =
     (if dx \<noteq> 0 then ((if dx < 0 then Dir_Left else Dir_Right), as_u32 (max 1 (nat \<bar>dx\<bar>)))
      else ((if dy < 0 then Dir_Down else Dir_Up), as_u32 (max 1 (nat \<bar>dy\<bar>))))"

definition scroll :: "host \<Rightarrow> json \<Rightarrow> access_mode \<Rightarrow> (world, 'e, json) act" where
  "scroll H args mode = flatten (
     act_bind (lift_res (ensure_mutation mode)) (\<lambda>_.
     let dx = (case int_arg args ''dx'' of None \<Rightarrow> 0 | Some n \<Rightarrow> n);
         dy = (case int_arg args ''dy'' of None \<Rightarrow> 0 | Some n \<Rightarrow> n)
     in case scroll_step dx dy of (direction, amount) \<Rightarrow>
          act_bind (backend H (h_unit H) (Scroll direction amount)) (\<lambda>_.
          ret (text_result ''scrolled''))))"

definition swipe :: "json \<Rightarrow> access_mode \<Rightarrow> (world, 'e, json) act" where
  "swipe args mode = flatten (
     act_bind (lift_res (ensure_mutation mode)) (\<lambda>_. fail Coordinates_Unavailable))"

definition drag :: "json \<Rightarrow> access_mode \<Rightarrow> (world, 'e, json) act" where
  "drag args mode = flatten (
     act_bind (lift_res (ensure_mutation mode)) (\<lambda>_. fail Coordinates_Unavailable))"

definition move_cursor :: "host \<Rightarrow> cursor_target \<Rightarrow> json exec" where
  "move_cursor H target =
     act_bind (backend H (h_unit H) (Move_Cursor target)) (\<lambda>_. ret (text_result ''moved''))"

definition move_pointer_with_adapter ::
  "host \<Rightarrow> json \<Rightarrow> access_mode \<Rightarrow> (access_mode \<Rightarrow> int \<Rightarrow> int \<Rightarrow> json option exec) \<Rightarrow>
   (world, 'e, json) act" where
  "move_pointer_with_adapter H args mode execute_coordinate = flatten (
     act_bind (lift_res (ensure_mutation mode)) (\<lambda>_.
     case str_arg args ''element_id'' of
       Some element_id \<Rightarrow> move_cursor H (Target_Query element_id (str_arg args ''snapshot''))
     | None \<Rightarrow>
         act_bind (lift_res (need_int args ''x'')) (\<lambda>x.
         act_bind (lift_res (need_int args ''y'')) (\<lambda>y.
         act_bind (execute_coordinate mode x y) (\<lambda>response.
         case response of
           Some v \<Rightarrow> ret v
         | None \<Rightarrow>
             act_bind (lift_res (need_int args ''x'')) (\<lambda>x'.
             act_bind (lift_res (need_int args ''y'')) (\<lambda>y'.
             move_cursor H (Target_Point x' y'))))))))"

definition move_pointer :: "host \<Rightarrow> json \<Rightarrow> access_mode \<Rightarrow> (world, 'e, json) act" where
  "move_pointer H args mode = move_pointer_with_adapter H args mode execute_move"

definition perform_action :: "host \<Rightarrow> json \<Rightarrow> access_mode \<Rightarrow> (world, 'e, json) act" where
  "perform_action H args mode = flatten (
     act_bind (lift_res (ensure_mutation mode)) (\<lambda>_.
     act_bind (lift_res (need_str args ''on'')) (\<lambda>on.
     act_bind (lift_res (need_str args ''action'')) (\<lambda>a.
     act_bind (backend H (h_unit H)
       (Perform_Action (Target_Query on (str_arg args ''snapshot'')) a)) (\<lambda>_.
     ret (text_result ''action performed''))))))"

definition open_target :: "host \<Rightarrow> json \<Rightarrow> access_mode \<Rightarrow> (world, 'e, json) act" where
  "open_target H args mode = flatten (
     act_bind (lift_res (ensure_mutation mode)) (\<lambda>_.
     act_bind (lift_res (need_str args ''target'')) (\<lambda>target.
     act_bind (backend H (h_unit H)
       (Open_Target target (str_arg args ''app'') (flag_arg args ''no_focus''))) (\<lambda>_.
     ret (text_result ''opened'')))))"

definition sleep_ms :: "json \<Rightarrow> nat" where
  "sleep_ms args =
     f64_as_u64 (f64_times_1000 (f64_max0
       (case Option.bind (jget args ''seconds'') as_f64 of
          None \<Rightarrow> F64_Fin False 0 0 | Some x \<Rightarrow> x)))"

definition sleep :: "host \<Rightarrow> json \<Rightarrow> (world, 'e, json) act" where
  "sleep H args =
     act_bind (host_call H (\<lambda>_. Inr ()) (Sleep (sleep_ms args))) (\<lambda>_.
     ret (json_text_result H (jobj [(''slept_ms'', jnat (sleep_ms args))])))"

definition clean :: "host \<Rightarrow> json \<Rightarrow> access_mode \<Rightarrow> (world, 'e, json) act" where
  "clean H args mode = flatten (
     act_bind (lift_res (ensure_mutation mode)) (\<lambda>_.
     act_bind (backend H (h_json H)
       (Clean_Snapshots (flag_arg args ''all_snapshots'') (str_arg args ''snapshot''))) (\<lambda>removed.
     ret (json_text_result H (jobj [(''removed'', removed)])))))"

definition window_bounds :: "string \<Rightarrow> json \<Rightarrow> tool_exec_error + bounds" where
  "window_bounds a args =
     (if a = ''move'' then
        res_bind (need_int args ''x'') (\<lambda>x.
        res_bind (need_int args ''y'') (\<lambda>y.
        Inr \<lparr>b_x = x, b_y = y, b_width = 0, b_height = 0\<rparr>))
      else if a = ''resize'' then
        res_bind (need_int args ''width'') (\<lambda>width.
        res_bind (need_int args ''height'') (\<lambda>height.
        Inr \<lparr>b_x = 0, b_y = 0, b_width = width, b_height = height\<rparr>))
      else if a = ''set-bounds'' then
        res_bind (need_int args ''x'') (\<lambda>x.
        res_bind (need_int args ''y'') (\<lambda>y.
        res_bind (need_int args ''width'') (\<lambda>width.
        res_bind (need_int args ''height'') (\<lambda>height.
        Inr \<lparr>b_x = x, b_y = y, b_width = width, b_height = height\<rparr>))))
      else Inl (Missing ''action''))"

definition action_arg :: "json \<Rightarrow> string" where
  "action_arg args = (case str_arg args ''action'' of None \<Rightarrow> [] | Some a \<Rightarrow> a)"

definition window :: "host \<Rightarrow> json \<Rightarrow> access_mode \<Rightarrow> (world, 'e, json) act" where
  "window H args mode =
     (let a = action_arg args in
      if a = ''list'' then flatten (
        act_bind (backend H (h_json H) (Window_Call ''list'' None None None)) (\<lambda>v.
        ret (json_text_result H v)))
      else flatten (
        act_bind (lift_res
          (if a \<in> {''focus'', ''close'', ''minimize''} then ensure_safe_focus_or_full mode a
           else ensure_mutation mode)) (\<lambda>_.
        act_bind (lift_res (need_str args ''app'')) (\<lambda>app.
        act_bind
          (if a \<in> {''focus'', ''close'', ''minimize''}
           then backend H (h_json H) (Window_Call a (Some app) None None)
           else if a \<in> {''move'', ''resize'', ''set-bounds''}
           then act_bind (lift_res (window_bounds a args)) (\<lambda>b.
                backend H (h_json H) (Window_Call a (Some app) None (Some b)))
           else fail (Missing ''action'')) (\<lambda>_.
        ret (text_result ''window action complete''))))))"

definition app_tool :: "host \<Rightarrow> json \<Rightarrow> access_mode \<Rightarrow> (world, 'e, json) act" where
  "app_tool H args mode =
     (let a = action_arg args in
      if a = ''list'' then list_apps H mode
      else flatten (
        act_bind (lift_res
          (if a \<in> {''list'', ''activate'', ''focus'', ''switch''} then ensure_safe_focus_or_full mode a
           else ensure_mutation mode)) (\<lambda>_.
        act_bind (lift_res (need_str args ''app'')) (\<lambda>app.
        act_bind
          (if a \<in> {''launch'', ''activate'', ''switch'', ''hide'', ''unhide'', ''quit''}
           then backend H (h_json H) (App_Call a (Some app))
           else fail (Missing ''action'')) (\<lambda>_.
        ret (text_result ''app action complete''))))))"

definition menu :: "host \<Rightarrow> json \<Rightarrow> access_mode \<Rightarrow> (world, 'e, json) act" where
  "menu H args mode = flatten (
     act_bind (lift_res (need_str args ''action'')) (\<lambda>a.
     act_bind (lift_res (need_str args ''app'')) (\<lambda>app.
     if a \<in> {''list'', ''list-all'', ''inspect''} then
       act_bind (backend H (h_json H)
         (Menu_Call (if a = ''inspect'' then ''list'' else a) app None None)) (\<lambda>v.
       ret (json_text_result H v))
     else
       act_bind (lift_res (ensure_mutation mode)) (\<lambda>_.
       act_bind (lift_res (need_str args ''menu'')) (\<lambda>m.
       act_bind (lift_res (need_str args ''item'')) (\<lambda>item.
       act_bind (backend H (h_json H) (Menu_Call ''click'' app (Some m) (Some item))) (\<lambda>_.
       ret (text_result ''menu action complete'')))))))) "

end
