(* ===== verification/Tools_Table.thy ===== *)
theory Tools_Table
  imports Tools
begin

text \<open>
  The crate \<open>folk-computer-use\<close>, third part: the registration of the tools with their descriptions and
  argument schemas, in the order of the source, and the filter that decides what is advertised.
\<close>

type_synonym tool_entry = "string \<times> string \<times> json \<times> tool_handler"

section \<open>The entries\<close>

definition host_tools :: "host \<Rightarrow> tool_entry list" where
  "host_tools H =
     [(''folk_shell'',
       ''Run a shell command on the Folk Around host computer, not on the agent provider or remote model server'',
       schema [(''command'', string_property ''Shell command to execute on the Folk Around host computer''),
         (''cwd'', string_property ''Working directory on the Folk Around host computer'')] [''command''],
       \<lambda>args mode. shell H args mode),
      (''folk_system_info'',
       ''Return OS and CPU details for the Folk Around host computer'',
       empty_schema,
       \<lambda>args mode. system_info H),
      (''folk_list_apps'',
       ''List running processes on the Folk Around host computer'',
       empty_schema,
       \<lambda>args mode. list_apps H mode),
      (''folk_spawn'',
       ''Spawn a background process on the Folk Around host computer in full mode'',
       schema [(''command'', string_property ''Background command to spawn on the Folk Around host computer'')] [''command''],
       \<lambda>args mode. spawn_command H args mode)]"

definition capture_tools :: "host \<Rightarrow> tool_entry list" where
  "capture_tools H =
     [(''folk_image'',
       ''Capture an image from the Folk Around host computer'',
       schema [(''mode'', string_property ''Capture mode: screen or window''),
         (''retina'', bool_property ''Capture at retina scale''),
         (''app'', string_property ''Optional app name for window-scoped capture'')] [],
       \<lambda>args mode. image H args),
      (''folk_see'',
       ''Capture an image and Praefectus semantic observation for the Folk Around host computer'',
       schema [(''mode'', string_property ''Capture mode: screen or window''),
         (''retina'', bool_property ''Capture at retina scale'')] [],
       \<lambda>args mode. see H args),
      (''folk_list_screens'',
       ''List display information for the Folk Around host computer'',
       empty_schema,
       \<lambda>args mode. list_screens H),
      (''folk_clipboard_read'',
       ''Read the Folk Around host computer clipboard'',
       empty_schema,
       \<lambda>args mode. clipboard_read H),
      (''folk_clipboard_write'',
       ''Write text to the Folk Around host computer clipboard'',
       schema [(''text'', string_property ''Text to copy to the Folk Around host computer clipboard'')] [''text''],
       \<lambda>args mode. clipboard_write H args mode),
      (''folk_permissions'',
       ''Probe or grant screen recording, accessibility, and clipboard access on the Folk Around host computer'',
       schema [(''action'', string_property ''Optional action: grant'')] [],
       \<lambda>args mode. permissions H args mode),
      (''folk_doctor'',
       ''Health report for computer-use readiness on the Folk Around host computer'',
       empty_schema,
       \<lambda>args mode. doctor H),
      (''folk_screen_capture'',
       ''Capture the Folk Around host computer screen and return image metadata'',
       schema [(''target'', string_property ''Capture target: display or window'')] [],
       \<lambda>args mode. screen_capture H args),
      (''folk_ui_snapshot'',
       ''Return a Praefectus semantic observation with opaque element tags for the Folk Around host computer'',
       empty_schema,
       \<lambda>args mode. ui_snapshot H)]"

definition click_tools :: "host \<Rightarrow> tool_entry list" where
  "click_tools H =
     [(''folk_click'',
       ''Invoke a Praefectus semantic element on the Folk Around host computer'',
       strict_schema [(''operation_id'', constrained_string_property ''Stable operation ID for durable at-most-once dispatch'' 1 256 ''^[A-Za-z0-9_:-]+$''),
         (''observation_id'', constrained_string_property ''Observation ID from folk_ui_snapshot'' 64 64 ''^[0-9a-f]{64}$''),
         (''tag'', constrained_string_property ''Opaque element tag from folk_ui_snapshot'' 2 5 ''^e[0-9]{1,4}$''),
         (''interaction_mode'', interaction_mode_property)] [''operation_id'', ''observation_id'', ''tag'', ''interaction_mode''],
       \<lambda>args mode. click H args mode)]"

definition input_tools :: "host \<Rightarrow> tool_entry list" where
  "input_tools H =
     [(''folk_press'',
       ''Press a named key on the Folk Around host computer'',
       schema [(''key'', string_property ''Key name such as return, tab, space, or arrows''),
         (''count'', number_property ''Repeat count''),
         (''delay_ms'', number_property ''Delay between repeats in milliseconds'')] [''key''],
       \<lambda>args mode. press H args mode),
      (''folk_type'',
       ''Type text on the Folk Around host computer'',
       schema [(''text'', string_property ''Text to type''),
         (''clear'', bool_property ''Clear the current field first''),
         (''return'', bool_property ''Press return after typing''),
         (''delay_ms'', number_property ''Delay between characters in milliseconds'')] [''text''],
       \<lambda>args mode. type_text H args mode),
      (''folk_paste'',
       ''Paste text into the active UI on the Folk Around host computer'',
       schema [(''text'', string_property ''Text to paste'')] [''text''],
       \<lambda>args mode. paste H args mode),
      (''folk_hotkey'',
       ''Press a hotkey on the Folk Around host computer'',
       schema [(''keys'', string_property ''Hotkey keys joined by plus signs'')] [''keys''],
       \<lambda>args mode. hotkey H args mode),
      (''folk_scroll'',
       ''Scroll on the Folk Around host computer'',
       schema [(''dx'', number_property ''Horizontal scroll amount''),
         (''dy'', number_property ''Vertical scroll amount'')] [],
       \<lambda>args mode. scroll H args mode),
      (''folk_swipe'',
       ''Unavailable until Praefectus supports artifact-bound coordinate endpoints'',
       schema [(''from'', string_property ''Start coordinate as x,y''),
         (''to'', string_property ''End coordinate as x,y''),
         (''duration_ms'', number_property ''Swipe duration in milliseconds'')] [''from'', ''to''],
       \<lambda>args mode. swipe args mode),
      (''folk_drag'',
       ''Unavailable until Praefectus supports artifact-bound coordinate endpoints'',
       schema [(''from'', string_property ''Start coordinate as x,y''),
         (''to'', string_property ''End coordinate as x,y''),
         (''duration_ms'', number_property ''Drag duration in milliseconds'')] [''from'', ''to''],
       \<lambda>args mode. drag args mode),
      (''folk_move'',
       ''Move the pointer to a resolved UI element on the Folk Around host computer; raw coordinates require Praefectus artifact provenance'',
       schema [(''element_id'', string_property ''Stable element ID from folk_ui_snapshot''),
         (''snapshot'', string_property ''Optional snapshot id from folk_ui_snapshot''),
         (''x'', number_property ''Screen x coordinate''),
         (''y'', number_property ''Screen y coordinate'')] [],
       \<lambda>args mode. move_pointer H args mode)]"

definition set_value_tools :: "host \<Rightarrow> tool_entry list" where
  "set_value_tools H =
     [(''folk_set_value'',
       ''Set the value of an editable Praefectus semantic element on the Folk Around host computer'',
       strict_schema [(''operation_id'', constrained_string_property ''Stable operation ID for durable at-most-once dispatch'' 1 256 ''^[A-Za-z0-9_:-]+$''),
         (''observation_id'', constrained_string_property ''Observation ID from folk_ui_snapshot'' 64 64 ''^[0-9a-f]{64}$''),
         (''tag'', constrained_string_property ''Opaque element tag from folk_ui_snapshot'' 2 5 ''^e[0-9]{1,4}$''),
         (''value'', constrained_string_property ''Value to set'' 0 16384 (''^['' @ [CHR 0x5C] @ ''s'' @ [CHR 0x5C] @ ''S]*$'')),
         (''interaction_mode'', interaction_mode_property)] [''operation_id'', ''observation_id'', ''tag'', ''value'', ''interaction_mode''],
       \<lambda>args mode. set_value H args mode)]"

definition control_tools :: "host \<Rightarrow> tool_entry list" where
  "control_tools H =
     [(''folk_perform_action'',
       ''Perform an accessibility action on a resolved UI element on the Folk Around host computer'',
       schema [(''on'', string_property ''Stable element ID or label from folk_ui_snapshot''),
         (''action'', string_property ''Accessibility action to perform''),
         (''snapshot'', string_property ''Optional snapshot id from folk_ui_snapshot'')] [''on'', ''action''],
       \<lambda>args mode. perform_action H args mode),
      (''folk_window'',
       ''List, focus, move, resize, minimize, close, or set bounds of windows on the Folk Around host computer'',
       schema [(''action'', string_property ''Window action: list, focus, close, minimize, move, resize, set-bounds''),
         (''app'', string_property ''Application name''),
         (''title'', string_property ''Window title''),
         (''x'', number_property ''Window x coordinate''),
         (''y'', number_property ''Window y coordinate''),
         (''width'', number_property ''Window width''),
         (''height'', number_property ''Window height'')] [''action''],
       \<lambda>args mode. window H args mode),
      (''folk_app'',
       ''List, launch, activate, switch, hide, unhide, or quit apps on the Folk Around host computer'',
       schema [(''action'', string_property ''App action: list, launch, activate, switch, hide, unhide, quit''),
         (''app'', string_property ''Application name'')] [''action''],
       \<lambda>args mode. app_tool H args mode),
      (''folk_open'',
       ''Open a path or URL on the Folk Around host computer'',
       schema [(''target'', string_property ''Path or URL to open''),
         (''app'', string_property ''Optional app to open with''),
         (''no_focus'', bool_property ''Open without focusing the target app'')] [''target''],
       \<lambda>args mode. open_target H args mode),
      (''folk_menu'',
       ''Inspect or click menu items on the Folk Around host computer'',
       schema [(''action'', string_property ''Menu action: list, list-all, inspect, or click''),
         (''app'', string_property ''Application name''),
         (''menu'', string_property ''Menu name''),
         (''item'', string_property ''Menu item name'')] [''action''],
       \<lambda>args mode. menu H args mode),
      (''folk_sleep'',
       ''Sleep for a number of seconds on the Folk Around host computer'',
       schema [(''seconds'', number_property ''Sleep duration in seconds'')] [''seconds''],
       \<lambda>args mode. sleep H args),
      (''folk_clean'',
       ''Remove cached snapshots on the Folk Around host computer'',
       schema [(''all_snapshots'', bool_property ''Remove all cached snapshots''),
         (''snapshot'', string_property ''Remove a specific snapshot id'')] [],
       \<lambda>args mode. clean H args mode)]"

section \<open>Registration\<close>

definition register_entries :: "tool_entry list \<Rightarrow> tool_table \<Rightarrow> tool_table" where
  "register_entries entries table =
     foldl (\<lambda>t (name, description, input_schema, handler).
              table_register name description input_schema handler t) table entries"

definition unadvertised :: "string list" where
  "unadvertised =
     [''folk_press'', ''folk_type'', ''folk_paste'', ''folk_hotkey'', ''folk_scroll'', ''folk_swipe'',
      ''folk_drag'', ''folk_move'', ''folk_perform_action'', ''folk_window'', ''folk_app'', ''folk_open'',
      ''folk_menu'', ''folk_sleep'', ''folk_clean'', ''folk_doctor'']"

definition advertised :: "bool \<Rightarrow> bool \<Rightarrow> string \<Rightarrow> bool" where
  "advertised semantic_click semantic_set_value name =
     (if name = ''folk_ui_snapshot'' \<or> name = ''folk_see'' then semantic_click \<or> semantic_set_value
      else if name = ''folk_click'' then semantic_click
      else if name = ''folk_set_value'' then semantic_set_value
      else if name \<in> set unadvertised then False
      else True)"

definition register_tools_with_semantic_capabilities ::
  "host \<Rightarrow> bool \<Rightarrow> bool \<Rightarrow> tool_table \<Rightarrow> tool_table" where
  "register_tools_with_semantic_capabilities H semantic_click semantic_set_value table =
     table_retain (\<lambda>t. advertised semantic_click semantic_set_value (tool_name t))
       (register_entries (control_tools H)
         (register_entries (set_value_tools H)
           (register_entries (input_tools H)
             (register_entries (click_tools H)
               (register_entries (capture_tools H)
                 (register_entries (host_tools H) table))))))"

definition register_tools :: "host \<Rightarrow> tool_table \<Rightarrow> (world, 'e, tool_table) act" where
  "register_tools H table =
     act_bind (supports_semantic_action H ''invoke'') (\<lambda>semantic_click.
     act_bind (supports_semantic_action H ''set_value'') (\<lambda>semantic_set_value.
     ret (register_tools_with_semantic_capabilities H semantic_click semantic_set_value table)))"

end
