(* ===== verification/Tools_Access.thy ===== *)
theory Tools_Access
  imports Tools_Table
begin

text \<open>
  What the tools can make the host do. The relation \<open>calls_within P\<close> says that an action only makes
  host calls that satisfy \<open>P\<close>; every handler is proved to stay within a set of calls, and the message
  handler inherits it from its table through the locale \<open>message_effects\<close>.
\<close>

section \<open>Bounded host calls\<close>

definition calls_within :: "(host_call \<Rightarrow> bool) \<Rightarrow> world \<Rightarrow> world \<Rightarrow> bool" where
  "calls_within P w w' \<longleftrightarrow> (\<exists>cs. trace w' = trace w @ cs \<and> list_all P cs)"

interpretation calls: effect_relation "calls_within P" for P
proof
  show "calls_within P s s" for s by (simp add: calls_within_def)
  show "calls_within P s t \<Longrightarrow> calls_within P t u \<Longrightarrow> calls_within P s u" for s t u
    by (auto simp: calls_within_def)
qed

named_theorems call_intros "actions that stay within a set of host calls"

lemma calls_same_trace: "trace w' = trace w \<Longrightarrow> calls_within P w w'"
  by (simp add: calls_within_def)

lemma calls_quiet: "(\<And>w. trace (snd (m w)) = trace w) \<Longrightarrow> keeps (calls_within P) m"
  by (rule keepsI) (simp add: calls_same_trace)

lemma calls_host_call [call_intros]: "P c \<Longrightarrow> keeps (calls_within P) (host_call H f c)"
  by (rule keepsI) (auto simp: host_call_def calls_within_def Let_def)

lemma calls_io_step [call_intros]: "keeps (calls_within P) (io_step H)"
  by (rule calls_quiet) (simp add: io_step_def)

lemma calls_get_files [call_intros]: "keeps (calls_within P) get_files"
  by (rule calls_quiet) (simp add: get_files_def)

lemma calls_put_node [call_intros]: "keeps (calls_within P) (put_node p n)"
  by (rule calls_quiet) (simp add: put_node_def)

lemma calls_fill_bytes [call_intros]: "keeps (calls_within P) (fill_bytes H n)"
  by (rule calls_quiet) (simp add: fill_bytes_def)

lemma calls_read_clock [call_intros]: "keeps (calls_within P) (read_clock H)"
  by (rule calls_quiet) (simp add: read_clock_def)

lemma calls_now_ms [call_intros]: "keeps (calls_within P) (now_ms H)"
  by (rule calls_quiet) (simp add: now_ms_eq)

lemma calls_log [call_intros]: "keeps (calls_within P) (log_status H s)"
  by (rule calls_quiet) (simp add: log_status_eq)

lemma calls_observations [call_intros]:
  "keeps (calls_within P) get_observations" "keeps (calls_within P) (put_observations os)"
  by (rule calls_quiet, simp add: get_observations_def put_observations_def)+

lemmas calls_control [call_intros] = calls.keeps_ret calls.keeps_fail calls.keeps_lift_res

lemmas calls_steps = calls.keeps_bind calls.keeps_match calls.keeps_map_err

section \<open>The file system makes no host calls\<close>

lemma calls_fs [call_intros]:
  "keeps (calls_within P) (fs_set_permissions H p m)" "keeps (calls_within P) (fs_create_new H p m)"
  "keeps (calls_within P) (fs_symlink_metadata H p)" "keeps (calls_within P) (fs_open H p)"
  "keeps (calls_within P) (fs_remove_file H p)"
  unfolding fs_set_permissions_def fs_create_new_def fs_symlink_metadata_def fs_open_def
    fs_remove_file_def
  by (auto intro!: calls_steps call_intros split: option.split node.split)

lemma calls_make_dirs: "keeps (calls_within P) (make_dirs H ps)"
  by (induction ps) (auto intro!: calls_steps call_intros split: option.split node.split)

lemma calls_private [call_intros]:
  "keeps (calls_within P) (ensure_private_dir H p)" "keeps (calls_within P) (open_new_private_file H p)"
  "keeps (calls_within P) (sync_all H)" "keeps (calls_within P) (sync_dir H p)"
  "keeps (calls_within P) (generate_hex H n)"
  unfolding ensure_private_dir_def fs_create_dir_all_def open_new_private_file_def sync_all_def
    sync_dir_def generate_hex_def
  by (auto intro!: calls_steps call_intros calls_make_dirs)

lemma calls_artifact_attempts: "keeps (calls_within P) (artifact_attempts H dir n)"
  by (induction n) (auto simp: Let_def intro!: calls_steps call_intros)

lemma calls_new_artifact [call_intros]: "keeps (calls_within P) (new_artifact H)"
  unfolding new_artifact_def create_artifact_file_def Let_def
  by (auto intro!: calls_steps call_intros calls_artifact_attempts)

lemma calls_hash_reads [call_intros]: "keeps (calls_within P) (hash_reads H left sofar acc)"
proof (induction H left sofar acc rule: hash_reads.induct)
  case (1 H left sofar acc)
  then show ?case
    by (subst hash_reads.simps) (auto simp: try_io_def Let_def intro!: calls_steps call_intros)
qed

lemma calls_screenshot [call_intros]: "keeps (calls_within P) (screenshot_reference H capture)"
  unfolding screenshot_reference_def try_io_def
  by (auto intro!: calls_steps call_intros split: node.split)

lemma calls_image_result [call_intros]: "keeps (calls_within P) (image_result H v capture l)"
  unfolding image_result_def Let_def by (auto intro!: calls_steps call_intros)

lemma calls_flatten [call_intros]: "keeps (calls_within P) m \<Longrightarrow> keeps (calls_within P) (flatten m)"
  unfolding flatten_def by (auto intro!: calls_steps call_intros)

lemma calls_backend [call_intros]: "P c \<Longrightarrow> keeps (calls_within P) (backend H f c)"
  unfolding backend_def by (auto intro!: calls_steps call_intros)

lemma calls_run_command [call_intros]:
  "P (Run_Process p args i cwd) \<Longrightarrow> keeps (calls_within P) (run_command H p args i cwd)"
  unfolding run_command_def try_io_def by (auto intro!: calls_steps call_intros)

lemma calls_observe [call_intros]:
  "(\<And>d. P (Observe_Semantic d)) \<Longrightarrow> keeps (calls_within P) (observe_semantic H)"
  unfolding observe_semantic_def cache_observation_def lift_lib_def
  by (auto intro!: calls_steps call_intros)

lemma calls_ensure_mutation:
  assumes "mode = Full \<Longrightarrow> keeps (calls_within P) m"
  shows "keeps (calls_within P) (act_bind (lift_res (ensure_mutation mode)) (\<lambda>_. m))"
  using assms by (cases "mode = Full") (auto simp: ensure_mutation_def intro: call_intros)

section \<open>The handlers\<close>

text \<open>
  What a tool may make the host do outside full mode: run an allowlisted program directly, never a
  shell and never with shell metacharacters in its arguments, look at the screen, the displays, the
  clipboard, the permissions and the accessibility tree, and create nothing else.
\<close>

fun safe_call :: "host_call \<Rightarrow> bool" where
  "safe_call (Run_Process program args input cwd) \<longleftrightarrow>
     program \<in> set safe_commands \<and> input = None \<and>
     (\<forall>a \<in> set args. \<forall>c \<in> set a. c \<notin> set restricted_shell_chars)"
| "safe_call Clipboard_Read \<longleftrightarrow> True"
| "safe_call (Capture mode p retina) \<longleftrightarrow> True"
| "safe_call (Capture_App app p retina) \<longleftrightarrow> True"
| "safe_call List_Screens \<longleftrightarrow> True"
| "safe_call Permissions_Probe \<longleftrightarrow> True"
| "safe_call (Observe_Semantic deadline) \<longleftrightarrow> True"
| "safe_call _ \<longleftrightarrow> False"

text \<open>What the advertised tools may make it do in full mode: no raw input, windows or applications.\<close>

fun full_call :: "host_call \<Rightarrow> bool" where
  "full_call (Run_Process program args input cwd) \<longleftrightarrow>
     input = None \<and> (program = ''/bin/sh'' \<or> program = ''ps'' \<or> program = ''hostname'')"
| "full_call (Spawn_Process program args) \<longleftrightarrow> program = ''/bin/sh''"
| "full_call (Clipboard_Write t) \<longleftrightarrow> True"
| "full_call Permissions_Grant \<longleftrightarrow> True"
| "full_call Query_Capabilities \<longleftrightarrow> True"
| "full_call (Engine_Execute ledger request) \<longleftrightarrow> path_abs ledger"
| "full_call c \<longleftrightarrow> safe_call c"

lemma restricted_command_safe:
  "restricted_command command = Some (program, parts) \<Longrightarrow> safe_call (Run_Process program parts None cwd)"
proof -
  assume r: "restricted_command command = Some (program, parts)"
  then have ws: "split_whitespace command = program # parts"
    and p: "program \<in> set safe_commands"
    and ok: "\<forall>c \<in> set command. c \<notin> set restricted_shell_chars"
    by (auto simp: restricted_command_def list_ex_iff split: if_splits list.splits)
  have "set a \<subseteq> set command" if "a \<in> set parts" for a
    using split_whitespace_set [of a command] that ws by simp
  with p ok show ?thesis by auto
qed

definition mode_call :: "access_mode \<Rightarrow> host_call \<Rightarrow> bool" where
  "mode_call mode c = (if mode = Full then full_call c else safe_call c)"

lemma mode_call_simps [simp]:
  "mode_call mode Clipboard_Read" "mode_call mode (Capture im p r)" "mode_call mode (Capture_App a p r)"
  "mode_call mode List_Screens" "mode_call mode Permissions_Probe" "mode_call mode (Observe_Semantic d)"
  "mode_call Full c = full_call c" "mode \<noteq> Full \<Longrightarrow> mode_call mode c = safe_call c"
  by (simp_all add: mode_call_def)

lemma safe_names: "''ps'' \<in> set safe_commands" "''hostname'' \<in> set safe_commands"
  by (simp_all add: safe_commands_def)

lemma mode_call_processes [simp]:
  "mode_call mode (Run_Process ''hostname'' [] None None)"
  "mode_call mode (Run_Process ''ps'' [''ax'', ''-o'', ''pid=,comm=''] None None)"
  using safe_names by (auto simp: mode_call_def restricted_shell_chars_def)

lemma mode_shell: "keeps (calls_within (mode_call mode)) (shell H args mode)"
  unfolding shell_def Let_def run_shell_def
  by (auto intro!: calls_steps call_intros split: option.split
      simp: mode_call_def dest!: restricted_command_safe [where cwd = None, simplified])

lemma mode_readers:
  "keeps (calls_within (mode_call mode)) (system_info H)"
  "keeps (calls_within (mode_call mode)) (list_apps H mode)"
  "keeps (calls_within (mode_call mode)) (list_screens H)"
  "keeps (calls_within (mode_call mode)) (clipboard_read H)"
  "keeps (calls_within (mode_call mode)) (ui_snapshot H)"
  unfolding system_info_def list_apps_def list_screens_def clipboard_read_def ui_snapshot_def Let_def
  by (auto intro!: calls_steps call_intros)

lemma mode_captures:
  "keeps (calls_within (mode_call mode)) (image H args)"
  "keeps (calls_within (mode_call mode)) (see H args)"
  "keeps (calls_within (mode_call mode)) (screen_capture H args)"
  unfolding image_def see_def screen_capture_def Let_def
  by (auto intro!: calls_steps call_intros split: option.split)

lemma mode_writers:
  "keeps (calls_within (mode_call mode)) (spawn_command H args mode)"
  "keeps (calls_within (mode_call mode)) (clipboard_write H args mode)"
  "keeps (calls_within (mode_call mode)) (permissions H args mode)"
  unfolding spawn_command_def clipboard_write_def permissions_def try_io_def
  by (auto intro!: calls_steps call_intros calls_ensure_mutation calls_flatten)

lemma mode_semantic:
  "keeps (calls_within (mode_call mode)) (click H args mode)"
  "keeps (calls_within (mode_call mode)) (set_value H args mode)"
proof -
  have one: "calls_within (mode_call Full) w w'" if "one_engine_run asked w w'" for asked w w'
    using that by (auto simp: one_engine_run_def calls_within_def)
  have ex: "keeps (calls_within (mode_call mode)) (act_bind (lift_res (ensure_mutation mode)) (\<lambda>_.
      act_bind (cached_target H ident tag) (\<lambda>(target, dl). execute_semantic H a target op dl im)))"
    (is "keeps _ ?m") for ident tag a op im
  proof (rule keepsI)
    fix w
    obtain r w' where m: "?m w = (r, w')" by (cases "?m w")
    from execute_target_trace [OF m] one show "calls_within (mode_call mode) w (snd (?m w))"
      using m by (cases "mode = Full") (auto simp: calls_same_trace)
  qed
  have c: "keeps (calls_within (mode_call mode)) (execute_click H mode op ident tag im)" 
    and v: "keeps (calls_within (mode_call mode)) (execute_set_value H mode op ident tag v im)"
    for op ident tag v im
    unfolding execute_click_def execute_set_value_def by (rule ex)+
  show "keeps (calls_within (mode_call mode)) (click H args mode)"
    "keeps (calls_within (mode_call mode)) (set_value H args mode)"
    unfolding click_def set_value_def
    by (auto intro!: calls_flatten calls.keeps_bind calls.keeps_lift_res c v)
qed

section \<open>The advertised tools\<close>

definition entry_tool :: "tool_entry \<Rightarrow> tool" where
  "entry_tool e = (case e of (name, description, input_schema, handler) \<Rightarrow>
     \<lparr>tool_name = name, tool_description = description, tool_input_schema = input_schema,
      tool_handler = handler\<rparr>)"

definition all_entries :: "host \<Rightarrow> tool_entry list" where
  "all_entries H = host_tools H @ capture_tools H @ click_tools H @ input_tools H @
     set_value_tools H @ control_tools H"

definition tools_of :: "host \<Rightarrow> access_mode \<Rightarrow> bool \<Rightarrow> bool \<Rightarrow> tool_table" where
  "tools_of H mode c v = register_tools_with_semantic_capabilities H c v (table_new mode)"

lemma register_entries_tools:
  "table_tools (register_entries es table) = table_tools table @ map entry_tool es"
  "table_mode (register_entries es table) = table_mode table"
proof -
  have "table_tools (register_entries es table) = table_tools table @ map entry_tool es \<and>
      table_mode (register_entries es table) = table_mode table"
    unfolding register_entries_def
    by (induction es arbitrary: table)
       (simp_all add: table_register_def entry_tool_def split: prod.split)
  then show "table_tools (register_entries es table) = table_tools table @ map entry_tool es"
    "table_mode (register_entries es table) = table_mode table" by simp_all
qed

lemma tools_of_tools:
  "table_tools (tools_of H mode c v) =
     map entry_tool (filter (\<lambda>e. advertised c v (fst e)) (all_entries H))"
  "table_mode (tools_of H mode c v) = mode"
proof -
  have "tool_name (entry_tool e) = fst e" for e by (simp add: entry_tool_def split: prod.split)
  then show "table_tools (tools_of H mode c v) =
     map entry_tool (filter (\<lambda>e. advertised c v (fst e)) (all_entries H))"
    by (simp add: tools_of_def register_tools_with_semantic_capabilities_def table_retain_def
        register_entries_tools all_entries_def filter_map comp_def table_new_def)
  show "table_mode (tools_of H mode c v) = mode"
    by (simp add: tools_of_def register_tools_with_semantic_capabilities_def table_retain_def
        register_entries_tools table_new_def)
qed

lemmas entries_defs = host_tools_def capture_tools_def click_tools_def input_tools_def
  set_value_tools_def control_tools_def

lemma unadvertised_iff:
  "advertised c v n \<longleftrightarrow>
     n \<notin> set unadvertised \<and> (n = ''folk_click'' \<longrightarrow> c) \<and> (n = ''folk_set_value'' \<longrightarrow> v) \<and>
     (n = ''folk_ui_snapshot'' \<or> n = ''folk_see'' \<longrightarrow> c \<or> v)"
  by (auto simp: advertised_def unadvertised_def)

text \<open>
  The server advertises exactly these tools, in this order: the eight that are always there, and
  the semantic ones only as far as the backend supports their action. Raw input, window, application
  and menu control, sleeping, cache cleaning and the health report are never offered.
\<close>

theorem advertised_tools_exact:
  "map tool_name (table_tools (tools_of H mode c v)) =
     [''folk_shell'', ''folk_system_info'', ''folk_list_apps'', ''folk_spawn'', ''folk_image''] @
     (if c \<or> v then [''folk_see''] else []) @
     [''folk_list_screens'', ''folk_clipboard_read'', ''folk_clipboard_write'', ''folk_permissions'',
      ''folk_screen_capture''] @
     (if c \<or> v then [''folk_ui_snapshot''] else []) @
     (if c then [''folk_click''] else []) @
     (if v then [''folk_set_value''] else [])"
proof -
  have "map tool_name (table_tools (tools_of H mode c v)) =
      filter (advertised c v) (map fst (all_entries H))"
    by (simp add: tools_of_tools filter_map comp_def entry_tool_def split: prod.split)
  also have "map fst (all_entries H) =
     [''folk_shell'', ''folk_system_info'', ''folk_list_apps'', ''folk_spawn'', ''folk_image'',
      ''folk_see'', ''folk_list_screens'', ''folk_clipboard_read'', ''folk_clipboard_write'',
      ''folk_permissions'', ''folk_doctor'', ''folk_screen_capture'', ''folk_ui_snapshot'',
      ''folk_click'', ''folk_press'', ''folk_type'', ''folk_paste'', ''folk_hotkey'', ''folk_scroll'',
      ''folk_swipe'', ''folk_drag'', ''folk_move'', ''folk_set_value'', ''folk_perform_action'',
      ''folk_window'', ''folk_app'', ''folk_open'', ''folk_menu'', ''folk_sleep'', ''folk_clean'']"
    by (simp add: all_entries_def entries_defs)
  finally show ?thesis by (simp add: unadvertised_iff unadvertised_def)
qed

section \<open>The access modes\<close>

lemma advertised_handlers:
  assumes "e \<in> set (all_entries H)" and "advertised c v (fst e)"
  shows "keeps (calls_within (mode_call mode)) (tool_handler (entry_tool e) args mode)"
proof -
  have "list_all (\<lambda>e. fst e \<notin> set unadvertised \<longrightarrow>
      keeps (calls_within (mode_call mode)) (snd (snd (snd e)) args mode)) (all_entries H)"
    by (simp add: all_entries_def entries_defs unadvertised_def mode_shell mode_readers mode_captures
        mode_writers mode_semantic)
  with assms show ?thesis
    by (auto simp: list_all_iff unadvertised_iff entry_tool_def split: prod.splits)
qed

interpretation mode_effects: message_effects "calls_within (mode_call mode)" H for mode H
  by unfold_locales (auto intro: call_intros)

lemma mode_handle_message:
  "keeps (calls_within (mode_call mode)) (handle_message H verbose (tools_of H mode c v) msg)"
  by (rule mode_effects.keeps_handle_message) (auto simp: tools_of_tools advertised_handlers)

lemma mode_call_eq: "mode_call mode = (if mode = Full then full_call else safe_call)"
  by (rule ext) (simp add: mode_call_def)

text \<open>
  In the limited and sandbox modes no message, well-formed or not, can make the host do more than
  look: every host call it causes runs an allowlisted program directly (never a shell, no shell
  metacharacter in an argument, no input), or reads the screen, the displays, the clipboard, the
  permissions or the accessibility tree.
\<close>

theorem restricted_modes_only_look:
  assumes "mode \<noteq> Full"
  shows "\<exists>cs. trace (snd (handle_message H verbose (tools_of H mode c v) msg w)) = trace w @ cs \<and>
    list_all safe_call cs"
proof -
  have "calls_within (mode_call mode) w (snd (handle_message H verbose (tools_of H mode c v) msg w))"
    using mode_handle_message [of mode H verbose c v msg] by (simp add: keeps_def)
  with assms show ?thesis by (auto simp: calls_within_def mode_call_eq)
qed

definition shell_message :: "string \<Rightarrow> json" where
  "shell_message command =
     Object [(''id'', jnat 1), (''method'', Str ''tools/call''),
       (''params'', Object [(''arguments'', Object [(''command'', Str command)]),
          (''name'', Str ''folk_shell'')])]"

theorem restricted_modes_only_look_witness:
  "\<exists>cs. trace (snd (handle_message demo_host False (tools_of demo_host Sandbox True True)
       (shell_message ''ls /'') demo_world)) = cs \<and> list_all safe_call cs"
proof -
  have "Sandbox \<noteq> Full" by simp
  from restricted_modes_only_look [OF this, of demo_host False True True "shell_message ''ls /''" demo_world]
  show ?thesis by (simp add: demo_world_def)
qed

text \<open>
  C23. In full mode a message can at most run a command in \<open>/bin/sh\<close>, \<open>ps\<close> or \<open>hostname\<close>, use the
  clipboard, request permissions, look at the host, and run the automation engine with its ledger at an
  absolute path; it can never type, press keys, scroll, move the pointer, or control windows,
  applications and menus directly.
\<close>

theorem full_mode_never_sends_raw_input:
  "\<exists>cs. trace (snd (handle_message H verbose (tools_of H Full c v) msg w)) = trace w @ cs \<and>
    list_all full_call cs \<and>
    set cs \<inter> ({Paste t | t. True} \<union> {Hotkey ks | ks. True} \<union> {Scroll d n | d n. True} \<union>
      {Move_Cursor t | t. True} \<union> {Press k n d | k n d. True} \<union>
      {Type_Text t b r d a | t b r d a. True} \<union> {Perform_Action t a | t a. True} \<union>
      {Open_Target t a b | t a b. True} \<union> {Window_Call a b t r | a b t r. True} \<union>
      {App_Call a b | a b. True} \<union> {Menu_Call a b m i | a b m i. True} \<union> {Sleep n | n. True}) = {}"
proof -
  have "calls_within (mode_call Full) w (snd (handle_message H verbose (tools_of H Full c v) msg w))"
    using mode_handle_message [of Full H verbose c v msg] by (simp add: keeps_def)
  then obtain cs where "trace (snd (handle_message H verbose (tools_of H Full c v) msg w)) = trace w @ cs"
    and "list_all full_call cs"
    by (auto simp: calls_within_def mode_call_eq)
  then show ?thesis by (intro exI [of _ cs]) (auto simp: list_all_iff)
qed

text \<open>
  C24. Outside full mode every mutating request is refused before it has any effect, with the message of
  the source: clipboard writes, permission grants, clicks, value changes and spawned processes, and a
  shell command that is not allowlisted.
\<close>

theorem mutations_are_blocked:
  assumes "mode \<noteq> Full"
  shows "clipboard_write H args mode w = (Inr (err_result ''action blocked in this mode'') :: string + json, w) \<and>
    click H args mode w = (Inr (err_result ''action blocked in this mode'') :: string + json, w) \<and>
    set_value H args mode w = (Inr (err_result ''action blocked in this mode'') :: string + json, w) \<and>
    (str_arg args ''action'' = Some ''grant'' \<longrightarrow>
      permissions H args mode w = (Inr (err_result ''action blocked in this mode'') :: string + json, w)) \<and>
    spawn_command H args mode w = (Inr (err_result ''full mode only'') :: string + json, w) \<and>
    (\<forall>command. str_arg args ''command'' = Some command \<and> restricted_command command = None \<longrightarrow>
      shell H args mode w = (Inr (err_result ''command blocked in this mode'') :: string + json, w))"
  using assms
  by (simp add: clipboard_write_def click_def set_value_def permissions_def spawn_command_def
      shell_def ensure_mutation_def flatten_def act_match_def fail_def ret_def need_str_def)

theorem mutations_are_blocked_witness:
  "shell demo_host (jobj [(''command'', Str ''ls; rm x'')]) Limited demo_world =
     (Inr (err_result ''command blocked in this mode'') :: string + json, demo_world)"
proof -
  have "restricted_command ''ls; rm x'' = None"
    by (simp add: restricted_command_def restricted_shell_chars_def)
  moreover have "str_arg (jobj [(''command'', Str ''ls; rm x'')]) ''command'' = Some ''ls; rm x''"
    by (simp add: str_arg_def)
  moreover have "Limited \<noteq> Full" by simp
  ultimately show ?thesis using mutations_are_blocked by blast
qed

text \<open>
  An accepted shell request makes exactly one host call. In full mode that is \<open>/bin/sh -c\<close> with the
  command as its one argument; in the other modes it is the allowlisted program itself with the words
  of the command as its arguments, so that a shell never sees the command. The working directory is
  the requested one and nothing is sent to standard input.
\<close>

theorem shell_runs_one_process:
  assumes "str_arg args ''command'' = Some command"
    and "mode = Full \<and> call = Run_Process ''/bin/sh'' [''-c'', command] None (str_arg args ''cwd'') \<or>
      mode \<noteq> Full \<and> restricted_command command = Some (program, parts) \<and>
      call = Run_Process program parts None (str_arg args ''cwd'')"
  shows "\<exists>result w'. shell H args mode w = (Inr result :: string + json, w') \<and>
    trace w' = trace w @ [call] \<and>
    (\<forall>out. h_run H (trace w @ [call]) = Inr out \<longrightarrow>
      result = text_result (shell_text
        \<lparr>cmd_stdout = from_utf8_lossy (out_stdout out), cmd_stderr = from_utf8_lossy (out_stderr out),
         cmd_status = (case out_code out of None \<Rightarrow> - 1 | Some n \<Rightarrow> n)\<rparr>))"
  using assms
  by (cases "h_run H (trace w @ [call])")
     (auto simp: shell_def run_shell_def run_command_def need_str_def try_io_def flatten_def
       act_bind_def act_match_def act_map_err_def host_call_def ret_def Let_def)

theorem shell_runs_one_process_witness:
  "\<exists>result w'. shell demo_host (jobj [(''command'', Str ''ls -l /'')]) Sandbox demo_world =
     (Inr result :: string + json, w') \<and>
     trace w' = [Run_Process ''ls'' [''-l'', ''/''] None None]"
proof -
  let ?args = "jobj [(''command'', Str ''ls -l /'')]"
  have "restricted_command ''ls -l /'' = Some (''ls'', [''-l'', ''/''])" by code_simp
  moreover have "str_arg ?args ''command'' = Some ''ls -l /''" "str_arg ?args ''cwd'' = None"
    by (simp_all add: str_arg_def)
  ultimately show ?thesis
    using shell_runs_one_process [of ?args "''ls -l /''" Sandbox "Run_Process ''ls'' [''-l'', ''/''] None None"
        "''ls''" "[''-l'', ''/'']" demo_host demo_world]
    by (auto simp: demo_world_def)
qed

section \<open>Screenshots are hashed whole\<close>

lemma hash_reads_okD:
  assumes "hash_reads H left sofar acc w = (Inr r, w')"
  shows "r = acc @ left \<and> sofar + length left \<le> max sofar max_screenshot_bytes \<and> files w' = files w"
  using assms
proof (induction H left sofar acc arbitrary: w rule: hash_reads.induct)
  case (1 H left sofar acc)
  show ?case
  proof (cases "left = []")
    case True
    with "1.prems" show ?thesis
      by (subst (asm) hash_reads.simps)
         (auto simp: try_io_def act_bind_eq_Inr act_map_err_eq_Inr)
  next
    case False
    let ?n = "sofar + length (take 8192 left)"
    from "1.prems" False obtain w1 where small: "\<not> (?n > u64_max \<or> ?n > max_screenshot_bytes)"
      and r: "hash_reads H (drop 8192 left) ?n (acc @ take 8192 left) w1 = (Inr r, w')"
      and w1: "files w1 = files w"
      by (subst (asm) hash_reads.simps)
         (auto simp: try_io_def act_bind_eq_Inr act_map_err_eq_Inr Let_def split: if_splits)
    from "1.IH" [OF False refl refl small r] have
      "r = (acc @ take 8192 left) @ drop 8192 left"
      "?n + length (drop 8192 left) \<le> max ?n max_screenshot_bytes" "files w' = files w1"
      by auto
    moreover have "?n + length (drop 8192 left) = sofar + length left" by simp
    ultimately show ?thesis using w1 small by (auto simp: max_def split: if_splits)
  qed
qed

text \<open>The steps of a report that succeeded.\<close>

lemma screenshot_reference_okD:
  assumes "screenshot_reference H capture w = (Inr report, w')"
  obtains q w1 m bs w2 w3 md' w4 v where "fs_open H (cap_path capture) w = (Inr q, w1)"
    "fs_symlink_metadata H q w1 = (Inr (Regular m bs), w2)" "length bs \<le> max_screenshot_bytes"
    "fs_set_permissions H q 384 w2 = (Inr (), w3)" "fs_symlink_metadata H q w3 = (Inr md', w4)"
    "hash_reads H bs 0 [] w4 = (Inr v, w')"
    "report = jobj [(''contentHash'', Str (''sha256:'' @ hex_bytes (h_sha256 H v))),
       (''mimeType'', Str (cap_mime capture))]"
proof -
  from assms have u: "h_unix H" by (auto simp: screenshot_reference_def split: if_splits)
  with assms obtain q w1 where o: "fs_open H (cap_path capture) w = (Inr q, w1)"
    and rest: "act_bind (try_io (fs_symlink_metadata H q)) (\<lambda>metadata.
        case metadata of
          Regular m bs \<Rightarrow>
            if length bs > max_screenshot_bytes then fail Screenshot_Reference_Unavailable
            else
              act_bind (try_io (fs_set_permissions H q 384)) (\<lambda>_.
              act_bind (try_io (fs_symlink_metadata H q)) (\<lambda>metadata'.
              if (case metadata' of Regular m' _ \<Rightarrow> m' mod 64 \<noteq> 0 | _ \<Rightarrow> True)
              then fail Screenshot_Reference_Unavailable
              else
                act_bind (hash_reads H bs 0 []) (\<lambda>hashed.
                ret (jobj [(''contentHash'', Str (''sha256:'' @ hex_bytes (h_sha256 H hashed))),
                   (''mimeType'', Str (cap_mime capture))]))))
        | _ \<Rightarrow> fail Screenshot_Reference_Unavailable) w1 = (Inr report, w')"
    by (auto simp: screenshot_reference_def act_bind_eq_Inr try_io_def act_map_err_eq_Inr)
  from rest obtain w2 nd where md: "fs_symlink_metadata H q w1 = (Inr nd, w2)"
    by (auto simp: act_bind_eq_Inr try_io_def act_map_err_eq_Inr)
  from rest md obtain m bs where r: "nd = Regular m bs"
    by (cases nd) (auto simp: act_bind_Inr try_io_def act_map_err_def)
  with rest md obtain w3 w4 w5 v md' where small: "length bs \<le> max_screenshot_bytes"
    and p: "fs_set_permissions H q 384 w2 = (Inr (), w3)"
    and m2: "fs_symlink_metadata H q w3 = (Inr md', w4)"
    and h: "hash_reads H bs 0 [] w4 = (Inr v, w')"
    and rep: "report = jobj [(''contentHash'', Str (''sha256:'' @ hex_bytes (h_sha256 H v))),
                   (''mimeType'', Str (cap_mime capture))]"
    by (auto simp: act_bind_eq_Inr try_io_def act_map_err_eq_Inr split: if_splits)
  show thesis using that [OF o _ small p m2 h rep] md r by blast
qed

text \<open>
  C38. A screenshot is only reported when the capture is a regular file of at most 64 MiB; the report
  carries the SHA-256 of exactly the file's bytes, and the file is left readable by its owner only
  with its contents unchanged.
\<close>

theorem screenshot_hash_is_of_the_file:
  assumes "screenshot_reference H capture w = (Inr report, w')"
  shows "\<exists>q m bs. follow max_symlinks (files w) (cap_path capture) = Some q \<and>
    files w q = Some (Regular m bs) \<and> length bs \<le> 67108864 \<and>
    files w' = (files w)(q \<mapsto> Regular 384 bs) \<and>
    jget report ''contentHash'' = Some (Str (''sha256:'' @ hex_bytes (h_sha256 H bs))) \<and>
    jget report ''mimeType'' = Some (Str (cap_mime capture))"
proof -
  from assms obtain q w1 m bs w2 w3 md' w4 v where o: "fs_open H (cap_path capture) w = (Inr q, w1)"
    and md: "fs_symlink_metadata H q w1 = (Inr (Regular m bs), w2)"
    and small: "length bs \<le> max_screenshot_bytes"
    and p: "fs_set_permissions H q 384 w2 = (Inr (), w3)"
    and m2: "fs_symlink_metadata H q w3 = (Inr md', w4)" and h: "hash_reads H bs 0 [] w4 = (Inr v, w')"
    and rep: "report = jobj [(''contentHash'', Str (''sha256:'' @ hex_bytes (h_sha256 H v))),
       (''mimeType'', Str (cap_mime capture))]"
    by (rule screenshot_reference_okD)
  from o have q: "follow max_symlinks (files w) (cap_path capture) = Some q"
    and f1: "files w1 = files w"
    by (auto simp: fs_open_def act_bind_eq_Inr split: option.splits node.splits)
  from md have f2: "files w2 = files w1" and r: "files w1 q = Some (Regular m bs)"
    by (auto simp: fs_symlink_metadata_def act_bind_eq_Inr ok_or_eq_Inr)
  then have "follow max_symlinks (files w2) q = Some q" "files w2 q = Some (Regular m bs)"
    by simp_all
  with fs_set_permissions_regular [OF p] have f3: "files w3 = (files w2)(q \<mapsto> Regular 384 bs)" by blast
  from m2 have f4: "files w4 = files w3"
    by (auto simp: fs_symlink_metadata_def act_bind_eq_Inr)
  note hr = hash_reads_okD [OF h]
  from hr have "v = bs" "files w' = files w4" by simp_all
  with q r f1 f2 f3 f4 small rep show ?thesis
    by (intro exI [of _ q] exI [of _ m] exI [of _ bs]) (simp add: max_screenshot_bytes_def)
qed

definition shot_world :: world where
  "shot_world = demo_world\<lparr>files := [Path True [''s.png''] \<mapsto> Regular 420 ''PNG'']\<rparr>"

definition shot_capture :: image_capture where
  "shot_capture = \<lparr>cap_path = Path True [''s.png''], cap_mode = Screen_Mode, cap_mime = ''image/png'',
     cap_ephemeral = False\<rparr>"

theorem screenshot_hash_is_of_the_file_witness:
  "\<exists>report w'. screenshot_reference demo_host shot_capture shot_world = (Inr report, w') \<and>
     files w' (Path True [''s.png'']) = Some (Regular 384 ''PNG'')"
proof -
  have "\<exists>report w'. screenshot_reference demo_host shot_capture shot_world = (Inr report, w')"
    by (simp add: screenshot_reference_def shot_capture_def shot_world_def demo_host_def demo_world_def
        try_io_def act_bind_def act_map_err_def fs_open_def io_step_def get_files_def ret_def
        fs_symlink_metadata_def lift_res_def max_screenshot_bytes_def fs_set_permissions_def
        put_node_def hash_reads.simps u64_max_def)
  then obtain report w' where s: "screenshot_reference demo_host shot_capture shot_world = (Inr report, w')"
    by blast
  have "follow max_symlinks (files shot_world) (cap_path shot_capture) = Some (Path True [''s.png''])"
    "files shot_world (Path True [''s.png'']) = Some (Regular 420 ''PNG'')"
    by (simp_all add: shot_world_def shot_capture_def)
  with screenshot_hash_is_of_the_file [OF s] s show ?thesis by auto
qed

end
