(* ===== verification/Http.thy ===== *)
theory Http
  imports Mcp
begin

text \<open>
  The crate \<open>folk-transport\<close> (\<open>src/crates/folk-transport/src/lib.rs\<close>), HTTP part: the request parser,
  the bearer check, the read loop of a connection, the routes and the POST handler.

  A connection is the bytes the peer sends, cut into the segments the network delivers, what has been
  written back, and an oracle of I/O faults; a read returns at most 4096 bytes of the next segment,
  and nothing at the end of the input. A failed write is taken to have sent nothing. The branch
  \<open>GET /sse\<close> ends in the outcome \<open>Streaming\<close>; what the thread does from there is the theory \<open>Sse\<close>.
\<close>

section \<open>Errors\<close>

datatype transport_error =
    Transport_Io io_error
  | Transport_Json string
  | Web_Socket string
  | Url_Error string
  | Invalid_Signal_Url
  | Invalid_Peer_Identity
  | Handshake_Required
  | Invalid_Encrypted_Payload
  | Crypto_Error

section \<open>Parsing a request\<close>

definition max_http_header_bytes :: nat where
  "max_http_header_bytes = 64 * 1024"

definition max_http_body_bytes :: nat where
  "max_http_body_bytes = 1024 * 1024"

text \<open>\<open>haystack.windows(n).position(|w| w == needle)\<close>.\<close>

fun find_bytes :: "bytes \<Rightarrow> bytes \<Rightarrow> nat option" where
  "find_bytes haystack needle =
     (if length haystack < length needle then None
      else if take (length needle) haystack = needle then Some 0
      else (case haystack of [] \<Rightarrow> None | b # bs \<Rightarrow> map_option Suc (find_bytes bs needle)))"

declare find_bytes.simps [simp del]

definition crlf :: string where
  "crlf = [CHR 0x0D, CHR 0x0A]"

definition header_end :: "bytes \<Rightarrow> (nat \<times> nat) option" where
  "header_end request =
     (case find_bytes request (crlf @ crlf) of
        Some offset \<Rightarrow> Some (offset, 4)
      | None \<Rightarrow> map_option (\<lambda>offset. (offset, 2)) (find_bytes request [CHR 0x0A, CHR 0x0A]))"

definition header_lines :: "bytes \<Rightarrow> string list" where
  "header_lines headers = str_lines (from_utf8_lossy headers)"

fun first_length :: "string list \<Rightarrow> nat option" where
  "first_length [] = None"
| "first_length (line # ls) =
     (case split_once CHR '':'' line of
        None \<Rightarrow> first_length ls
      | Some (name, value) \<Rightarrow>
          if eq_ignore_ascii_case name ''content-length'' then
            (case parse_unsigned usize_max (trim value) of
               Some n \<Rightarrow> Some n
             | None \<Rightarrow> first_length ls)
          else first_length ls)"

definition content_length :: "bytes \<Rightarrow> nat" where
  "content_length headers =
     (case first_length (header_lines headers) of None \<Rightarrow> 0 | Some n \<Rightarrow> n)"

definition has_header :: "bytes \<Rightarrow> string \<Rightarrow> bool" where
  "has_header headers expected_name =
     list_ex (\<lambda>line. case split_once CHR '':'' line of
         None \<Rightarrow> False
       | Some (name, _) \<Rightarrow> eq_ignore_ascii_case (trim name) expected_name) (header_lines headers)"

section \<open>The bearer check\<close>

text \<open>The fold over the zipped bytes; a byte's exclusive or is that of its code.\<close>

unbundle bit_operations_syntax

definition xor_byte :: "char \<Rightarrow> char \<Rightarrow> nat" where
  "xor_byte a b = byte_val a XOR byte_val b"

definition constant_time_eq :: "bytes \<Rightarrow> bytes \<Rightarrow> bool" where
  "constant_time_eq left right =
     (if length left \<noteq> length right then False
      else foldl (\<lambda>difference (l, r). difference OR xor_byte l r) 0 (zip left right) = 0)"

text \<open>The loop over the lines: \<open>None\<close> when a second \<open>Authorization\<close> header ends it.\<close>

fun auth_value :: "string list \<Rightarrow> string option \<Rightarrow> string option option" where
  "auth_value [] value = Some value"
| "auth_value (line # ls) value =
     (case split_once CHR '':'' line of
        None \<Rightarrow> auth_value ls value
      | Some (name, candidate) \<Rightarrow>
          if \<not> eq_ignore_ascii_case (trim name) ''authorization'' then auth_value ls value
          else if value \<noteq> None then None
          else auth_value ls (Some (trim candidate)))"

definition authorized :: "bytes \<Rightarrow> string \<Rightarrow> bool" where
  "authorized headers expected =
     (case auth_value (header_lines headers) None of
        Some (Some v) \<Rightarrow>
          (case strip_prefix ''Bearer '' v of
             Some candidate \<Rightarrow> constant_time_eq candidate expected
           | None \<Rightarrow> False)
      | _ \<Rightarrow> False)"

section \<open>Connections\<close>

record conn =
  c_input :: "bytes list"
  c_sent :: bytes
  c_ops :: nat
  c_fault :: "nat \<Rightarrow> io_error option"
  c_world :: world

type_synonym 'a conn_act = "(conn, transport_error, 'a) act"

definition sock_op :: "unit conn_act" where
  "sock_op c =
     ((case c_fault c (c_ops c) of None \<Rightarrow> Inr () | Some e \<Rightarrow> Inl (Transport_Io e)),
      c\<lparr>c_ops := Suc (c_ops c)\<rparr>)"

fun next_read :: "bytes list \<Rightarrow> bytes \<times> bytes list" where
  "next_read [] = ([], [])"
| "next_read (seg # rest) =
     (take 4096 seg, if length seg \<le> 4096 then rest else drop 4096 seg # rest)"

definition sock_read :: "bytes conn_act" where
  "sock_read = act_bind sock_op (\<lambda>_ c.
     case next_read (c_input c) of (chunk, rest) \<Rightarrow> (Inr chunk, c\<lparr>c_input := rest\<rparr>))"

definition sock_write :: "bytes \<Rightarrow> unit conn_act" where
  "sock_write bs = act_bind sock_op (\<lambda>_ c. (Inr (), c\<lparr>c_sent := c_sent c @ bs\<rparr>))"

definition in_world :: "(world, 'e, 'a) act \<Rightarrow> (conn, 'e, 'a) act" where
  "in_world m c = (case m (c_world c) of (r, w) \<Rightarrow> (r, c\<lparr>c_world := w\<rparr>))"

section \<open>Responses\<close>

record http_response =
  rs_status :: nat
  rs_reason :: string
  rs_content_type :: string
  rs_body :: bytes

definition response_bytes :: "http_response \<Rightarrow> bytes" where
  "response_bytes r =
     ''HTTP/1.1 '' @ show_nat (rs_status r) @ '' '' @ rs_reason r @ crlf @
     ''content-type: '' @ rs_content_type r @ crlf @
     ''content-length: '' @ show_nat (length (rs_body r)) @ crlf @
     ''connection: close'' @ crlf @ crlf"

definition send_response :: "http_response \<Rightarrow> unit conn_act" where
  "send_response r =
     act_bind (sock_write (response_bytes r)) (\<lambda>_.
     act_bind (sock_write (rs_body r)) (\<lambda>_.
     sock_op))"

definition plain :: "nat \<Rightarrow> string \<Rightarrow> string \<Rightarrow> http_response" where
  "plain status reason body =
     \<lparr>rs_status = status, rs_reason = reason, rs_content_type = ''text/plain'', rs_body = body\<rparr>"

definition bad_request :: "string \<Rightarrow> http_response" where
  "bad_request body = plain 400 ''Bad Request'' body"

definition payload_too_large :: http_response where
  "payload_too_large = plain 413 ''Payload Too Large'' ''payload too large''"

section \<open>The read loop\<close>

text \<open>What one turn of the loop decides on the buffer so far.\<close>

datatype read_outcome = Read_Reject http_response | Read_Done | Read_More "nat option"

definition expected_length :: "bytes \<Rightarrow> nat option \<Rightarrow> http_response + nat option" where
  "expected_length buffer expected =
     (case expected of
        Some n \<Rightarrow> Inr (Some n)
      | None \<Rightarrow>
          (case header_end buffer of
             None \<Rightarrow> Inr None
           | Some (offset, len) \<Rightarrow>
               if offset > max_http_header_bytes then Inl (bad_request ''bad request'')
               else
                 (let body_len = content_length (take offset buffer)
                  in if body_len > max_http_body_bytes then Inl payload_too_large
                     else Inr (Some (offset + len + body_len)))))"

definition read_step :: "bytes \<Rightarrow> nat option \<Rightarrow> read_outcome" where
  "read_step buffer expected =
     (case expected_length buffer expected of
        Inl r \<Rightarrow> Read_Reject r
      | Inr (Some n) \<Rightarrow> if length buffer \<ge> n then Read_Done else Read_More (Some n)
      | Inr None \<Rightarrow>
          if length buffer > max_http_header_bytes then Read_Reject (bad_request ''bad request'')
          else Read_More None)"

definition input_size :: "conn \<Rightarrow> nat" where
  "input_size c = length (concat (c_input c))"

lemma next_read_concat: "fst (next_read segs) @ concat (snd (next_read segs)) = concat segs"
  by (cases segs) auto

lemma sock_read_chunk:
  assumes "sock_read c = (Inr chunk, c')"
  shows "chunk @ concat (c_input c') = concat (c_input c)" "length chunk \<le> 4096"
    "c_world c' = c_world c" "c_sent c' = c_sent c" "c_fault c' = c_fault c"
  using assms next_read_concat [of "c_input c"]
  by (auto simp: sock_read_def sock_op_def act_bind_def split: option.splits prod.splits
      elim: next_read.elims)

lemma sock_read_smaller:
  assumes "sock_read c = (Inr chunk, c')" and "chunk \<noteq> []"
  shows "input_size c' < input_size c"
  using arg_cong [OF sock_read_chunk(1) [OF assms(1)], of length] assms(2)
  by (cases chunk) (auto simp: input_size_def)

text \<open>
  The loop itself: it ends at the end of the input, at a fault, when a request was refused (the result
  is then \<open>None\<close>, the response has been sent) or when the buffer holds the announced request.
\<close>

function read_request :: "bytes \<Rightarrow> nat option \<Rightarrow> bytes option conn_act" where
  "read_request buffer expected c =
     (case sock_read c of
        (Inl e, c') \<Rightarrow> (Inl e, c')
      | (Inr chunk, c') \<Rightarrow>
          if chunk = [] then (Inr (Some buffer), c')
          else
            (case read_step (buffer @ chunk) expected of
               Read_Reject r \<Rightarrow> act_bind (send_response r) (\<lambda>_. ret None) c'
             | Read_Done \<Rightarrow> (Inr (Some (buffer @ chunk)), c')
             | Read_More expected' \<Rightarrow> read_request (buffer @ chunk) expected' c'))"
  by pat_completeness auto
termination
  by (relation "measure (\<lambda>(buffer, expected, c). input_size c)")
     (auto dest: sock_read_smaller [OF sym] sock_read_smaller)

declare read_request.simps [simp del]

section \<open>Routes\<close>

datatype http_outcome = Finished | Streaming

definition first_words :: "bytes \<Rightarrow> string \<times> string" where
  "first_words buffer =
     (let request_line = (case str_lines (from_utf8_lossy buffer) of [] \<Rightarrow> [] | l # ls \<Rightarrow> trim l)
      in case split_whitespace request_line of
           [] \<Rightarrow> ([], [])
         | [m] \<Rightarrow> (m, [])
         | m # p # ps \<Rightarrow> (m, p))"

definition done_with :: "http_response \<Rightarrow> http_outcome conn_act" where
  "done_with r = act_bind (send_response r) (\<lambda>_. ret Finished)"

definition ok_json :: "string \<Rightarrow> http_response" where
  "ok_json out = \<lparr>rs_status = 200, rs_reason = ''OK'', rs_content_type = ''application/json'',
     rs_body = out\<rparr>"

definition handle_http_post :: "host \<Rightarrow> bool \<Rightarrow> tool_table \<Rightarrow> bytes \<Rightarrow> http_outcome conn_act" where
  "handle_http_post H verbose table request =
     (case header_end request of
        None \<Rightarrow> done_with (bad_request ''missing headers'')
      | Some (offset, len) \<Rightarrow>
          (let body_start = offset + len; body_len = content_length (take offset request) in
           if body_len > max_http_body_bytes then done_with payload_too_large
           else if body_len = 0 \<or> body_start + body_len > length request
           then done_with (bad_request ''missing body'')
           else
             (case h_json_parse H (take body_len (drop body_start request)) of
                Inl e \<Rightarrow> done_with (bad_request ''invalid json'')
              | Inr msg \<Rightarrow>
                  act_bind (act_map_err Transport_Json
                    (in_world (handle_message H verbose table msg))) (\<lambda>answer.
                  case answer of
                    Some out \<Rightarrow> done_with (ok_json out)
                  | None \<Rightarrow> done_with (plain 202 ''Accepted'' ''accepted'')))))"

definition forbidden :: http_response where
  "forbidden = plain 403 ''Forbidden'' ''forbidden''"

definition unauthorized :: http_response where
  "unauthorized = plain 401 ''Unauthorized'' ''unauthorized''"

text \<open>What follows the read loop in \<open>handle_http_client\<close>.\<close>

definition route :: "host \<Rightarrow> bool \<Rightarrow> tool_table \<Rightarrow> string \<Rightarrow> bytes \<Rightarrow> http_outcome conn_act" where
  "route H verbose table bearer buffer =
     (case first_words buffer of (method, path) \<Rightarrow>
        (case header_end buffer of
           None \<Rightarrow> done_with (bad_request ''missing headers'')
         | Some (header_offset, _) \<Rightarrow>
             (let headers = take header_offset buffer in
              if has_header headers ''origin'' then done_with forbidden
              else if ((method = ''GET'' \<and> path = ''/sse'') \<or> (method = ''POST'' \<and> path = ''/message'')) \<and>
                \<not> authorized headers bearer
              then done_with unauthorized
              else if method = ''OPTIONS'' then done_with forbidden
              else if method = ''GET'' \<and> path = ''/health'' then done_with (plain 200 ''OK'' ''ok'')
              else if method = ''GET'' \<and> path = ''/sse'' then ret Streaming
              else if method = ''POST'' \<and> path = ''/message''
              then handle_http_post H verbose table buffer
              else done_with (plain 404 ''Not Found'' ''not found''))))"

definition handle_http_client ::
  "host \<Rightarrow> bool \<Rightarrow> tool_table \<Rightarrow> string \<Rightarrow> http_outcome conn_act" where
  "handle_http_client H verbose table bearer =
     act_bind sock_op (\<lambda>_.
     act_bind sock_op (\<lambda>_.
     act_bind (read_request [] None) (\<lambda>received.
     case received of
       None \<Rightarrow> ret Finished
     | Some buffer \<Rightarrow> route H verbose table bearer buffer)))"

definition http_bind_addr :: "nat \<Rightarrow> string \<times> nat" where
  "http_bind_addr port = (''127.0.0.1'', port)"

section \<open>Searching\<close>

lemma find_bytes_Cons:
  "find_bytes (b # bs) n =
     (if length bs + 1 < length n then None
      else if take (length n) (b # bs) = n then Some 0 else map_option Suc (find_bytes bs n))"
  by (subst find_bytes.simps) simp

lemma find_bytes_Nil: "n \<noteq> [] \<Longrightarrow> find_bytes [] n = None"
  by (subst find_bytes.simps) simp

lemma find_bytes_short: "length h < length n \<Longrightarrow> find_bytes h n = None"
  by (subst find_bytes.simps) simp

lemma match_too_long: "length h < length n \<Longrightarrow> take (length n) (drop j h) \<noteq> n"
proof
  assume l: "length h < length n" and "take (length n) (drop j h) = n"
  from arg_cong [OF this(2), of length] l show False by simp
qed

lemma all_nat_iff: "(\<forall>j. P (j::nat)) \<longleftrightarrow> P 0 \<and> (\<forall>j. P (Suc j))"
  by (metis not0_implies_Suc)

lemma find_bytes_iff:
  assumes "n \<noteq> []"
  shows "(find_bytes h n = Some i \<longleftrightarrow>
      take (length n) (drop i h) = n \<and> (\<forall>j < i. take (length n) (drop j h) \<noteq> n)) \<and>
    (find_bytes h n = None \<longleftrightarrow> (\<forall>j. take (length n) (drop j h) \<noteq> n))"
  using assms
proof (induction h arbitrary: i)
  case Nil
  then show ?case by (simp add: find_bytes_Nil)
next
  case (Cons b bs)
  show ?case
  proof (cases "length bs + 1 < length n")
    case True
    with match_too_long [of "b # bs" n] show ?thesis by (simp add: find_bytes_short)
  next
    case False
    note IH = Cons.IH [OF assms]
    show ?thesis
    proof (cases "take (length n) (b # bs) = n")
      case True
      with False have "find_bytes (b # bs) n = Some 0" by (simp add: find_bytes_Cons)
      with True show ?thesis by (cases i) (auto intro: exI [of _ 0])
    next
      case t: False
      have s: "take (length n) (drop (Suc j) (b # bs)) = take (length n) (drop j bs)" for j by simp
      from False t have f: "find_bytes (b # bs) n = map_option Suc (find_bytes bs n)"
        by (simp add: find_bytes_Cons)
      have "find_bytes (b # bs) n = None \<longleftrightarrow> (\<forall>j. take (length n) (drop j (b # bs)) \<noteq> n)"
        unfolding f all_nat_iff [of "\<lambda>j. take (length n) (drop j (b # bs)) \<noteq> n"] s
        using IH t by simp
      moreover have "find_bytes (b # bs) n = Some i \<longleftrightarrow>
          take (length n) (drop i (b # bs)) = n \<and> (\<forall>j < i. take (length n) (drop j (b # bs)) \<noteq> n)"
      proof (cases i)
        case 0
        with f t show ?thesis by auto
      next
        case (Suc k)
        show ?thesis
          unfolding f Suc All_less_Suc2 s
          using IH [of k] t by auto
      qed
      ultimately show ?thesis by blast
    qed
  qed
qed

text \<open>
  \<open>find_bytes\<close> finds the first occurrence of a non-empty needle, and nothing exactly when there is
  none; so the end of the header is the first empty line ended by CR LF CR LF, and LF LF counts only
  when there is none.
\<close>

theorem header_end_is_first_blank_line:
  "(needle \<noteq> [] \<longrightarrow>
     (find_bytes h needle = Some i \<longleftrightarrow>
        take (length needle) (drop i h) = needle \<and> (\<forall>j < i. take (length needle) (drop j h) \<noteq> needle)) \<and>
     (find_bytes h needle = None \<longleftrightarrow> (\<forall>j. take (length needle) (drop j h) \<noteq> needle))) \<and>
   (\<forall>offset len. header_end h = Some (offset, len) \<longrightarrow>
      offset + len \<le> length h \<and>
      (len = 4 \<and> take 4 (drop offset h) = crlf @ crlf \<or>
       len = 2 \<and> take 2 (drop offset h) = [CHR 0x0A, CHR 0x0A]))"
proof (intro conjI allI impI)
  assume "needle \<noteq> []"
  from find_bytes_iff [OF this, of h i]
  show "find_bytes h needle = Some i \<longleftrightarrow>
        take (length needle) (drop i h) = needle \<and> (\<forall>j < i. take (length needle) (drop j h) \<noteq> needle)"
    "find_bytes h needle = None \<longleftrightarrow> (\<forall>j. take (length needle) (drop j h) \<noteq> needle)"
    by blast+
next
  fix offset len
  assume e: "header_end h = Some (offset, len)"
  have cr: "crlf @ crlf \<noteq> []" "length (crlf @ crlf) = 4" by (simp_all add: crlf_def)
  have lf: "[CHR 0x0A, CHR 0x0A] \<noteq> []" by simp
  have occ: "len = 4 \<and> take 4 (drop offset h) = crlf @ crlf \<or>
       len = 2 \<and> take 2 (drop offset h) = [CHR 0x0A, CHR 0x0A]"
    using e find_bytes_iff [OF cr(1), of h offset] find_bytes_iff [OF lf, of h offset] cr(2)
    by (auto simp: header_end_def numeral_2_eq_2 split: option.splits)
  then show "len = 4 \<and> take 4 (drop offset h) = crlf @ crlf \<or>
       len = 2 \<and> take 2 (drop offset h) = [CHR 0x0A, CHR 0x0A]" .
  from occ have "length (take len (drop offset h)) = len"
    using cr(2) by (elim disjE conjE) simp_all
  then show "offset + len \<le> length h"
    using occ by (cases "offset \<le> length h") auto
qed

theorem header_end_is_first_blank_line_witness:
  "find_bytes (''ab'' @ crlf @ crlf) crlf = Some 2 \<and> take 2 (drop 2 (''ab'' @ crlf @ crlf)) = crlf"
  using header_end_is_first_blank_line [of crlf "''ab'' @ crlf @ crlf" 2]
  by (auto simp: crlf_def less_Suc_eq numeral_eq_Suc)

section \<open>The bearer check is exact\<close>

lemma foldl_or_zero:
  "foldl (\<lambda>d (l, r). d OR xor_byte l r) n ps = 0 \<longleftrightarrow> n = 0 \<and> (\<forall>(l, r) \<in> set ps. xor_byte l r = 0)"
  by (induction ps arbitrary: n) (auto simp: or_eq_0_iff)

lemma xor_byte_zero: "xor_byte a b = 0 \<longleftrightarrow> a = b"
proof
  assume "xor_byte a b = 0"
  then have "byte_val a XOR (byte_val a XOR byte_val b) = byte_val a" by (simp add: xor_byte_def)
  then have "byte_val b = byte_val a" by (simp add: xor.assoc [symmetric])
  then show "a = b" by (simp add: byte_val_inj)
qed (simp add: xor_byte_def)

lemma constant_time_eq_same: "constant_time_eq left right \<longleftrightarrow> left = right"
  by (simp add: constant_time_eq_def foldl_or_zero xor_byte_zero list_eq_iff_zip_eq)

text \<open>
  The constant-time comparison decides equality of the two byte strings.
\<close>

theorem constant_time_eq_iff: "constant_time_eq left right \<longleftrightarrow> left = right"
  by (rule constant_time_eq_same)

section \<open>Authorization\<close>

definition is_auth_line :: "string \<Rightarrow> bool" where
  "is_auth_line line \<longleftrightarrow>
     (\<exists>name value. split_once CHR '':'' line = Some (name, value) \<and>
        eq_ignore_ascii_case (trim name) ''authorization'')"

definition line_value :: "string \<Rightarrow> string" where
  "line_value line = (case split_once CHR '':'' line of None \<Rightarrow> [] | Some (n, v) \<Rightarrow> trim v)"

lemma auth_value_lines:
  "auth_value ls found =
     (case (found, filter is_auth_line ls) of
        (v, []) \<Rightarrow> Some v
      | (None, [l]) \<Rightarrow> Some (Some (line_value l))
      | _ \<Rightarrow> None)"
  by (induction ls found rule: auth_value.induct)
     (auto simp: is_auth_line_def line_value_def split: option.splits list.splits)

text \<open>
  C40. A request is authorized exactly when it has one \<open>Authorization\<close> header, in any letter case, and
  its trimmed value is \<open>Bearer\<close>, one space and the server's token: a missing, a second or a merely
  similar header is refused.
\<close>

theorem authorized_iff:
  "authorized headers token \<longleftrightarrow>
     (\<exists>line. filter is_auth_line (header_lines headers) = [line] \<and>
        line_value line = ''Bearer '' @ token)"
proof -
  have prefix: "(case strip_prefix p v of Some candidate \<Rightarrow> constant_time_eq candidate token
      | None \<Rightarrow> False) \<longleftrightarrow> v = p @ token" for p v
  proof -
    have "(case w of Some candidate \<Rightarrow> constant_time_eq candidate token | None \<Rightarrow> False) \<longleftrightarrow>
        w = Some token" for w
      by (cases w) (auto simp: constant_time_eq_same)
    then show ?thesis by (simp only: strip_prefix_iff)
  qed
  consider "filter is_auth_line (header_lines headers) = []"
    | l where "filter is_auth_line (header_lines headers) = [l]"
    | l k ls where "filter is_auth_line (header_lines headers) = l # k # ls"
    by (metis list.exhaust)
  then show ?thesis
  proof cases
    case (2 l)
    then show ?thesis by (simp only: authorized_def auth_value_lines prod.case list.case option.case prefix)
      auto
  qed (simp_all add: authorized_def auth_value_lines)
qed

section \<open>What reaches the tools\<close>

lemma sock_op_world: "sock_op c = (r, c') \<Longrightarrow> c_world c' = c_world c"
  by (auto simp: sock_op_def)

definition same_world :: "conn \<Rightarrow> conn \<Rightarrow> bool" where
  "same_world c c' \<longleftrightarrow> c_world c' = c_world c"

interpretation wire: effect_relation same_world
  by unfold_locales (simp_all add: same_world_def)

lemma wire_sock [simp]: "keeps same_world sock_op" "keeps same_world (sock_write bs)"
proof -
  show o: "keeps same_world sock_op"
    by (rule keepsI) (simp add: sock_op_def same_world_def)
  have "keeps same_world (\<lambda>c. (Inr (), c\<lparr>c_sent := c_sent c @ bs\<rparr>))" for bs
    by (rule keepsI) (simp add: same_world_def)
  with o show "keeps same_world (sock_write bs)"
    unfolding sock_write_def by (intro wire.keeps_bind)
qed

lemma wire_done [simp]: "keeps same_world (send_response r)" "keeps same_world (done_with r)"
  unfolding send_response_def done_with_def
  by (auto intro!: wire.keeps_bind wire.keeps_ret)

lemma sock_read_world: "sock_read c = (r, c') \<Longrightarrow> same_world c c'"
  by (cases r)
     (auto simp: sock_read_def same_world_def sock_op_def act_bind_def split: option.splits prod.splits)

lemma read_request_world: "read_request buffer expected c = (r, c') \<Longrightarrow> same_world c c'"
proof (induction buffer expected c rule: read_request.induct)
  case (1 buffer expected c)
  obtain v c1 where s: "sock_read c = (v, c1)" by (cases "sock_read c")
  note w = sock_read_world [OF s]
  show ?case
  proof (cases v)
    case (Inl e)
    with 1(2) s w show ?thesis by (simp add: read_request.simps)
  next
    case (Inr chunk)
    show ?thesis
    proof (cases "chunk = []")
      case True
      with 1(2) s w Inr show ?thesis by (simp add: read_request.simps)
    next
      case False
      show ?thesis
      proof (cases "read_step (buffer @ chunk) expected")
        case (Read_Reject resp)
        have "keeps same_world (act_bind (send_response resp) (\<lambda>_. ret (None :: bytes option)))"
          by (intro wire.keeps_bind wire.keeps_ret) simp
        from keepsD [OF this] 1(2) s Inr False Read_Reject have "same_world c1 c'"
          by (simp add: read_request.simps)
        with w show ?thesis by (rule wire.rel_trans)
      next
        case Read_Done
        with 1(2) s w Inr False show ?thesis by (simp add: read_request.simps)
      next
        case (Read_More e')
        with 1(2) s Inr False have "read_request (buffer @ chunk) e' c1 = (r, c')"
          by (simp add: read_request.simps)
        with 1(1) [OF s [symmetric] Inr False Read_More] have "same_world c1 c'"
          by simp
        with w show ?thesis by (rule wire.rel_trans)
      qed
    qed
  qed
qed

text \<open>A request that may reach the tools: the conditions the handlers check, over its bytes.\<close>

definition may_dispatch :: "string \<Rightarrow> bytes \<Rightarrow> bool" where
  "may_dispatch bearer buffer \<longleftrightarrow>
     (\<exists>offset len. header_end buffer = Some (offset, len) \<and>
        first_words buffer = (''POST'', ''/message'') \<and>
        \<not> has_header (take offset buffer) ''origin'' \<and> authorized (take offset buffer) bearer \<and>
        0 < content_length (take offset buffer) \<and>
        content_length (take offset buffer) \<le> max_http_body_bytes \<and>
        offset + len + content_length (take offset buffer) \<le> length buffer)"

lemma post_no_dispatch:
  assumes "header_end buffer = Some (offset, len)"
    and "content_length (take offset buffer) = 0 \<or>
      content_length (take offset buffer) > max_http_body_bytes \<or>
      offset + len + content_length (take offset buffer) > length buffer"
  shows "keeps same_world (handle_http_post H verbose table buffer)"
  using assms by (auto simp: handle_http_post_def Let_def)

lemma route_no_dispatch:
  assumes "\<not> may_dispatch bearer buffer"
  shows "keeps same_world (route H verbose table bearer buffer)"
proof (cases "header_end buffer")
  case None
  then show ?thesis by (simp add: route_def split: prod.split)
next
  case (Some ol)
  obtain offset len where ol: "header_end buffer = Some (offset, len)" using Some by (cases ol) auto
  show ?thesis
  proof (cases "first_words buffer = (''POST'', ''/message'') \<and>
        \<not> has_header (take offset buffer) ''origin'' \<and> authorized (take offset buffer) bearer")
    case True
    with assms ol have "keeps same_world (handle_http_post H verbose table buffer)"
      by (intro post_no_dispatch) (auto simp: may_dispatch_def)
    with True ol show ?thesis by (simp add: route_def)
  next
    case False
    with ol show ?thesis by (auto simp: route_def Let_def wire.keeps_ret split: prod.split)
  qed
qed

lemma http_client_dispatches:
  assumes "handle_http_client H verbose table bearer c = (r, c')" and "c_world c' \<noteq> c_world c"
  shows "\<exists>buffer c1 c2. read_request [] None c1 = (Inr (Some buffer), c2) \<and>
    c_input c1 = c_input c \<and> may_dispatch bearer buffer"
proof -
  obtain c0 where c0: "sock_op c = (Inr (), c0)"
    using assms by (cases "sock_op c"; cases "fst (sock_op c)")
      (auto simp: handle_http_client_def act_bind_def dest: sock_op_world)
  obtain c1 where c1: "sock_op c0 = (Inr (), c1)"
    using assms c0 by (cases "sock_op c0"; cases "fst (sock_op c0)")
      (auto simp: handle_http_client_def act_bind_def dest!: sock_op_world)
  have w1: "c_world c1 = c_world c" and i1: "c_input c1 = c_input c"
    using c0 c1 by (auto simp: sock_op_def)
  obtain v c2 where rd: "read_request [] None c1 = (v, c2)" by (cases "read_request [] None c1")
  have w2: "c_world c2 = c_world c"
    using read_request_world [OF rd] w1 by (simp add: same_world_def)
  from assms(1) c0 c1 rd have h: "(case v of Inl e \<Rightarrow> (Inl e, c2)
      | Inr received \<Rightarrow> (case received of None \<Rightarrow> ret Finished
         | Some buffer \<Rightarrow> route H verbose table bearer buffer) c2) = (r, c')"
    by (simp add: handle_http_client_def act_bind_def split: sum.split_asm)
  show ?thesis
  proof (cases "\<exists>buffer. v = Inr (Some buffer)")
    case False
    with h have "c' = c2" by (auto split: sum.splits option.splits)
    with w2 assms(2) show ?thesis by simp
  next
    case True
    then obtain buffer where v: "v = Inr (Some buffer)" by blast
    have "may_dispatch bearer buffer"
    proof (rule ccontr)
      assume "\<not> may_dispatch bearer buffer"
      from keepsD [OF route_no_dispatch [OF this]] h v have "same_world c2 c'" by simp
      with w2 assms(2) show False by (simp add: same_world_def)
    qed
    with rd v i1 show ?thesis by blast
  qed
qed

text \<open>
  C4. Nothing reaches the tools over HTTP without the token: if handling a connection changes anything
  on the host side (a log line, a host call, a file), the connection's bytes were a POST to \<open>/message\<close>
  without an \<open>Origin\<close> header, authorized by the server's bearer token, with a complete body of at
  most 1 MiB.
\<close>

theorem http_dispatch_requires_token:
  assumes "handle_http_client H verbose table bearer c = (r, c')" and "c_world c' \<noteq> c_world c"
  shows "\<exists>buffer c1 c2. read_request [] None c1 = (Inr (Some buffer), c2) \<and>
    c_input c1 = c_input c \<and> may_dispatch bearer buffer"
  using assms by (rule http_client_dispatches)

section \<open>The request buffer is bounded\<close>

definition read_inv :: "bytes \<Rightarrow> nat option \<Rightarrow> bool" where
  "read_inv buffer expected \<longleftrightarrow>
     (case expected of
        None \<Rightarrow> length buffer \<le> max_http_header_bytes
      | Some n \<Rightarrow> length buffer < n \<and> n \<le> max_http_header_bytes + 4 + max_http_body_bytes)"

definition max_request_bytes :: nat where
  "max_request_bytes = max_http_header_bytes + 4 + max_http_body_bytes + 4096"

lemma header_end_len: "header_end b = Some (offset, len) \<Longrightarrow> len \<le> 4"
  by (auto simp: header_end_def split: option.splits)

lemma read_step_inv: "read_step b expected = Read_More e' \<Longrightarrow>
    expected = None \<or> (\<exists>n. expected = Some n \<and> n \<le> max_http_header_bytes + 4 + max_http_body_bytes) \<Longrightarrow>
    read_inv b e'"
  using header_end_len
  by (fastforce simp: read_step_def read_inv_def expected_length_def Let_def
      split: option.splits sum.splits if_splits)

lemma read_request_bounded:
  "read_request buffer expected c = (Inr (Some b), c') \<Longrightarrow> read_inv buffer expected \<Longrightarrow>
     length b \<le> max_request_bytes \<and> b @ concat (c_input c') = buffer @ concat (c_input c)"
proof (induction buffer expected c rule: read_request.induct)
  case (1 buffer expected c)
  have small: "length buffer \<le> max_http_header_bytes + 4 + max_http_body_bytes"
    using 1(3) by (auto simp: read_inv_def split: option.splits)
  from 1(2) obtain chunk c1 where s: "sock_read c = (Inr chunk, c1)"
    by (cases "sock_read c"; cases "fst (sock_read c)") (auto simp: read_request.simps)
  note rd = sock_read_chunk [OF s]
  show ?case
  proof (cases "chunk = []")
    case True
    with 1(2) s rd small show ?thesis by (auto simp: read_request.simps max_request_bytes_def)
  next
    case False
    show ?thesis
    proof (cases "read_step (buffer @ chunk) expected")
      case (Read_Reject resp)
      with 1(2) s False show ?thesis
        by (auto simp: read_request.simps act_bind_eq_Inr)
    next
      case Read_Done
      with 1(2) s False rd small show ?thesis
        by (auto simp: read_request.simps max_request_bytes_def)
    next
      case (Read_More e')
      have "read_inv (buffer @ chunk) e'"
        using Read_More 1(3) by (intro read_step_inv) (auto simp: read_inv_def split: option.splits)
      moreover from 1(2) s False Read_More
      have "read_request (buffer @ chunk) e' c1 = (Inr (Some b), c')"
        by (simp add: read_request.simps)
      ultimately have "length b \<le> max_request_bytes \<and>
          b @ concat (c_input c') = (buffer @ chunk) @ concat (c_input c1)"
        using 1(1) [OF s [symmetric] _ False Read_More] by simp
      with rd(1) show ?thesis by simp
    qed
  qed
qed

text \<open>
  C26. However much a peer sends, the server buffers at most 64 KiB of header, the blank line, 1 MiB of
  body and one read of 4 KiB; what it buffered is a prefix of what was sent, byte for byte, and the
  loop always ends.
\<close>

theorem http_buffer_is_bounded:
  assumes "read_request [] None c = (Inr (Some buffer), c')"
  shows "length buffer \<le> 65536 + 4 + 1048576 + 4096 \<and>
    buffer @ concat (c_input c') = concat (c_input c)"
proof -
  have "read_inv [] None" by (simp add: read_inv_def)
  from read_request_bounded [OF assms this] show ?thesis
    by (simp add: max_request_bytes_def max_http_header_bytes_def max_http_body_bytes_def)
qed

section \<open>A well-formed request is served\<close>

lemma sock_ok:
  assumes "\<forall>n. c_fault c n = None"
  shows "sock_op c = (Inr (), c\<lparr>c_ops := Suc (c_ops c)\<rparr>)"
    "sock_write bs c = (Inr (), c\<lparr>c_ops := Suc (c_ops c), c_sent := c_sent c @ bs\<rparr>)"
  using assms by (simp_all add: sock_op_def sock_write_def act_bind_def)

lemma send_response_ok:
  assumes "\<forall>n. c_fault c n = None"
  shows "\<exists>c'. send_response r c = (Inr (), c') \<and> c_sent c' = c_sent c @ response_bytes r @ rs_body r \<and>
    c_world c' = c_world c"
  using assms by (simp add: send_response_def act_bind_def sock_ok)

lemma done_with_ok:
  assumes "\<forall>n. c_fault c n = None"
  shows "\<exists>c'. done_with r c = (Inr Finished, c') \<and> c_sent c' = c_sent c @ response_bytes r @ rs_body r \<and>
    c_world c' = c_world c"
  using send_response_ok [OF assms, of r] by (auto simp: done_with_def act_bind_def ret_def)

lemma read_single_segment:
  assumes nf: "\<forall>n. c_fault c n = None" and i: "c_input c = [req]"
    and m: "may_dispatch bearer req" and l: "length req \<le> 4096"
  shows "read_request [] None c = (Inr (Some req), c\<lparr>c_ops := Suc (c_ops c), c_input := []\<rparr>)"
proof -
  from m obtain offset len where h: "header_end req = Some (offset, len)"
    and b: "content_length (take offset req) \<le> max_http_body_bytes"
    and full: "offset + len + content_length (take offset req) \<le> length req"
    by (auto simp: may_dispatch_def)
  have "req \<noteq> []" using m by (cases req) (auto simp: may_dispatch_def header_end_def find_bytes_Nil crlf_def)
  moreover have "read_step req None = Read_Done"
    using h b full l
    by (simp add: read_step_def expected_length_def max_http_header_bytes_def Let_def)
  moreover have "sock_read c = (Inr req, c\<lparr>c_ops := Suc (c_ops c), c_input := []\<rparr>)"
    using nf i l by (simp add: sock_read_def act_bind_def sock_ok)
  ultimately show ?thesis by (simp add: read_request.simps)
qed

lemma post_served:
  assumes "\<forall>n. c_fault c n = None" and "c_input c = [req]" and "length req \<le> 4096"
    and "may_dispatch bearer req" and "header_end req = Some (offset, len)"
    and "h_json_parse H (take (content_length (take offset req)) (drop (offset + len) req)) = Inr msg"
    and "handle_message H verbose table msg (c_world c) = (Inr answer, w')"
  shows "\<exists>c'. handle_http_client H verbose table bearer c = (Inr Finished, c') \<and> c_world c' = w' \<and>
    (let r = (case answer of Some out \<Rightarrow> ok_json out | None \<Rightarrow> plain 202 ''Accepted'' ''accepted'')
     in c_sent c' = c_sent c @ response_bytes r @ rs_body r)"
proof -
  let ?c1 = "c\<lparr>c_ops := Suc (Suc (c_ops c))\<rparr>"
  let ?c2 = "?c1\<lparr>c_ops := Suc (c_ops ?c1), c_input := []\<rparr>"
  let ?r = "case answer of Some out \<Rightarrow> ok_json out | None \<Rightarrow> plain 202 ''Accepted'' ''accepted''"
  have rd: "read_request [] None ?c1 = (Inr (Some req), ?c2)"
    using assms(1-4) by (intro read_single_segment [where bearer = bearer]) simp_all
  from assms(4,5) have m: "first_words req = (''POST'', ''/message'')"
    "\<not> has_header (take offset req) ''origin''" "authorized (take offset req) bearer"
    "0 < content_length (take offset req)" "content_length (take offset req) \<le> max_http_body_bytes"
    "offset + len + content_length (take offset req) \<le> length req"
    by (auto simp: may_dispatch_def)
  have nf: "\<forall>n. c_fault (?c2\<lparr>c_world := w'\<rparr>) n = None" using assms(1) by simp
  obtain c' where c': "done_with ?r (?c2\<lparr>c_world := w'\<rparr>) = (Inr Finished, c')"
    "c_sent c' = c_sent c @ response_bytes ?r @ rs_body ?r" "c_world c' = w'"
    using done_with_ok [OF nf, of ?r] by auto
  have "in_world (handle_message H verbose table msg) ?c2 = (Inr answer, ?c2\<lparr>c_world := w'\<rparr>)"
    using assms(7) by (simp add: in_world_def)
  then have "handle_http_post H verbose table req ?c2 = done_with ?r (?c2\<lparr>c_world := w'\<rparr>)"
    using assms(5,6) m
    by (cases answer) (simp_all add: handle_http_post_def act_bind_def act_map_err_def)
  then have "route H verbose table bearer req ?c2 = (Inr Finished, c')"
    using m assms(5) c'(1) by (simp add: route_def)
  with rd assms(1) have "handle_http_client H verbose table bearer c = (Inr Finished, c')"
    by (simp add: handle_http_client_def act_bind_def sock_ok)
  with c' show ?thesis by (simp add: Let_def)
qed

text \<open>
  C25. An authorized POST that fits one segment is served: its body is parsed and handled exactly once,
  on the host's present state, and the peer gets the complete response: the handler's JSON with status
  200, or status 202 when there is nothing to answer.
\<close>

theorem authorized_post_is_served:
  assumes "\<forall>n. c_fault c n = None" and "c_input c = [req]" and "length req \<le> 4096"
    and "may_dispatch bearer req" and "header_end req = Some (offset, len)"
    and "h_json_parse H (take (content_length (take offset req)) (drop (offset + len) req)) = Inr msg"
    and "handle_message H verbose table msg (c_world c) = (Inr answer, w')"
  shows "\<exists>c'. handle_http_client H verbose table bearer c = (Inr Finished, c') \<and> c_world c' = w' \<and>
    (let r = (case answer of Some out \<Rightarrow> ok_json out | None \<Rightarrow> plain 202 ''Accepted'' ''accepted'')
     in c_sent c' = c_sent c @ response_bytes r @ rs_body r)"
  using assms by (rule post_served)

section \<open>A concrete request\<close>

definition demo_request :: bytes where
  "demo_request =
     ''POST /message HTTP/1.1'' @ crlf @ ''Authorization: Bearer tok'' @ crlf @
     ''content-length: 2'' @ crlf @ crlf @ ''{}''"

definition ping_host :: host where
  "ping_host = demo_host\<lparr>h_json_parse := \<lambda>_. Inr (Object [(''id'', jnat 1), (''method'', Str ''ping'')])\<rparr>"

definition demo_conn :: conn where
  "demo_conn = \<lparr>c_input = [demo_request], c_sent = [], c_ops = 0, c_fault = (\<lambda>_. None),
     c_world = demo_world\<rparr>"

lemma demo_request_facts:
  "header_end demo_request = Some (68, 4)" "first_words demo_request = (''POST'', ''/message'')"
  "has_header (take 68 demo_request) ''origin'' = False"
  "authorized (take 68 demo_request) ''tok'' = True" "length demo_request = 74"
  by code_simp+

lemma demo_request_length: "content_length (take 68 demo_request) = 2"
proof -
  have ls: "header_lines (take 68 demo_request) =
      [''POST /message HTTP/1.1'', ''Authorization: Bearer tok'', ''content-length: 2'']"
    by code_simp
  have "show_nat 2 = ''2''" by (simp add: show_nat.simps digit_char_def)
  then have p: "parse_unsigned usize_max ''2'' = Some 2"
    using parse_show_nat [of 2 usize_max] by (simp add: usize_max_def)
  have t: "trim '' 2'' = ''2''" by code_simp
  have "split_once CHR '':'' ''POST /message HTTP/1.1'' = None"
    "split_once CHR '':'' ''Authorization: Bearer tok'' = Some (''Authorization'', '' Bearer tok'')"
    "split_once CHR '':'' ''content-length: 2'' = Some (''content-length'', '' 2'')"
    "\<not> eq_ignore_ascii_case ''Authorization'' ''content-length''"
    "eq_ignore_ascii_case ''content-length'' ''content-length''"
    by code_simp+
  then show ?thesis by (simp add: content_length_def ls p t)
qed

lemma demo_request_dispatch: "may_dispatch ''tok'' demo_request"
  using demo_request_facts demo_request_length
  by (simp add: may_dispatch_def max_http_body_bytes_def)

lemma ping_message:
  "\<exists>w'. handle_message ping_host True (table_new Full)
       (Object [(''id'', jnat 1), (''method'', Str ''ping'')]) demo_world = (Inr (Some []), w') \<and>
     w' \<noteq> demo_world"
  by (simp add: handle_message_def obj_get_def say_def log_status_eq act_bind_def dispatch_method_def
      some_response_def json_response_def act_map_def lift_res_def ret_def ping_host_def demo_host_def
      demo_world_def)

lemma demo_conn_facts:
  "\<forall>n. c_fault demo_conn n = None" "c_input demo_conn = [demo_request]" "length demo_request \<le> 4096"
  "h_json_parse ping_host (take (content_length (take 68 demo_request)) (drop (68 + 4) demo_request)) =
     Inr (Object [(''id'', jnat 1), (''method'', Str ''ping'')])"
  by (simp_all add: demo_conn_def demo_request_facts ping_host_def)

theorem authorized_post_is_served_witness:
  "\<exists>c'. handle_http_client ping_host True (table_new Full) ''tok'' demo_conn = (Inr Finished, c') \<and>
     c_sent c' = response_bytes (ok_json []) @ rs_body (ok_json [])"
proof -
  obtain w' where "handle_message ping_host True (table_new Full)
      (Object [(''id'', jnat 1), (''method'', Str ''ping'')]) (c_world demo_conn) = (Inr (Some []), w')"
    using ping_message by (auto simp: demo_conn_def)
  from authorized_post_is_served [OF demo_conn_facts(1-3) demo_request_dispatch
      demo_request_facts(1) demo_conn_facts(4) this]
  show ?thesis by (simp add: demo_conn_def Let_def) blast
qed

theorem http_dispatch_requires_token_witness:
  "\<exists>buffer. may_dispatch ''tok'' buffer \<and>
     c_world (snd (handle_http_client ping_host True (table_new Full) ''tok'' demo_conn)) \<noteq> demo_world"
proof -
  obtain w' where m: "handle_message ping_host True (table_new Full)
      (Object [(''id'', jnat 1), (''method'', Str ''ping'')]) (c_world demo_conn) = (Inr (Some []), w')"
    and w: "w' \<noteq> demo_world"
    using ping_message by (auto simp: demo_conn_def)
  from post_served [OF demo_conn_facts(1-3) demo_request_dispatch
      demo_request_facts(1) demo_conn_facts(4) m]
  obtain c' where c': "handle_http_client ping_host True (table_new Full) ''tok'' demo_conn = (Inr Finished, c')"
    "c_world c' = w'" by blast
  moreover from c' w have "c_world c' \<noteq> c_world demo_conn" by (simp add: demo_conn_def)
  ultimately show ?thesis
    using http_dispatch_requires_token [OF c'(1)] w by auto
qed

theorem http_buffer_is_bounded_witness:
  "\<exists>c'. read_request [] None demo_conn = (Inr (Some demo_request), c') \<and>
     length demo_request \<le> 65536 + 4 + 1048576 + 4096"
  using read_single_segment [OF demo_conn_facts(1,2) demo_request_dispatch demo_conn_facts(3)]
    http_buffer_is_bounded [of demo_conn demo_request] by blast

section \<open>The accept loop\<close>

text \<open>
  \<open>run_http\<close>: what binding the address gives is the parameter \<open>listener\<close> (an error, or what
  \<open>listener.incoming()\<close> has yielded so far). The result is the connections a thread was spawned for,
  in order; each thread runs \<open>handle_http_client\<close>.
\<close>

fun accept_loop ::
  "host \<Rightarrow> bool \<Rightarrow> (io_error + conn) list \<Rightarrow> (world, transport_error, conn list) act" where
  "accept_loop H verbose [] = ret []"
| "accept_loop H verbose (Inr stream # rest) = act_map (Cons stream) (accept_loop H verbose rest)"
| "accept_loop H verbose (Inl err # rest) =
     act_bind (say H verbose (''HTTP accept error: '' @ io_msg err)) (\<lambda>_. accept_loop H verbose rest)"

definition run_http ::
  "host \<Rightarrow> (string \<times> nat \<Rightarrow> io_error + (io_error + conn) list) \<Rightarrow> bool \<Rightarrow> nat \<Rightarrow>
   (world, transport_error, conn list) act" where
  "run_http H listener verbose port =
     act_bind (lift_res (map_err Transport_Io (listener (http_bind_addr port)))) (\<lambda>incoming.
     act_bind (say H verbose (''HTTP listening on http://127.0.0.1:'' @ show_nat port @ ''/'')) (\<lambda>_.
     accept_loop H verbose incoming))"

fun accepted :: "(io_error + conn) list \<Rightarrow> conn list" where
  "accepted [] = []"
| "accepted (Inr c # rest) = c # accepted rest"
| "accepted (Inl e # rest) = accepted rest"

lemma accept_loop_ok:
  "\<exists>w'. accept_loop H verbose incoming w = (Inr (accepted incoming), w') \<and> only_logs w w'"
proof (induction incoming arbitrary: w rule: accepted.induct)
  case 1
  then show ?case by (simp add: ret_def logs.rel_refl)
next
  case (2 c rest)
  from 2 [of w] show ?case by (auto simp: act_map_def act_bind_def ret_def)
next
  case (3 e rest)
  obtain w1 where s: "say H verbose (''HTTP accept error: '' @ io_msg e) w =
      (Inr () :: transport_error + unit, w1)" "only_logs w w1"
    using say_ok by blast
  from 3 [of w1] obtain w2 where "accept_loop H verbose rest w1 = (Inr (accepted rest), w2)"
    "only_logs w1 w2" by blast
  with s show ?case by (auto simp: act_bind_Inr intro: logs.rel_trans)
qed

text \<open>
  The HTTP server listens on the loopback address only (its behaviour depends on no other
  address), and once bound it keeps serving: every accepted connection gets its thread, in order,
  and a failed accept is at most logged.
\<close>

theorem http_server_is_local_and_survives_errors:
  assumes "listener (''127.0.0.1'', port) = Inr incoming"
  shows "\<exists>w'. run_http H listener verbose port w = (Inr (accepted incoming), w') \<and> only_logs w w'"
proof -
  obtain w1 where s: "say H verbose (''HTTP listening on http://127.0.0.1:'' @ show_nat port @ ''/'') w =
      (Inr () :: transport_error + unit, w1)" "only_logs w w1"
    using say_ok by blast
  moreover obtain w2 where "accept_loop H verbose incoming w1 = (Inr (accepted incoming), w2)"
    "only_logs w1 w2" using accept_loop_ok by blast
  ultimately show ?thesis
    using assms by (auto simp: run_http_def http_bind_addr_def act_bind_Inr intro: logs.rel_trans)
qed

theorem http_server_is_local_and_survives_errors_witness:
  "\<exists>w'. run_http demo_host (\<lambda>a. if a = (''127.0.0.1'', 8080)
        then Inr [Inl (Io_Error Not_Found ''x''), Inr demo_conn] else Inl (Io_Error Not_Found ''x''))
      True 8080 demo_world = (Inr [demo_conn], w') \<and> only_logs demo_world w'"
  using http_server_is_local_and_survives_errors
    [where listener = "\<lambda>a. if a = (''127.0.0.1'', 8080)
        then Inr [Inl (Io_Error Not_Found ''x''), Inr demo_conn] else Inl (Io_Error Not_Found ''x'')"
      and port = 8080 and incoming = "[Inl (Io_Error Not_Found ''x''), Inr demo_conn]"]
  by simp

section \<open>The read loop ends\<close>

lemma send_response_ops: "c_ops (snd (send_response r c)) \<le> c_ops c + 3"
  by (simp add: send_response_def sock_write_def sock_op_def act_bind_def split: option.split)

lemma read_request_ops:
  "read_inv buffer expected \<Longrightarrow>
     c_ops (snd (read_request buffer expected c)) + length buffer \<le>
       c_ops c + max_http_header_bytes + 4 + max_http_body_bytes + 4"
proof (induction buffer expected c rule: read_request.induct)
  case (1 buffer expected c)
  have small: "length buffer \<le> max_http_header_bytes + 4 + max_http_body_bytes"
    using 1(2) by (auto simp: read_inv_def split: option.splits)
  obtain v c1 where s: "sock_read c = (v, c1)" by (cases "sock_read c")
  have ops: "c_ops c1 = Suc (c_ops c)"
    using s by (auto simp: sock_read_def sock_op_def act_bind_def split: option.splits prod.splits)
  have refuse: "c_ops (snd ((act_bind (send_response x) (\<lambda>_. ret None) :: bytes option conn_act) c1)) +
      length buffer \<le> c_ops c + max_http_header_bytes + 4 + max_http_body_bytes + 4" for x
  proof -
    have "c_ops (snd ((act_bind (send_response x) (\<lambda>_. ret None) :: bytes option conn_act) c1))
        \<le> c_ops c1 + 3"
      using send_response_ops [of x c1] by (auto simp: act_bind_def ret_def split: prod.splits sum.splits)
    with ops small show ?thesis by simp
  qed
  show ?case
  proof (cases v)
    case (Inl e)
    with s ops small show ?thesis by (simp add: read_request.simps [of _ _ c])
  next
    case (Inr chunk)
    show ?thesis
    proof (cases "\<exists>e'. read_step (buffer @ chunk) expected = Read_More e' \<and> chunk \<noteq> []")
      case False
      with s ops small Inr refuse show ?thesis
        by (auto simp: read_request.simps [of _ _ c] split: read_outcome.split)
    next
      case True
      then obtain e' where m: "read_step (buffer @ chunk) expected = Read_More e'" and ne: "chunk \<noteq> []"
        by blast
      have "read_inv (buffer @ chunk) e'"
        using m 1(2) by (intro read_step_inv) (auto simp: read_inv_def split: option.splits)
      then have "c_ops (snd (read_request (buffer @ chunk) e' c1)) + length (buffer @ chunk) \<le>
          c_ops c1 + max_http_header_bytes + 4 + max_http_body_bytes + 4"
        using 1(1) s Inr ne m by auto
      moreover obtain k where "length chunk = Suc k" using ne by (cases chunk) auto
      ultimately show ?thesis using s ops Inr ne m by (simp add: read_request.simps [of _ _ c])
    qed
  qed
qed

text \<open>
  Reading a request ends whatever the peer sends: after at most \<open>64 KiB + 4 + 1 MiB + 4\<close> socket
  operations (reads and the writes of a refusal), however the bytes are cut into segments and however
  many more would follow.
\<close>

theorem reading_a_request_ends:
  "c_ops (snd (read_request [] None c)) \<le> c_ops c + 1114120"
  using read_request_ops [of "[]" None c]
  by (simp add: read_inv_def max_http_header_bytes_def max_http_body_bytes_def)

end
