(* ===== verification/Sse.thy ===== *)
theory Sse
  imports Http "HOL-Library.Word"
begin

text \<open>
  The crate \<open>folk-transport\<close>, server-sent events: the shared counter of streaming clients and the
  threads that take and release its slots (\<open>acquire_sse_slot\<close>, \<open>release_sse_slot\<close>, \<open>send_sse\<close>,
  \<open>send_sse_inner\<close>), interleaved in any order.

  The counter is the 32-bit atomic \<open>SSE_CLIENTS\<close>; each atomic operation is one step. A thread that
  finds no free slot has already counted itself and takes itself off again before it answers 503.
  The threads are numbered below \<open>n\<close>, fewer than 2 to the 32.
\<close>

section \<open>Threads and steps\<close>

datatype sse_pc =
    Arriving
  | Backing_Out
  | Refusing
  | Opening
  | Keeping_Alive
  | Releasing
  | Gone

record sse_state =
  sse_clients :: "32 word"
  sse_pcs :: "sse_pc list"
  sse_refused :: nat

definition max_sse_clients :: nat where
  "max_sse_clients = 32"

text \<open>A thread counts itself with \<open>fetch_add\<close>, which returns the value before.\<close>

definition fetch_add_slot :: "nat \<Rightarrow> sse_state \<Rightarrow> sse_state" where
  "fetch_add_slot t s =
     s\<lparr>sse_clients := sse_clients s + 1,
       sse_pcs := (sse_pcs s)[t := (if unat (sse_clients s) \<ge> max_sse_clients then Backing_Out else Opening)]\<rparr>"

text \<open>\<open>fetch_sub\<close>, after which the thread continues at \<open>pc\<close>.\<close>

definition fetch_sub_slot :: "nat \<Rightarrow> sse_pc \<Rightarrow> sse_state \<Rightarrow> sse_state" where
  "fetch_sub_slot t pc s = s\<lparr>sse_clients := sse_clients s - 1, sse_pcs := (sse_pcs s)[t := pc]\<rparr>"

definition goto_pc :: "nat \<Rightarrow> sse_pc \<Rightarrow> sse_state \<Rightarrow> sse_state" where
  "goto_pc t pc s = s\<lparr>sse_pcs := (sse_pcs s)[t := pc]\<rparr>"

inductive sse_step :: "sse_state \<Rightarrow> sse_state \<Rightarrow> bool" where
  acquire: "t < length (sse_pcs s) \<Longrightarrow> sse_pcs s ! t = Arriving \<Longrightarrow> sse_step s (fetch_add_slot t s)"
| back_out: "t < length (sse_pcs s) \<Longrightarrow> sse_pcs s ! t = Backing_Out \<Longrightarrow>
    sse_step s (fetch_sub_slot t Refusing s)"
| refuse: "t < length (sse_pcs s) \<Longrightarrow> sse_pcs s ! t = Refusing \<Longrightarrow>
    sse_step s ((goto_pc t Gone s)\<lparr>sse_refused := Suc (sse_refused s)\<rparr>)"
| opened: "t < length (sse_pcs s) \<Longrightarrow> sse_pcs s ! t = Opening \<Longrightarrow> sse_step s (goto_pc t Keeping_Alive s)"
| open_failed: "t < length (sse_pcs s) \<Longrightarrow> sse_pcs s ! t = Opening \<Longrightarrow> sse_step s (goto_pc t Releasing s)"
| keep_alive: "t < length (sse_pcs s) \<Longrightarrow> sse_pcs s ! t = Keeping_Alive \<Longrightarrow> sse_step s s"
| client_left: "t < length (sse_pcs s) \<Longrightarrow> sse_pcs s ! t = Keeping_Alive \<Longrightarrow>
    sse_step s (goto_pc t Releasing s)"
| release: "t < length (sse_pcs s) \<Longrightarrow> sse_pcs s ! t = Releasing \<Longrightarrow>
    sse_step s (fetch_sub_slot t Gone s)"

definition sse_start :: "nat \<Rightarrow> sse_state" where
  "sse_start n = \<lparr>sse_clients = 0, sse_pcs = replicate n Arriving, sse_refused = 0\<rparr>"

inductive sse_reachable :: "nat \<Rightarrow> sse_state \<Rightarrow> bool" for n where
  start: "sse_reachable n (sse_start n)"
| step: "sse_reachable n s \<Longrightarrow> sse_step s s' \<Longrightarrow> sse_reachable n s'"

inductive_simps sse_step_iff: "sse_step s s'"

section \<open>Counting\<close>

text \<open>The threads between a successful \<open>fetch_add\<close> and their \<open>fetch_sub\<close>, and those that hold a slot.\<close>

definition counted_pc :: "sse_pc \<Rightarrow> bool" where
  "counted_pc pc \<longleftrightarrow> pc \<in> {Backing_Out, Opening, Keeping_Alive, Releasing}"

definition holds_slot :: "sse_pc \<Rightarrow> bool" where
  "holds_slot pc \<longleftrightarrow> pc \<in> {Opening, Keeping_Alive, Releasing}"

definition counted :: "sse_state \<Rightarrow> nat" where
  "counted s = length (filter counted_pc (sse_pcs s))"

definition holders :: "sse_state \<Rightarrow> nat" where
  "holders s = length (filter holds_slot (sse_pcs s))"

lemma filter_update_length:
  assumes "t < length xs"
  shows "length (filter P (xs[t := y])) + (if P (xs ! t) then 1 else 0) =
    length (filter P xs) + (if P y then 1 else 0)"
  using assms
proof (induction xs arbitrary: t)
  case (Cons x xs)
  then show ?case by (cases t) auto
qed simp

lemma holders_le_counted: "holders s \<le> counted s"
  unfolding holders_def counted_def
proof -
  have "length (filter holds_slot xs) \<le> length (filter counted_pc xs)" for xs
    by (induction xs) (auto simp: holds_slot_def counted_pc_def)
  then show "length (filter holds_slot (sse_pcs s)) \<le> length (filter counted_pc (sse_pcs s))" .
qed

definition sse_inv :: "nat \<Rightarrow> sse_state \<Rightarrow> bool" where
  "sse_inv n s \<longleftrightarrow> length (sse_pcs s) = n \<and> unat (sse_clients s) = counted s \<and>
     holders s \<le> max_sse_clients"


lemma counted_update:
  assumes "t < length (sse_pcs s)" and "sse_pcs s ! t = pc"
  shows "length (filter counted_pc ((sse_pcs s)[t := pc'])) + (if counted_pc pc then 1 else 0) =
      counted s + (if counted_pc pc' then 1 else 0)"
    "length (filter holds_slot ((sse_pcs s)[t := pc'])) + (if holds_slot pc then 1 else 0) =
      holders s + (if holds_slot pc' then 1 else 0)"
  using filter_update_length [OF assms(1), of counted_pc pc'] assms(2)
    filter_update_length [OF assms(1), of holds_slot pc']
  by (simp_all add: counted_def holders_def)

lemma counted_le: "counted s \<le> length (sse_pcs s)"
  by (simp add: counted_def)

lemma counted_bound: "t < length (sse_pcs s) \<Longrightarrow> \<not> counted_pc (sse_pcs s ! t) \<Longrightarrow>
    counted s < length (sse_pcs s)"
  unfolding counted_def by (rule length_filter_less [of "sse_pcs s ! t"]) simp_all

lemma unat_suc:
  fixes w :: "32 word"
  assumes "unat w < n" and "n < 2 ^ 32"
  shows "unat (w + 1) = Suc (unat w)"
proof -
  have "unat w + unat (1 :: 32 word) < 2 ^ 32" using assms by simp
  then show ?thesis by (simp add: unat_word_ariths)
qed

lemma unat_pred:
  fixes w :: "32 word"
  assumes "unat w = Suc k"
  shows "unat (w - 1) = k"
proof -
  have "w \<noteq> 0" using assms by auto
  then show ?thesis using assms by (simp add: unat_minus_one)
qed

lemma sse_inv_start: "sse_inv n (sse_start n)"
  by (simp add: sse_inv_def sse_start_def counted_def holders_def counted_pc_def holds_slot_def)

lemma sse_inv_goto:
  assumes "sse_inv n s" and "t < length (sse_pcs s)" and "sse_pcs s ! t = pc"
    and "counted_pc pc' = counted_pc pc" and "holds_slot pc' \<longrightarrow> holds_slot pc"
  shows "sse_inv n (goto_pc t pc' s)"
  using counted_update [OF assms(2,3), of pc'] assms(1,4,5)
  by (auto simp: sse_inv_def goto_pc_def counted_def holders_def split: if_splits)

lemma sse_inv_sub:
  assumes "sse_inv n s" and "t < length (sse_pcs s)" and "sse_pcs s ! t = pc"
    and "counted_pc pc" and "\<not> counted_pc pc'" and "\<not> holds_slot pc'"
  shows "sse_inv n (fetch_sub_slot t pc' s)"
proof -
  note u = counted_update [OF assms(2,3), of pc']
  with assms(4,5) obtain k where "counted s = Suc k" by (cases "counted s") simp_all
  with unat_pred [of "sse_clients s" k] assms u show ?thesis
    by (auto simp: sse_inv_def fetch_sub_slot_def counted_def holders_def split: if_splits)
qed

lemma sse_inv_refused [simp]: "sse_inv n (s\<lparr>sse_refused := k\<rparr>) = sse_inv n s"
  by (simp add: sse_inv_def counted_def holders_def)

lemmas sse_pc_defs = counted_pc_def holds_slot_def

lemma sse_inv_step:
  assumes "sse_step s s'" and "sse_inv n s" and "n < 2 ^ 32"
  shows "sse_inv n s'"
  using assms(1)
proof cases
  case (acquire t)
  note u = counted_update [OF acquire(2,3)]
  have "counted s < n"
    using counted_bound [OF acquire(2)] acquire(3) assms(2) by (simp add: counted_pc_def sse_inv_def)
  then have "unat (sse_clients s + 1) = Suc (counted s)"
    using unat_suc [of "sse_clients s" n] assms(2,3) by (simp add: sse_inv_def)
  moreover have "holders s \<le> unat (sse_clients s)"
    using holders_le_counted [of s] assms(2) by (simp add: sse_inv_def)
  ultimately show ?thesis
    using assms(2) u [of Backing_Out] u [of Opening]
    by (simp add: acquire(1) sse_inv_def fetch_add_slot_def counted_def holders_def sse_pc_defs
        max_sse_clients_def)
next
  case (back_out t)
  with sse_inv_sub [OF assms(2) back_out(2,3)] show ?thesis by (simp add: sse_pc_defs)
next
  case (release t)
  with sse_inv_sub [OF assms(2) release(2,3)] show ?thesis by (simp add: sse_pc_defs)
next
  case (refuse t)
  with sse_inv_goto [OF assms(2) refuse(2,3)] show ?thesis by (simp add: sse_pc_defs)
next
  case (opened t)
  with sse_inv_goto [OF assms(2) opened(2,3)] show ?thesis by (simp add: sse_pc_defs)
next
  case (open_failed t)
  with sse_inv_goto [OF assms(2) open_failed(2,3)] show ?thesis by (simp add: sse_pc_defs)
next
  case (client_left t)
  with sse_inv_goto [OF assms(2) client_left(2,3)] show ?thesis by (simp add: sse_pc_defs)
qed (use assms(2) in simp)

lemma sse_inv_reachable: "sse_reachable n s \<Longrightarrow> n < 2 ^ 32 \<Longrightarrow> sse_inv n s"
  by (induction rule: sse_reachable.induct) (auto intro: sse_inv_start sse_inv_step)

text \<open>
  C27. However the threads interleave, at most 32 clients hold a slot at any time; the counter is exact
  (the holders and the threads about to take themselves off), so it is back at zero when every thread
  has gone, and a thread that arrives while it is below 32 gets a slot.
\<close>

theorem sse_slots_bounded:
  assumes "sse_reachable n s" and "n < 2 ^ 32"
  shows "holders s \<le> 32 \<and> unat (sse_clients s) = counted s \<and>
    ((\<forall>pc \<in> set (sse_pcs s). pc = Gone) \<longrightarrow> sse_clients s = 0) \<and>
    (\<forall>t < n. sse_pcs s ! t = Arriving \<and> counted s < 32 \<longrightarrow>
       sse_pcs (fetch_add_slot t s) ! t = Opening)"
proof -
  have i: "sse_inv n s" using assms by (rule sse_inv_reachable)
  then have "unat (sse_clients s) = counted s" by (simp add: sse_inv_def)
  moreover have "(\<forall>pc \<in> set (sse_pcs s). pc = Gone) \<longrightarrow> counted s = 0"
    by (auto simp: counted_def counted_pc_def filter_empty_conv)
  moreover have "sse_clients s = 0" if "unat (sse_clients s) = 0"
    using that by (simp add: unat_eq_zero)
  ultimately show ?thesis
    using i by (auto simp: sse_inv_def max_sse_clients_def fetch_add_slot_def)
qed

lemma start_acquire: "sse_step (sse_start 1) (fetch_add_slot 0 (sse_start 1))"
  by (rule sse_step.acquire) (simp_all add: sse_start_def)

theorem sse_slots_bounded_witness:
  "holders (fetch_add_slot 0 (sse_start 1)) \<le> 32 \<and>
   unat (sse_clients (fetch_add_slot 0 (sse_start 1))) = counted (fetch_add_slot 0 (sse_start 1))"
proof -
  have "sse_reachable 1 (fetch_add_slot 0 (sse_start 1))"
    using sse_reachable.start start_acquire by (rule sse_reachable.step)
  then show ?thesis using sse_slots_bounded [of 1] by simp
qed

section \<open>No thread gets stuck\<close>

text \<open>
  Some thread can take a step as long as one has not gone: no thread waits for another.
\<close>

theorem sse_no_deadlock:
  "(\<exists>s'. sse_step s s') \<longleftrightarrow> (\<exists>pc \<in> set (sse_pcs s). pc \<noteq> Gone)"
proof
  have live: "(\<exists>pc \<in> set (sse_pcs s). pc \<noteq> Gone) \<longleftrightarrow>
      (\<exists>t. t < length (sse_pcs s) \<and> sse_pcs s ! t \<noteq> Gone)"
    by (metis in_set_conv_nth)
  assume "\<exists>s'. sse_step s s'"
  then show "\<exists>pc \<in> set (sse_pcs s). pc \<noteq> Gone"
    unfolding sse_step_iff live by (elim exE disjE conjE) (rule exI, rule conjI, assumption, simp)+
next
  assume "\<exists>pc \<in> set (sse_pcs s). pc \<noteq> Gone"
  then obtain t where t: "t < length (sse_pcs s)" "sse_pcs s ! t \<noteq> Gone"
    by (auto simp: in_set_conv_nth)
  then show "\<exists>s'. sse_step s s'"
    by (cases "sse_pcs s ! t") (auto intro: sse_step.intros)
qed

end
