(* ===== verification/Stdio.thy ===== *)
theory Stdio
  imports Http
begin

text \<open>
  The crate \<open>folk-transport\<close>, standard input and output: the message reader (framed with
  \<open>Content-Length\<close>, or one JSON value per line) and the server loop \<open>run_stdio\<close>.

  The input is the bytes that are still to come; each read and write may meet an I/O fault. A length
  above \<open>isize::MAX\<close> makes \<open>vec![0; len]\<close> panic, which is an outcome of its own; a smaller buffer is
  taken to be allocated.
\<close>

section \<open>The pipe\<close>

datatype stdio_error = Stdio_Error transport_error | Capacity_Panic

record pipe =
  p_input :: bytes
  p_sent :: bytes
  p_ops :: nat
  p_fault :: "nat \<Rightarrow> io_error option"
  p_world :: world

type_synonym 'a pipe_act = "(pipe, stdio_error, 'a) act"

definition pipe_op :: "unit pipe_act" where
  "pipe_op p =
     ((case p_fault p (p_ops p) of None \<Rightarrow> Inr () | Some e \<Rightarrow> Inl (Stdio_Error (Transport_Io e))),
      p\<lparr>p_ops := Suc (p_ops p)\<rparr>)"

text \<open>The bytes up to and including the next line feed, and the rest.\<close>

fun cut_line :: "bytes \<Rightarrow> bytes \<times> bytes" where
  "cut_line [] = ([], [])"
| "cut_line (b # bs) =
     (if b = CHR 0x0A then ([b], bs) else (case cut_line bs of (l, r) \<Rightarrow> (b # l, r)))"

text \<open>\<open>read_line\<close> into an empty \<open>String\<close>.\<close>

definition read_line :: "string pipe_act" where
  "read_line = act_bind pipe_op (\<lambda>_ p.
     case cut_line (p_input p) of (l, r) \<Rightarrow>
       ((if utf8_valid l then Inr l else Inl (Stdio_Error (Transport_Io err_utf8))), p\<lparr>p_input := r\<rparr>))"

definition err_eof :: io_error where
  "err_eof = Io_Error Unexpected_Eof ''failed to fill whole buffer''"

definition read_exact :: "nat \<Rightarrow> bytes pipe_act" where
  "read_exact len = act_bind pipe_op (\<lambda>_ p.
     if length (p_input p) < len then (Inl (Stdio_Error (Transport_Io err_eof)), p\<lparr>p_input := []\<rparr>)
     else (Inr (take len (p_input p)), p\<lparr>p_input := drop len (p_input p)\<rparr>))"

lemma cut_line_append: "fst (cut_line bs) @ snd (cut_line bs) = bs"
  by (induction bs) (auto split: prod.splits)

lemma read_line_shrinks:
  assumes "read_line p = (Inr l, p')"
  shows "length (p_input p') + length l = length (p_input p)" "p_world p' = p_world p"
    "p_sent p' = p_sent p" "p_fault p' = p_fault p"
  using assms arg_cong [OF cut_line_append [of "p_input p"], of length]
  by (auto simp: read_line_def pipe_op_def act_bind_def split: option.splits prod.splits if_splits)

lemma read_line_smaller:
  "read_line p = (Inr l, p') \<Longrightarrow> l \<noteq> [] \<Longrightarrow> length (p_input p') < length (p_input p)"
  using read_line_shrinks(1) by (cases l) fastforce+

section \<open>Reading a message\<close>

text \<open>The loop that skips the remaining header lines: \<open>False\<close> at the end of the input.\<close>

function skip_headers :: "bool pipe_act" where
  "skip_headers p =
     (case read_line p of
        (Inl e, p') \<Rightarrow> (Inl e, p')
      | (Inr l, p') \<Rightarrow>
          if l = [] then (Inr False, p')
          else if trim l = [] then (Inr True, p')
          else skip_headers p')"
  by pat_completeness auto
termination
  by (relation "measure (\<lambda>p. length (p_input p))") (auto dest!: sym [of "(_, _)"] read_line_smaller)

declare skip_headers.simps [simp del]

definition isize_max :: nat where
  "isize_max = 9223372036854775807"

definition content_length_prefix :: string where
  "content_length_prefix = ''content-length:''"

definition announced_length :: "string \<Rightarrow> nat" where
  "announced_length trimmed =
     (case parse_unsigned usize_max (trim (drop (length content_length_prefix) trimmed)) of
        None \<Rightarrow> 0 | Some n \<Rightarrow> n)"

definition read_body :: "nat \<Rightarrow> bytes option pipe_act" where
  "read_body len =
     act_bind skip_headers (\<lambda>found.
     if \<not> found then ret None
     else if len > isize_max then fail Capacity_Panic
     else act_map Some (read_exact len))"

function read_stdio_message :: "bytes option pipe_act" where
  "read_stdio_message p =
     (case read_line p of
        (Inl e, p') \<Rightarrow> (Inl e, p')
      | (Inr l, p') \<Rightarrow>
          if l = [] then (Inr None, p')
          else
            (let trimmed = trim l in
             if trimmed = [] then read_stdio_message p'
             else if \<not> starts_with content_length_prefix (to_ascii_lowercase trimmed)
             then (Inr (Some trimmed), p')
             else read_body (announced_length trimmed) p'))"
  by pat_completeness auto
termination
  by (relation "measure (\<lambda>p. length (p_input p))") (auto dest!: sym [of "(_, _)"] read_line_smaller)

declare read_stdio_message.simps [simp del]

lemma skip_headers_shrinks:
  "skip_headers p = (Inr b, p') \<Longrightarrow> length (p_input p') \<le> length (p_input p) \<and>
     p_world p' = p_world p \<and> p_sent p' = p_sent p \<and> p_fault p' = p_fault p"
proof (induction p rule: skip_headers.induct)
  case (1 p)
  from 1(2) obtain l p1 where r: "read_line p = (Inr l, p1)"
    by (cases "read_line p"; cases "fst (read_line p)") (auto simp: skip_headers.simps [of p])
  note s = read_line_shrinks [OF r]
  show ?case
  proof (cases "l = [] \<or> trim l = []")
    case True
    with 1(2) r s show ?thesis by (auto simp: skip_headers.simps [of p] split: if_splits)
  next
    case False
    with 1(2) r have "skip_headers p1 = (Inr b, p')" by (simp add: skip_headers.simps [of p])
    with 1(1) [OF r [symmetric]] False s show ?thesis by auto
  qed
qed

lemma read_body_shrinks:
  assumes "read_body n p = (Inr v, p')"
  shows "length (p_input p') \<le> length (p_input p)"
  using assms skip_headers_shrinks [of p]
  by (fastforce simp: read_body_def act_map_def read_exact_def pipe_op_def act_bind_eq_Inr
      split: if_splits option.splits)

lemma read_stdio_message_shrinks:
  "read_stdio_message p = (Inr (Some body), p') \<Longrightarrow> length (p_input p') < length (p_input p)"
proof (induction p rule: read_stdio_message.induct)
  case (1 p)
  from 1(2) obtain l p1 where r: "read_line p = (Inr l, p1)" and ne: "l \<noteq> []"
    by (cases "read_line p"; cases "fst (read_line p)")
       (auto simp: read_stdio_message.simps [of p] split: if_splits)
  have s: "length (p_input p1) < length (p_input p)"
    using read_line_shrinks(1) [OF r] ne by (cases l) auto
  show ?case
  proof (cases "trim l = []")
    case True
    with 1(2) r ne have "read_stdio_message p1 = (Inr (Some body), p')"
      by (simp add: read_stdio_message.simps [of p])
    from 1(1) [OF r [symmetric] refl ne refl True this] s show ?thesis by simp
  next
    case False
    with 1(2) r ne s read_body_shrinks show ?thesis
      by (auto simp: read_stdio_message.simps [of p] Let_def split: if_splits dest!: read_body_shrinks)
  qed
qed

section \<open>The server loop\<close>

definition pipe_world :: "(world, 'e, 'a) act \<Rightarrow> (pipe, 'e, 'a) act" where
  "pipe_world m p = (case m (p_world p) of (r, w) \<Rightarrow> (r, p\<lparr>p_world := w\<rparr>))"

definition pipe_write :: "bytes \<Rightarrow> unit pipe_act" where
  "pipe_write bs = act_bind pipe_op (\<lambda>_ p. (Inr (), p\<lparr>p_sent := p_sent p @ bs\<rparr>))"

definition frame :: "bytes \<Rightarrow> bytes" where
  "frame out = ''Content-Length: '' @ show_nat (length out) @ crlf @ crlf @ out"

text \<open>One turn of the loop: the treatment of one message body.\<close>

definition serve_body :: "host \<Rightarrow> bool \<Rightarrow> tool_table \<Rightarrow> bytes \<Rightarrow> unit pipe_act" where
  "serve_body H verbose table body =
     (case h_json_parse H body of
        Inl err \<Rightarrow> pipe_world (say H verbose (''json error: '' @ err))
      | Inr msg \<Rightarrow>
          act_bind (act_map_err (\<lambda>e. Stdio_Error (Transport_Json e))
            (pipe_world (handle_message H verbose table msg))) (\<lambda>answer.
          case answer of
            None \<Rightarrow> ret ()
          | Some out \<Rightarrow> act_bind (pipe_write (frame out)) (\<lambda>_. pipe_op)))"

lemma serve_body_input:
  assumes "serve_body H verbose table body p = (r, p')"
  shows "p_input p' = p_input p"
  using assms
  by (auto simp: serve_body_def pipe_world_def act_bind_def act_map_err_def pipe_write_def
      pipe_op_def ret_def split: sum.splits prod.splits option.splits)

function run_stdio :: "host \<Rightarrow> bool \<Rightarrow> tool_table \<Rightarrow> unit pipe_act" where
  "run_stdio H verbose table p =
     (case read_stdio_message p of
        (Inl e, p') \<Rightarrow> (Inl e, p')
      | (Inr None, p') \<Rightarrow> (Inr (), p')
      | (Inr (Some body), p') \<Rightarrow>
          (case serve_body H verbose table body p' of
             (Inl e, p'') \<Rightarrow> (Inl e, p'')
           | (Inr _, p'') \<Rightarrow> run_stdio H verbose table p''))"
  by pat_completeness auto
termination
proof (relation "measure (\<lambda>(H, verbose, table, p). length (p_input p))", goal_cases)
  case (2 H verbose table p)
  then show ?case
    by (auto dest!: sym [of "(_, _)"] serve_body_input read_stdio_message_shrinks)
qed simp

declare run_stdio.simps [simp del]

section \<open>Framed messages read back\<close>

lemma cut_line_at: "CHR 0x0A \<notin> set l \<Longrightarrow> cut_line (l @ CHR 0x0A # r) = (l @ [CHR 0x0A], r)"
  by (induction l) auto

lemma read_line_ok:
  assumes "\<forall>n. p_fault p n = None" and "p_input p = l @ CHR 0x0A # r"
    and "CHR 0x0A \<notin> set l" and "utf8_valid (l @ [CHR 0x0A])"
  shows "read_line p = (Inr (l @ [CHR 0x0A]), p\<lparr>p_ops := Suc (p_ops p), p_input := r\<rparr>)"
  using assms by (simp add: read_line_def pipe_op_def act_bind_def cut_line_at)

lemma trim_start_rev_ws: "ascii_ws c \<Longrightarrow> trim_start_rev (c # s) = trim_start_rev s"
proof -
  assume "ascii_ws c"
  then have "ws_len_rev (c # s) = 1" by (cases "c # s" rule: ws_len_rev.cases) auto
  then show ?thesis by (simp add: trim_start_rev.simps [of "c # s"])
qed

lemma ws_len_ascii: "byte_val c < 128 \<Longrightarrow> \<not> ascii_ws c \<Longrightarrow> ws_len (c # s) = 0"
  by (cases "c # s" rule: ws_len.cases) (auto simp: ws2_def ws3_def)

lemma ws_len_rev_ascii: "byte_val c < 128 \<Longrightarrow> \<not> ascii_ws c \<Longrightarrow> ws_len_rev (c # s) = 0"
  by (cases "c # s" rule: ws_len_rev.cases) (auto simp: ws2_def ws3_def in_range_def byte_val_def)

text \<open>A line that starts and ends with visible ASCII loses exactly its CR LF.\<close>

lemma trim_crlf_line:
  assumes "byte_val a < 128" "\<not> ascii_ws a" "byte_val z < 128" "\<not> ascii_ws z"
  shows "trim (a # s @ [z, CHR 0x0D, CHR 0x0A]) = a # s @ [z]"
proof -
  have ws: "ascii_ws CHR 0x0A" "ascii_ws CHR 0x0D" by (simp_all add: ascii_ws_def byte_class_defs)
  have "trim_start (a # s @ [z, CHR 0x0D, CHR 0x0A]) = a # s @ [z, CHR 0x0D, CHR 0x0A]"
    using assms by (intro trim_start_id ws_len_ascii)
  moreover have "trim_start_rev (z # rev s @ [a]) = z # rev s @ [a]"
    using assms by (intro trim_start_rev_id ws_len_rev_ascii)
  ultimately show ?thesis
    by (simp add: trim_def trim_end_def trim_start_rev_ws ws)
qed

lemma trim_crlf: "trim crlf = []" "trim [CHR 0x0A] = []" "trim [] = []"
  by code_simp+

lemma length_line:
  assumes n: "n \<le> usize_max"
  defines "l \<equiv> ''Content-Length: '' @ show_nat n"
  shows "trim (l @ crlf) = l" "announced_length l = n" "CHR 0x0A \<notin> set l" "is_ascii l"
    "starts_with content_length_prefix (to_ascii_lowercase l)"
proof -
  have dg: "\<forall>c \<in> set (show_nat n). is_ascii_digit c"
    using show_nat_digits [of n] by (simp add: list_all_iff)
  have small: "is_ascii_digit c \<Longrightarrow> byte_val c < 128 \<and> \<not> ascii_ws c \<and> c \<noteq> CHR 0x0A" for c
    by (auto simp: ascii_ws_def byte_class_defs)
  obtain ds z where ds: "show_nat n = ds @ [z]" by (cases "show_nat n" rule: rev_cases) auto
  have z: "byte_val z < 128" "\<not> ascii_ws z" using dg small ds by auto
  have C: "byte_val CHR ''C'' < 128" "\<not> ascii_ws CHR ''C''"
    by (simp_all add: ascii_ws_def byte_class_defs)
  show "trim (l @ crlf) = l"
    using trim_crlf_line [OF C z, of "''ontent-Length: '' @ ds"] by (simp add: l_def ds crlf_def)
  show "CHR 0x0A \<notin> set l" using dg small by (auto simp: l_def)
  have "is_ascii (show_nat n)" using dg small by (auto simp: is_ascii_def list_all_iff)
  then show "is_ascii l" by (simp add: l_def byte_val_def)
  have low: "to_ascii_lowercase ''Content-Length:'' = content_length_prefix" by code_simp
  have "to_ascii_lowercase l = content_length_prefix @ to_ascii_lowercase ('' '' @ show_nat n)"
    unfolding low [symmetric] l_def by (simp add: to_ascii_lowercase_def)
  then show "starts_with content_length_prefix (to_ascii_lowercase l)"
    by (simp add: starts_with_iff prefix_def)
  have "trim ('' '' @ show_nat n) = show_nat n"
  proof -
    obtain d es where d: "show_nat n = d # es" by (cases "show_nat n") auto
    then have f: "byte_val d < 128" "\<not> ascii_ws d" using dg small by auto
    have "trim_start (CHR '' '' # d # es) = trim_start (d # es)"
    proof -
      have "ws_len (CHR '' '' # d # es) = 1"
        by (cases es) (simp_all add: ascii_ws_def byte_class_defs)
      then show ?thesis by (simp add: trim_start.simps [of "CHR '' '' # d # es"])
    qed
    moreover have "trim_start (d # es) = d # es" using f by (intro trim_start_id ws_len_ascii)
    moreover have "trim_start_rev (rev (d # es)) = rev (d # es)"
      using z ds d by (metis rev.simps(2) rev_append trim_start_rev_id ws_len_rev_ascii
          append_Cons append_Nil rev_rev_ident)
    ultimately show ?thesis using d by (simp add: trim_def trim_end_def)
  qed
  moreover have "length content_length_prefix = 15" by (simp add: content_length_prefix_def)
  ultimately show "announced_length l = n"
    using n by (simp add: announced_length_def l_def parse_show_nat)
qed

lemma skip_headers_blank:
  assumes "\<forall>n. p_fault p n = None" and "p_input p = crlf @ r"
  shows "skip_headers p = (Inr True, p\<lparr>p_ops := Suc (p_ops p), p_input := r\<rparr>)"
proof -
  have "read_line p = (Inr ([CHR 0x0D] @ [CHR 0x0A]), p\<lparr>p_ops := Suc (p_ops p), p_input := r\<rparr>)"
    using assms by (intro read_line_ok) (auto simp: crlf_def byte_val_def intro!: utf8_valid_ascii)
  then show ?thesis using trim_crlf by (simp add: skip_headers.simps [of p] crlf_def)
qed

lemma read_frame:
  assumes nf: "\<forall>n. p_fault p n = None" and i: "p_input p = frame body @ rest"
    and small: "length body \<le> isize_max"
  shows "read_stdio_message p =
    (Inr (Some body), p\<lparr>p_ops := Suc (Suc (Suc (p_ops p))), p_input := rest\<rparr>)"
proof -
  have n: "length body \<le> usize_max" using small by (simp add: isize_max_def usize_max_def)
  let ?l = "''Content-Length: '' @ show_nat (length body)"
  let ?p1 = "p\<lparr>p_ops := Suc (p_ops p), p_input := crlf @ body @ rest\<rparr>"
  let ?p2 = "?p1\<lparr>p_ops := Suc (p_ops ?p1), p_input := body @ rest\<rparr>"
  note f = length_line [OF n]
  have "read_line p = (Inr ((?l @ [CHR 0x0D]) @ [CHR 0x0A]), ?p1)"
    using nf i f(3,4)
    by (intro read_line_ok)
       (auto simp: frame_def crlf_def byte_val_def intro!: utf8_valid_ascii)
  then have r1: "read_line p = (Inr (?l @ crlf), ?p1)" by (simp add: crlf_def)
  have r2: "skip_headers ?p1 = (Inr True, ?p2)"
    using nf by (intro skip_headers_blank) simp_all
  have "\<not> isize_max < length body" using small by simp
  with r2 nf have "read_body (length body) ?p1 =
      (Inr (Some body), p\<lparr>p_ops := Suc (Suc (Suc (p_ops p))), p_input := rest\<rparr>)"
    by (simp add: read_body_def act_bind_def act_map_def read_exact_def pipe_op_def ret_def)
  then show ?thesis
    using r1 f(1,2,5) by (simp add: read_stdio_message.simps [of p])
qed

text \<open>
  The framing round-trips: what the server writes for a response, its own reader reads back byte
  for byte, whatever bytes it contains (line feeds and blank lines included), and leaves the input
  positioned at the next message.
\<close>

theorem stdio_frame_roundtrip:
  assumes "\<forall>n. p_fault p n = None" and "p_input p = frame body @ rest" and "length body \<le> isize_max"
  shows "read_stdio_message p =
    (Inr (Some body), p\<lparr>p_ops := Suc (Suc (Suc (p_ops p))), p_input := rest\<rparr>)"
  using assms by (rule read_frame)

definition demo_pipe :: "bytes \<Rightarrow> pipe" where
  "demo_pipe input = \<lparr>p_input = input, p_sent = [], p_ops = 0, p_fault = (\<lambda>_. None), p_world = demo_world\<rparr>"

theorem stdio_frame_roundtrip_witness:
  "fst (read_stdio_message (demo_pipe (frame ''{}'' @ frame ''[]''))) = Inr (Some ''{}'') \<and>
   p_input (snd (read_stdio_message (demo_pipe (frame ''{}'' @ frame ''[]'')))) = frame ''[]''"
proof -
  have "\<forall>n. p_fault (demo_pipe (frame ''{}'' @ frame ''[]'')) n = None"
    "p_input (demo_pipe (frame ''{}'' @ frame ''[]'')) = frame ''{}'' @ frame ''[]''"
    "length ''{}'' \<le> isize_max"
    by (simp_all add: demo_pipe_def isize_max_def)
  from stdio_frame_roundtrip [OF this] show ?thesis by simp
qed

section \<open>The server answers in order\<close>

text \<open>
  What a client that sends framed bodies gets: every body handled once, in order, on the state the
  previous ones left; unparsable bodies skipped; the framed responses one after another; the first
  handler error ends the session.
\<close>

fun stdio_spec ::
  "host \<Rightarrow> bool \<Rightarrow> tool_table \<Rightarrow> bytes list \<Rightarrow> world \<Rightarrow> (stdio_error + unit) \<times> bytes \<times> world" where
  "stdio_spec H verbose table [] w = (Inr (), [], w)"
| "stdio_spec H verbose table (b # bs) w =
     (case h_json_parse H b of
        Inl err \<Rightarrow>
          stdio_spec H verbose table bs
            (snd ((say H verbose (''json error: '' @ err) :: (world, string, unit) act) w))
      | Inr msg \<Rightarrow>
          (case handle_message H verbose table msg w of
             (Inl e, w1) \<Rightarrow> (Inl (Stdio_Error (Transport_Json e)), [], w1)
           | (Inr answer, w1) \<Rightarrow>
               (case stdio_spec H verbose table bs w1 of (r, out, w2) \<Rightarrow>
                  (r, (case answer of None \<Rightarrow> [] | Some o' \<Rightarrow> frame o') @ out, w2))))"

lemma say_any:
  "(say H verbose s :: (world, 'a, unit) act) w =
   (Inr (), snd ((say H verbose s :: (world, 'b, unit) act) w))"
  by (simp add: say_def log_status_eq ret_def)

lemma serve_body_ok:
  assumes nf: "\<forall>n. p_fault p n = None"
  shows "case h_json_parse H b of
     Inl err \<Rightarrow> serve_body H verbose table b p =
       (Inr (), p\<lparr>p_world := snd ((say H verbose (''json error: '' @ err) :: (world, string, unit) act)
          (p_world p))\<rparr>)
   | Inr msg \<Rightarrow>
       (case handle_message H verbose table msg (p_world p) of
          (Inl e, w1) \<Rightarrow> serve_body H verbose table b p =
            (Inl (Stdio_Error (Transport_Json e)), p\<lparr>p_world := w1\<rparr>)
        | (Inr answer, w1) \<Rightarrow> \<exists>k. serve_body H verbose table b p =
            (Inr (), p\<lparr>p_world := w1, p_ops := k,
              p_sent := p_sent p @ (case answer of None \<Rightarrow> [] | Some o' \<Rightarrow> frame o')\<rparr>))"
proof (cases "h_json_parse H b")
  case (Inl err)
  have "pipe_world (say H verbose (''json error: '' @ err) :: (world, stdio_error, unit) act) p =
      (Inr (), p\<lparr>p_world := snd ((say H verbose (''json error: '' @ err) :: (world, string, unit) act)
        (p_world p))\<rparr>)"
    by (simp only: pipe_world_def prod.case
        say_any [where 'a = stdio_error and 'b = string, of H verbose "''json error: '' @ err" "p_world p"])
  with Inl show ?thesis by (simp add: serve_body_def)
next
  case (Inr msg)
  obtain v w1 where h: "handle_message H verbose table msg (p_world p) = (v, w1)"
    by (cases "handle_message H verbose table msg (p_world p)")
  show ?thesis
  proof (cases v)
    case (Inl e)
    with Inr h show ?thesis
      by (simp add: serve_body_def pipe_world_def act_bind_def act_map_err_def)
  next
    case (Inr answer)
    with \<open>h_json_parse H b = Inr msg\<close> h nf show ?thesis
      by (cases answer)
         (auto simp: serve_body_def pipe_world_def act_bind_def act_map_err_def pipe_write_def
           pipe_op_def ret_def intro!: exI [of _ "case answer of None \<Rightarrow> p_ops p | Some _ \<Rightarrow> Suc (Suc (p_ops p))"])
  qed
qed

lemma run_stdio_eof:
  "p_fault p (p_ops p) = None \<Longrightarrow> p_input p = [] \<Longrightarrow>
     run_stdio H verbose table p = (Inr (), p\<lparr>p_ops := Suc (p_ops p)\<rparr>)"
  by (simp add: run_stdio.simps [of _ _ _ p] read_stdio_message.simps [of p] read_line_def
      pipe_op_def act_bind_def)

lemma run_stdio_frame:
  assumes "\<forall>n. p_fault p n = None" and "p_input p = frame b @ rest" and "length b \<le> isize_max"
  shows "run_stdio H verbose table p =
    (case serve_body H verbose table b (p\<lparr>p_ops := Suc (Suc (Suc (p_ops p))), p_input := rest\<rparr>) of
       (Inl e, p'') \<Rightarrow> (Inl e, p'') | (Inr _, p'') \<Rightarrow> run_stdio H verbose table p'')"
  using read_frame [OF assms] by (simp add: run_stdio.simps [of _ _ _ p])

lemma run_stdio_frames:
  assumes "\<forall>n. p_fault p n = None" and "p_input p = concat (map frame bodies)"
    and "\<forall>b \<in> set bodies. length b \<le> isize_max"
    and "stdio_spec H verbose table bodies (p_world p) = (r, out, w')"
  shows "\<exists>p'. run_stdio H verbose table p = (r, p') \<and> p_sent p' = p_sent p @ out \<and> p_world p' = w'"
  using assms
proof (induction bodies arbitrary: p r out w')
  case Nil
  then show ?case by (simp add: run_stdio_eof)
next
  case (Cons b bs)
  let ?p1 = "p\<lparr>p_ops := Suc (Suc (Suc (p_ops p))), p_input := concat (map frame bs)\<rparr>"
  have nf1: "\<forall>n. p_fault ?p1 n = None" using Cons.prems(1) by simp
  have step: "run_stdio H verbose table p = (case serve_body H verbose table b ?p1 of
      (Inl e, p'') \<Rightarrow> (Inl e, p'') | (Inr _, p'') \<Rightarrow> run_stdio H verbose table p'')"
    using Cons.prems by (intro run_stdio_frame) simp_all
  note sv = serve_body_ok [OF nf1, where H = H and b = b and verbose = verbose and table = table]
  show ?case
  proof (cases "h_json_parse H b")
    case (Inl err)
    let ?w = "snd ((say H verbose (''json error: '' @ err) :: (world, string, unit) act) (p_world p))"
    from sv Inl have "serve_body H verbose table b ?p1 = (Inr (), ?p1\<lparr>p_world := ?w\<rparr>)" by simp
    moreover have "\<exists>p'. run_stdio H verbose table (?p1\<lparr>p_world := ?w\<rparr>) = (r, p') \<and>
        p_sent p' = p_sent (?p1\<lparr>p_world := ?w\<rparr>) @ out \<and> p_world p' = w'"
      using Cons.prems Inl by (intro Cons.IH) auto
    ultimately show ?thesis using step by simp
  next
    case (Inr msg)
    obtain v w1 where h: "handle_message H verbose table msg (p_world p) = (v, w1)"
      by (cases "handle_message H verbose table msg (p_world p)")
    show ?thesis
    proof (cases v)
      case (Inl e)
      with sv Inr h have "serve_body H verbose table b ?p1 =
          (Inl (Stdio_Error (Transport_Json e)), ?p1\<lparr>p_world := w1\<rparr>)" by simp
      with step Cons.prems(4) Inr h Inl show ?thesis by simp
    next
      case (Inr answer)
      let ?o = "case answer of None \<Rightarrow> [] | Some o' \<Rightarrow> frame o'"
      obtain r2 out2 w2 where s2: "stdio_spec H verbose table bs w1 = (r2, out2, w2)"
        by (cases "stdio_spec H verbose table bs w1")
      from sv \<open>h_json_parse H b = Inr msg\<close> h Inr obtain k where
        k: "serve_body H verbose table b ?p1 = (Inr (), ?p1\<lparr>p_world := w1, p_ops := k,
              p_sent := p_sent ?p1 @ ?o\<rparr>)" (is "_ = (_, ?p2)") by auto
      have "\<exists>p'. run_stdio H verbose table ?p2 = (r2, p') \<and> p_sent p' = p_sent ?p2 @ out2 \<and>
          p_world p' = w2"
        using Cons.prems s2 by (intro Cons.IH) auto
      with step k Cons.prems(4) \<open>h_json_parse H b = Inr msg\<close> h Inr s2 show ?thesis by auto
    qed
  qed
qed

text \<open>
  C29. Over standard input and output a session of framed messages is served completely and in order:
  the server's output is the sequence of framed responses, its final state the one the messages lead
  to, and it ends when the input does or at the first response that cannot be serialised.
\<close>

theorem stdio_serves_in_order:
  assumes "\<forall>n. p_fault p n = None" and "p_input p = concat (map frame bodies)"
    and "\<forall>b \<in> set bodies. length b \<le> isize_max"
    and "stdio_spec H verbose table bodies (p_world p) = (r, out, w')"
  shows "\<exists>p'. run_stdio H verbose table p = (r, p') \<and> p_sent p' = p_sent p @ out \<and> p_world p' = w'"
  using assms by (rule run_stdio_frames)

theorem stdio_serves_in_order_witness:
  "\<exists>p'. run_stdio ping_host False (table_new Full) (demo_pipe (frame ''a'' @ frame ''b'')) = (Inr (), p') \<and>
     p_sent p' = frame [] @ frame []"
proof -
  have h: "handle_message ping_host False (table_new Full)
      (Object [(''id'', jnat 1), (''method'', Str ''ping'')]) demo_world = (Inr (Some []), demo_world)"
    by (simp add: handle_message_def obj_get_def say_def dispatch_method_def some_response_def
        json_response_def act_map_def ping_host_def demo_host_def)
  have s: "stdio_spec ping_host False (table_new Full) [''a'', ''b'']
      (p_world (demo_pipe (frame ''a'' @ frame ''b''))) = (Inr (), frame [] @ frame [], demo_world)"
    using h by (simp add: demo_pipe_def ping_host_def)
  have "\<exists>p'. run_stdio ping_host False (table_new Full) (demo_pipe (frame ''a'' @ frame ''b'')) = (Inr (), p') \<and>
      p_sent p' = p_sent (demo_pipe (frame ''a'' @ frame ''b'')) @ frame [] @ frame [] \<and>
      p_world p' = demo_world"
    by (rule stdio_serves_in_order [OF _ _ _ s]) (simp_all add: demo_pipe_def isize_max_def)
  then show ?thesis by (auto simp: demo_pipe_def)
qed

section \<open>An announced length can end the process\<close>

text \<open>
  C30. A single header that announces more than \<open>isize::MAX\<close> bytes ends the server with a panic (the
  capacity overflow of \<open>vec![0; len]\<close>) instead of an error, before a byte of the body is read.
\<close>

theorem stdio_huge_length_panics:
  assumes "\<forall>n. p_fault p n = None" and "isize_max < n" and "n \<le> usize_max"
    and "p_input p = ''Content-Length: '' @ show_nat n @ crlf @ crlf @ rest"
  shows "fst (run_stdio H verbose table p) = Inl Capacity_Panic"
proof -
  let ?l = "''Content-Length: '' @ show_nat n"
  let ?p1 = "p\<lparr>p_ops := Suc (p_ops p), p_input := crlf @ rest\<rparr>"
  note f = length_line [OF assms(3)]
  have "read_line p = (Inr ((?l @ [CHR 0x0D]) @ [CHR 0x0A]), ?p1)"
    using assms(1,4) f(3,4)
    by (intro read_line_ok) (auto simp: crlf_def byte_val_def intro!: utf8_valid_ascii)
  then have r1: "read_line p = (Inr (?l @ crlf), ?p1)" by (simp add: crlf_def)
  have "skip_headers ?p1 = (Inr True, ?p1\<lparr>p_ops := Suc (p_ops ?p1), p_input := rest\<rparr>)"
    using assms(1) by (intro skip_headers_blank) simp_all
  then have "\<exists>q. read_body n ?p1 = (Inl Capacity_Panic, q)"
    using assms(2) by (simp add: read_body_def act_bind_def fail_def)
  then have "\<exists>q. read_stdio_message p = (Inl Capacity_Panic, q)"
    using r1 f(1,2,5) by (simp add: read_stdio_message.simps [of p])
  then show ?thesis by (auto simp: run_stdio.simps [of _ _ _ p])
qed

theorem stdio_huge_length_panics_witness:
  "fst (run_stdio demo_host False (table_new Full)
     (demo_pipe (''Content-Length: '' @ show_nat 9223372036854775808 @ crlf @ crlf))) =
   Inl Capacity_Panic"
  by (rule stdio_huge_length_panics [where n = 9223372036854775808 and rest = "[]"])
     (simp_all add: demo_pipe_def isize_max_def usize_max_def)

end
