(* ===== verification/Relay_Session.thy ===== *)
theory Relay_Session
  imports Http "HOL-Library.Word"
begin

text \<open>
  The crate \<open>folk-transport\<close>, peer-to-peer relay, first part: the session table of \<open>P2PManager\<close>, the
  handshake that derives a session key, and the encryption and decryption of relayed payloads with
  their sequence numbers.

  The crates \<open>hex\<close>, \<open>x25519-dalek\<close>, \<open>hkdf\<close>, \<open>chacha20poly1305\<close>, \<open>base64\<close>, \<open>url\<close> and
  \<open>tungstenite\<close> are the parameter \<open>relay_crates\<close>. What is relied on of them is stated where it is
  used: \<open>hex_laws\<close> (decoding inverts encoding), \<open>aead_laws\<close> (opening inverts sealing) and
  \<open>dh_laws\<close> (both sides compute one shared secret). A sequence number is a 64-bit word that wraps, as
  \<open>u64\<close> does in a release build.
\<close>

section \<open>State\<close>

datatype ws_message =
    Ws_Text string
  | Ws_Binary bytes
  | Ws_Ping bytes
  | Ws_Pong bytes
  | Ws_Close
  | Ws_Frame bytes

record relay_crates =
  rc_hex_encode :: "bytes \<Rightarrow> string"
  rc_hex_decode :: "string \<Rightarrow> bytes option"
  rc_public :: "bytes \<Rightarrow> bytes"
  rc_shared :: "bytes \<Rightarrow> bytes \<Rightarrow> bytes"
  rc_hkdf :: "bytes \<Rightarrow> bytes \<Rightarrow> bytes \<Rightarrow> bytes option"
  rc_seal :: "bytes \<Rightarrow> bytes \<Rightarrow> bytes \<Rightarrow> bytes \<Rightarrow> bytes option"
  rc_open :: "bytes \<Rightarrow> bytes \<Rightarrow> bytes \<Rightarrow> bytes \<Rightarrow> bytes option"
  rc_base64 :: "bytes \<Rightarrow> string"
  rc_url_parse :: "string \<Rightarrow> string + string"
  rc_client_request :: "string \<Rightarrow> string + unit"
  rc_header_value :: "string \<Rightarrow> bool"
  rc_connect :: "nat \<Rightarrow> string \<Rightarrow> string \<Rightarrow> string + (string + ws_message) list"
  rc_send_fault :: "nat \<Rightarrow> string option"

record session =
  ses_key :: bytes
  ses_rx :: "64 word"
  ses_tx :: "64 word"

record p2p_manager =
  pm_verbose :: bool
  pm_table :: tool_table
  pm_signal_url :: string
  pm_room :: string
  pm_public :: bytes
  pm_secret :: bytes
  pm_sessions :: "string \<Rightarrow> session option"

text \<open>The manager, what its web socket has sent, the counters of its oracles, and the host's state.\<close>

record relay =
  r_manager :: p2p_manager
  r_sent :: "ws_message list"
  r_sends :: nat
  r_connections :: nat
  r_world :: world

type_synonym 'a relay_act = "(relay, transport_error, 'a) act"

definition get_manager :: "(relay, 'e, p2p_manager) act" where
  "get_manager r = (Inr (r_manager r), r)"

definition session_insert ::
  "string \<Rightarrow> session \<Rightarrow> (string \<Rightarrow> session option) \<Rightarrow> (string \<Rightarrow> session option)" where
  "session_insert peer s m = m(peer \<mapsto> s)"

interpretation session_map: keyed_map "\<lambda>m k. m k" session_insert Map.empty
  by unfold_locales (simp_all add: session_insert_def)

definition put_session :: "string \<Rightarrow> session \<Rightarrow> (relay, 'e, unit) act" where
  "put_session peer s r =
     (Inr (), r\<lparr>r_manager := (r_manager r)\<lparr>pm_sessions :=
        session_insert peer s (pm_sessions (r_manager r))\<rparr>\<rparr>)"

definition on_world :: "(world, 'e, 'a) act \<Rightarrow> (relay, 'e, 'a) act" where
  "on_world m r = (case m (r_world r) of (v, w) \<Rightarrow> (v, r\<lparr>r_world := w\<rparr>))"

section \<open>Handshake\<close>

definition relay_kdf_info :: bytes where
  "relay_kdf_info = ''folk-around p2p relay v1''"

definition parse_identity :: "relay_crates \<Rightarrow> string \<Rightarrow> transport_error + bytes" where
  "parse_identity C hex_value =
     res_bind (ok_or Invalid_Peer_Identity (rc_hex_decode C hex_value)) (\<lambda>bs.
     if length bs = 32 then Inr bs else Inl Invalid_Peer_Identity)"

definition x25519_public :: "relay_crates \<Rightarrow> bytes \<Rightarrow> bytes" where
  "x25519_public C secret = rc_public C secret"

definition x25519_shared :: "relay_crates \<Rightarrow> bytes \<Rightarrow> bytes \<Rightarrow> bytes" where
  "x25519_shared C secret public = rc_shared C secret public"

text \<open>The salt: the two public keys, the lexicographically smaller one first.\<close>

definition session_salt :: "bytes \<Rightarrow> bytes \<Rightarrow> bytes" where
  "session_salt own peer = (if own < peer then own @ peer else peer @ own)"

definition session_key :: "relay_crates \<Rightarrow> bytes \<Rightarrow> bytes \<Rightarrow> bytes \<Rightarrow> transport_error + bytes" where
  "session_key C public secret peer_public =
     ok_or Crypto_Error
       (rc_hkdf C (session_salt public peer_public) (x25519_shared C secret peer_public)
          relay_kdf_info)"

definition fresh_session :: "bytes \<Rightarrow> session" where
  "fresh_session key = \<lparr>ses_key = key, ses_rx = 0, ses_tx = 0\<rparr>"

definition negotiated_key :: "relay_crates \<Rightarrow> p2p_manager \<Rightarrow> string \<Rightarrow> transport_error + bytes" where
  "negotiated_key C m peer =
     res_bind (parse_identity C peer) (session_key C (pm_public m) (pm_secret m))"

definition establish_session :: "relay_crates \<Rightarrow> string \<Rightarrow> unit relay_act" where
  "establish_session C peer =
     act_bind get_manager (\<lambda>m.
     act_bind (lift_res (negotiated_key C m peer)) (\<lambda>key.
     case pm_sessions m peer of
       Some _ \<Rightarrow> ret ()
     | None \<Rightarrow> put_session peer (fresh_session key)))"

definition ensure_relay_sender :: "p2p_manager \<Rightarrow> string \<Rightarrow> transport_error + unit" where
  "ensure_relay_sender m from' =
     (if pm_sessions m from' \<noteq> None then Inr () else Inl Invalid_Peer_Identity)"

section \<open>Sealing and opening payloads\<close>

definition make_relay_ad :: "string \<Rightarrow> string \<Rightarrow> bytes" where
  "make_relay_ad from' to' =
     ''folk-around p2p relay'' @ [CHR 0x0A] @ ''from='' @ from' @ [CHR 0x0A] @ ''to='' @ to'"

definition relay_cipher :: string where
  "relay_cipher = ''xchacha20poly1305''"

definition encrypt_relay_payload ::
  "host \<Rightarrow> relay_crates \<Rightarrow> string \<Rightarrow> bytes \<Rightarrow> json relay_act" where
  "encrypt_relay_payload H C peer plaintext =
     act_bind get_manager (\<lambda>m.
     act_bind (lift_res (ok_or Handshake_Required (pm_sessions m peer))) (\<lambda>s.
     act_bind (on_world (fill_bytes H 24)) (\<lambda>nonce.
     act_bind (put_session peer (s\<lparr>ses_tx := ses_tx s + 1\<rparr>)) (\<lambda>_.
     act_bind (lift_res (ok_or Crypto_Error
       (rc_seal C (ses_key s) nonce (make_relay_ad (rc_hex_encode C (pm_public m)) peer)
          (be_bytes 8 (unat (ses_tx s)) @ plaintext)))) (\<lambda>buffer.
     ret (jobj [(''v'', jnat 1), (''alg'', Str relay_cipher),
       (''nonce'', Str (rc_hex_encode C nonce)), (''ciphertext'', Str (rc_hex_encode C buffer))]))))))"

text \<open>The payload's fields: a JSON text is parsed first; then version, algorithm, nonce, ciphertext.\<close>

definition payload_value :: "host \<Rightarrow> json \<Rightarrow> transport_error + json" where
  "payload_value H data =
     (case as_str data of
        Some text \<Rightarrow> map_err Transport_Json (h_json_parse H text)
      | None \<Rightarrow> Inr data)"

definition payload_bytes :: "relay_crates \<Rightarrow> json \<Rightarrow> string \<Rightarrow> transport_error + bytes" where
  "payload_bytes C encrypted key =
     res_bind (ok_or Invalid_Encrypted_Payload (Option.bind (jget encrypted key) as_str)) (\<lambda>s.
     ok_or Invalid_Encrypted_Payload (rc_hex_decode C s))"

definition payload_parts :: "relay_crates \<Rightarrow> json \<Rightarrow> transport_error + bytes \<times> bytes" where
  "payload_parts C encrypted =
     (if Option.bind (jget encrypted ''v'') as_i64 \<noteq> Some 1 then Inl Invalid_Encrypted_Payload
      else if Option.bind (jget encrypted ''alg'') as_str \<noteq> Some relay_cipher
      then Inl Invalid_Encrypted_Payload
      else
        res_bind (payload_bytes C encrypted ''nonce'') (\<lambda>nonce.
        res_bind (payload_bytes C encrypted ''ciphertext'') (\<lambda>ciphertext.
        if length nonce \<noteq> 24 then Inl Invalid_Encrypted_Payload else Inr (nonce, ciphertext))))"

text \<open>The replay check: a sequence number must exceed every one received before.\<close>

definition accept_seqno :: "64 word \<Rightarrow> session \<Rightarrow> session option" where
  "accept_seqno seqno s = (if seqno \<le> ses_rx s then None else Some (s\<lparr>ses_rx := seqno\<rparr>))"

definition buffer_seqno :: "bytes \<Rightarrow> 64 word" where
  "buffer_seqno buffer = word_of_nat (be_val (take 8 buffer))"

text \<open>Everything up to the update of the session: the session with its raised counter, and the buffer.\<close>

definition open_payload ::
  "host \<Rightarrow> relay_crates \<Rightarrow> p2p_manager \<Rightarrow> string \<Rightarrow> json \<Rightarrow> transport_error + session \<times> bytes" where
  "open_payload H C m from' data =
     res_bind (payload_value H data) (\<lambda>encrypted.
     res_bind (payload_parts C encrypted) (\<lambda>(nonce, ciphertext).
     res_bind (ok_or Handshake_Required (pm_sessions m from')) (\<lambda>s.
     res_bind (ok_or Crypto_Error
       (rc_open C (ses_key s) nonce (make_relay_ad from' (rc_hex_encode C (pm_public m)))
          ciphertext)) (\<lambda>buffer.
     if length buffer < 8 then Inl Invalid_Encrypted_Payload
     else
       res_bind (ok_or Invalid_Encrypted_Payload (accept_seqno (buffer_seqno buffer) s)) (\<lambda>s'.
       Inr (s', buffer))))))"

definition decrypt_relay_data :: "host \<Rightarrow> relay_crates \<Rightarrow> string \<Rightarrow> json \<Rightarrow> string relay_act" where
  "decrypt_relay_data H C from' data =
     act_bind get_manager (\<lambda>m.
     act_bind (lift_res (open_payload H C m from' data)) (\<lambda>(s', buffer).
     act_bind (put_session from' s') (\<lambda>_.
     lift_res (ok_or Invalid_Encrypted_Payload (from_utf8 (drop 8 buffer))))))"

section \<open>What sessions keep\<close>

text \<open>
  The contract of a replay guard: it accepts exactly the numbers above its level, and accepting one
  raises the level to it.
\<close>

locale replay_guard =
  fixes level :: "'s \<Rightarrow> 'n::linorder" and accept :: "'n \<Rightarrow> 's \<Rightarrow> 's option"
  assumes accept_above: "accept n s \<noteq> None \<longleftrightarrow> level s < n"
    and accept_level: "accept n s = Some s' \<Longrightarrow> level s' = n"
begin

lemma accept_raises: "accept n s = Some s' \<Longrightarrow> level s < level s'"
  using accept_above accept_level by fastforce

lemma accepted_once: "accept n s = Some s' \<Longrightarrow> level s' \<le> level t \<Longrightarrow> accept n t = None"
  using accept_above [of n t] accept_level by fastforce

end

interpretation seqno_guard: replay_guard ses_rx accept_seqno
  by unfold_locales (auto simp: accept_seqno_def not_le split: if_splits)

lemma accept_seqno_fields:
  "accept_seqno n s = Some s' \<Longrightarrow> ses_key s' = ses_key s \<and> ses_tx s' = ses_tx s"
  by (auto simp: accept_seqno_def split: if_splits)

text \<open>
  What every step of the manager keeps: its identity and settings, and each session with its key
  and with a receive counter that never decreases; a new session has the negotiated key.
\<close>

definition session_grows :: "session \<Rightarrow> session \<Rightarrow> bool" where
  "session_grows s s' \<longleftrightarrow> ses_key s' = ses_key s \<and> ses_rx s \<le> ses_rx s'"

definition manager_grows :: "relay_crates \<Rightarrow> p2p_manager \<Rightarrow> p2p_manager \<Rightarrow> bool" where
  "manager_grows C m m' \<longleftrightarrow>
     pm_public m' = pm_public m \<and> pm_secret m' = pm_secret m \<and> pm_verbose m' = pm_verbose m \<and>
     pm_table m' = pm_table m \<and> pm_signal_url m' = pm_signal_url m \<and> pm_room m' = pm_room m \<and>
     (\<forall>peer s. pm_sessions m peer = Some s \<longrightarrow>
        (\<exists>s'. pm_sessions m' peer = Some s' \<and> session_grows s s')) \<and>
     (\<forall>peer s'. pm_sessions m' peer = Some s' \<longrightarrow>
        negotiated_key C m peer = Inr (ses_key s') \<or>
        (\<exists>s. pm_sessions m peer = Some s \<and> ses_key s = ses_key s'))"

definition relay_grows :: "relay_crates \<Rightarrow> relay \<Rightarrow> relay \<Rightarrow> bool" where
  "relay_grows C r r' \<longleftrightarrow> manager_grows C (r_manager r) (r_manager r')"

lemma session_grows_trans: "session_grows s t \<Longrightarrow> session_grows t u \<Longrightarrow> session_grows s u"
  by (auto simp: session_grows_def)

lemma negotiated_key_cong:
  "pm_public m' = pm_public m \<Longrightarrow> pm_secret m' = pm_secret m \<Longrightarrow>
     negotiated_key C m' peer = negotiated_key C m peer"
  by (simp add: negotiated_key_def)

lemma manager_grows_trans:
  assumes "manager_grows C m t" and "manager_grows C t u"
  shows "manager_grows C m u"
proof -
  have nk: "negotiated_key C t peer = negotiated_key C m peer" for peer
    using assms(1) by (intro negotiated_key_cong) (simp_all add: manager_grows_def)
  have old: "\<exists>s'. pm_sessions u peer = Some s' \<and> session_grows s s'"
    if "pm_sessions m peer = Some s" for peer s
    using assms that unfolding manager_grows_def by (meson session_grows_trans)
  have new: "negotiated_key C m peer = Inr (ses_key s') \<or>
      (\<exists>s. pm_sessions m peer = Some s \<and> ses_key s = ses_key s')"
    if "pm_sessions u peer = Some s'" for peer s'
    using assms that nk unfolding manager_grows_def by metis
  from assms old new show ?thesis by (simp add: manager_grows_def)
qed

interpretation sessions: effect_relation "relay_grows C" for C
proof
  show "relay_grows C r r" for r
    by (auto simp: relay_grows_def manager_grows_def session_grows_def)
  show "relay_grows C r t \<Longrightarrow> relay_grows C t u \<Longrightarrow> relay_grows C r u" for r t u
    unfolding relay_grows_def by (rule manager_grows_trans)
qed

named_theorems relay_intros "actions that keep sessions"

lemma relay_grows_get [relay_intros]: "keeps (relay_grows C) get_manager"
  by (rule keepsI) (simp add: get_manager_def sessions.rel_refl)

lemma relay_grows_world [relay_intros]: "keeps (relay_grows C) (on_world m)"
  by (rule keepsI) (simp add: on_world_def case_prod_beta relay_grows_def manager_grows_def session_grows_def)

lemma relay_grows_put:
  "pm_sessions (r_manager r) peer = Some s \<or>
     (pm_sessions (r_manager r) peer = None \<and> negotiated_key C (r_manager r) peer = Inr (ses_key s)) \<Longrightarrow>
     session_grows s s' \<Longrightarrow>
     relay_grows C r (snd (put_session peer s' r))"
  by (auto simp: put_session_def relay_grows_def manager_grows_def session_insert_def session_grows_def)

text \<open>A session that was just looked up may be written back when it has only grown.\<close>

lemma get_manager_eq [simp]: "get_manager r = (v, r') \<longleftrightarrow> v = Inr (r_manager r) \<and> r' = r"
  by (auto simp: get_manager_def)

lemma get_manager_bind [act_simps]: "act_bind get_manager f r = f (r_manager r) r"
  by (simp add: act_bind_def get_manager_def)

lemma put_session_apply [act_simps]:
  "put_session peer s r = (Inr (), r\<lparr>r_manager := (r_manager r)\<lparr>pm_sessions :=
     (pm_sessions (r_manager r))(peer \<mapsto> s)\<rparr>\<rparr>)"
  by (simp add: put_session_def session_insert_def)

lemma on_world_fill [act_simps]:
  "on_world (fill_bytes H n) r =
     (Inr (map (h_random H) [rng_pos (r_world r) ..< rng_pos (r_world r) + n]),
      r\<lparr>r_world := (r_world r)\<lparr>rng_pos := rng_pos (r_world r) + n\<rparr>\<rparr>)"
  by (simp add: on_world_def fill_bytes_def)

lemma open_payload_InrD:
  assumes "open_payload H C m from' data = Inr (s', buffer)"
  obtains encrypted nonce ct s where "payload_value H data = Inr encrypted"
    "payload_parts C encrypted = Inr (nonce, ct)" "pm_sessions m from' = Some s"
    "rc_open C (ses_key s) nonce (make_relay_ad from' (rc_hex_encode C (pm_public m))) ct = Some buffer"
    "8 \<le> length buffer" "accept_seqno (buffer_seqno buffer) s = Some s'"
  using assms
  by (auto simp: open_payload_def res_bind_eq_Inr ok_or_eq_Inr split: prod.splits if_splits)

lemma relay_grows_establish [relay_intros]: "keeps (relay_grows C) (establish_session C peer)"
proof
  fix r :: relay
  have "relay_grows C r (snd (put_session peer (fresh_session k) r))"
    if "pm_sessions (r_manager r) peer = None" "negotiated_key C (r_manager r) peer = Inr k" for k
    using that relay_grows_put [of r peer "fresh_session k" C "fresh_session k"]
    by (simp add: session_grows_def fresh_session_def)
  then show "relay_grows C r (snd (establish_session C peer r))"
    unfolding establish_session_def get_manager_bind
    by (cases "negotiated_key C (r_manager r) peer"; cases "pm_sessions (r_manager r) peer")
       (simp_all add: ret_def fail_def sessions.rel_refl)
qed

lemma relay_grows_decrypt [relay_intros]: "keeps (relay_grows C) (decrypt_relay_data H C from' data)"
proof
  fix r :: relay
  show "relay_grows C r (snd (decrypt_relay_data H C from' data r))"
  proof (cases "open_payload H C (r_manager r) from' data")
    case (Inl e)
    then show ?thesis by (simp add: decrypt_relay_data_def get_manager_bind fail_def sessions.rel_refl)
  next
    case (Inr sb)
    obtain s' buffer where sb: "sb = (s', buffer)" by (cases sb)
    from Inr sb obtain s where "pm_sessions (r_manager r) from' = Some s"
      "accept_seqno (buffer_seqno buffer) s = Some s'" by (blast elim: open_payload_InrD)
    moreover from this have "session_grows s s'"
      using seqno_guard.accept_raises accept_seqno_fields by (fastforce simp: session_grows_def)
    ultimately have "relay_grows C r (snd (put_session from' s' r))"
      by (intro relay_grows_put [where s = s]) simp_all
    with Inr sb show ?thesis
      by (simp add: decrypt_relay_data_def get_manager_def act_bind_def put_session_def lift_res_def)
  qed
qed

lemma relay_grows_encrypt [relay_intros]:
  "keeps (relay_grows C) (encrypt_relay_payload H C peer plaintext)"
proof
  fix r :: relay
  show "relay_grows C r (snd (encrypt_relay_payload H C peer plaintext r))"
  proof (cases "pm_sessions (r_manager r) peer")
    case None
    then show ?thesis
      by (simp add: encrypt_relay_payload_def get_manager_bind fail_def sessions.rel_refl)
  next
    case (Some s)
    let ?r1 = "snd (on_world (fill_bytes H 24 :: (world, transport_error, bytes) act) r)"
    let ?r2 = "snd ((put_session peer (s\<lparr>ses_tx := ses_tx s + 1\<rparr>) :: unit relay_act) ?r1)"
    have "relay_grows C r ?r1"
      using relay_grows_world [where m = "fill_bytes H 24 :: (world, transport_error, bytes) act"]
      by (simp only: keeps_def)
    moreover have "relay_grows C ?r1 ?r2"
      using Some by (intro relay_grows_put [where s = s]) (simp_all add: on_world_fill session_grows_def)
    ultimately have "relay_grows C r ?r2" by (rule sessions.rel_trans)
    then show ?thesis
      using Some by (simp add: encrypt_relay_payload_def get_manager_def act_bind_def on_world_fill
          put_session_def lift_res_def ok_or_def ret_def split: option.split)
  qed
qed

section \<open>What the crates promise\<close>

text \<open>
  The crate \<open>hex\<close>: decoding inverts encoding, and only digits and letters decode, two for a byte.
\<close>

definition hex_laws :: "relay_crates \<Rightarrow> bool" where
  "hex_laws C \<longleftrightarrow>
     (\<forall>b. rc_hex_decode C (rc_hex_encode C b) = Some b) \<and>
     (\<forall>s b. rc_hex_decode C s = Some b \<longrightarrow>
        length s = 2 * length b \<and> list_all is_ascii_alphanumeric s)"

text \<open>
  XChaCha20-Poly1305: a message up to the 2 to the 38 bytes less one block that the block counter
  allows is sealed, and opening what was sealed under the same key, nonce and associated data gives
  the message.
\<close>

definition max_sealed :: nat where
  "max_sealed = 274877906880"

definition aead_laws :: "relay_crates \<Rightarrow> bool" where
  "aead_laws C \<longleftrightarrow>
     (\<forall>k n ad m. length m \<le> max_sealed \<longrightarrow> rc_seal C k n ad m \<noteq> None) \<and>
     (\<forall>k n ad m c. rc_seal C k n ad m = Some c \<longrightarrow> rc_open C k n ad c = Some m)"

text \<open>X25519: both sides compute one shared secret, and public keys have 32 bytes.\<close>

definition dh_laws :: "relay_crates \<Rightarrow> bool" where
  "dh_laws C \<longleftrightarrow>
     (\<forall>a b. rc_shared C a (rc_public C b) = rc_shared C b (rc_public C a)) \<and>
     (\<forall>a. length (rc_public C a) = 32)"

text \<open>Functions that satisfy the laws, to evaluate the model on.\<close>

definition unhex_digit :: "char \<Rightarrow> nat" where
  "unhex_digit c = (if is_ascii_digit c then byte_val c - 48 else byte_val c - 87)"

fun unhex :: "string \<Rightarrow> bytes option" where
  "unhex [] = Some []"
| "unhex [_] = None"
| "unhex (a # b # s) =
     (if is_lower_hex a \<and> is_lower_hex b
      then map_option (Cons (char_of (16 * unhex_digit a + unhex_digit b))) (unhex s)
      else None)"

definition pad32 :: "bytes \<Rightarrow> bytes" where
  "pad32 s = take 32 (s @ replicate 32 CHR ''0'')"

definition add_bytes :: "bytes \<Rightarrow> bytes \<Rightarrow> bytes" where
  "add_bytes a b = map2 (\<lambda>x y. char_of (byte_val x + byte_val y)) a b"

definition demo_crates :: relay_crates where
  "demo_crates =
     \<lparr>rc_hex_encode = hex_bytes, rc_hex_decode = unhex,
      rc_public = pad32, rc_shared = (\<lambda>s p. add_bytes (pad32 s) p),
      rc_hkdf = (\<lambda>salt ikm info. Some ikm),
      rc_seal = (\<lambda>k n ad m. Some m), rc_open = (\<lambda>k n ad c. Some c),
      rc_base64 = (\<lambda>b. b), rc_url_parse = Inr, rc_client_request = (\<lambda>u. Inr ()),
      rc_header_value = (\<lambda>s. True), rc_connect = (\<lambda>n u k. Inr []),
      rc_send_fault = (\<lambda>n. None)\<rparr>"

lemma unhex_hex_char: "d < 16 \<Longrightarrow> unhex_digit (hex_char d) = d"
  using less_sixteen_cases [of d] by (auto simp: hex_char_def unhex_digit_def byte_class_defs)

lemma hex_bytes_two: "hex_bytes (b # bs) =
    hex_char (byte_val b div 16) # hex_char (byte_val b mod 16) # hex_bytes bs"
  using byte_val_less [of b] by (simp add: hex_bytes_Cons numeral_2_eq_2)

lemma unhex_hex_bytes: "unhex (hex_bytes bs) = Some bs"
proof (induction bs)
  case Nil
  then show ?case by (simp add: hex_bytes_def)
next
  case (Cons b bs)
  have "byte_val b div 16 < 16" using byte_val_less [of b] by simp
  then show ?case
    using Cons by (simp add: hex_bytes_two hex_char_lower_hex unhex_hex_char byte_val_def)
qed

lemma unhex_shape: "unhex s = Some b \<Longrightarrow> length s = 2 * length b \<and> list_all is_ascii_alphanumeric s"
proof (induction s arbitrary: b rule: unhex.induct)
  case (3 x y s)
  have "is_lower_hex c \<Longrightarrow> is_ascii_alphanumeric c" for c
    by (auto simp: is_lower_hex_def is_ascii_alphanumeric_def is_ascii_lower_def in_range_def)
  with 3 show ?case by (auto split: if_splits)
qed auto

lemma add_bytes_comm: "add_bytes a b = add_bytes b a"
  unfolding add_bytes_def by (subst zip_commute) (simp add: case_prod_beta add.commute)

lemma length_pad32: "length (pad32 s) = 32"
  by (cases "32 \<le> length s") (simp_all add: pad32_def min_def)

lemma demo_crates_laws: "hex_laws demo_crates" "aead_laws demo_crates" "dh_laws demo_crates"
proof -
  show "hex_laws demo_crates"
    using unhex_hex_bytes unhex_shape by (simp add: hex_laws_def demo_crates_def)
  show "aead_laws demo_crates" by (simp add: aead_laws_def demo_crates_def)
  have "add_bytes (pad32 a) (pad32 b) = add_bytes (pad32 b) (pad32 a)" for a b
    by (rule add_bytes_comm)
  then show "dh_laws demo_crates" by (simp add: dh_laws_def demo_crates_def length_pad32)
qed

section \<open>Keys\<close>

definition own_id :: "relay_crates \<Rightarrow> relay \<Rightarrow> string" where
  "own_id C r = rc_hex_encode C (pm_public (r_manager r))"

lemma session_salt_sym: "session_salt a b = session_salt b a"
proof -
  consider "a < b" | "b < a" | "a = b" by (meson linorder_less_linear)
  then show ?thesis by cases (auto simp: session_salt_def)
qed

lemma parse_identity_encode:
  "hex_laws C \<Longrightarrow> length pk = 32 \<Longrightarrow> parse_identity C (rc_hex_encode C pk) = Inr pk"
  by (simp add: parse_identity_def hex_laws_def)

lemma parse_identity_InrD:
  assumes "hex_laws C" and "parse_identity C s = Inr pk"
  shows "length s = 64" "list_all is_ascii_alphanumeric s" "length pk = 32"
proof -
  from assms(2) have d: "rc_hex_decode C s = Some pk" and l: "length pk = 32"
    by (auto simp: parse_identity_def res_bind_eq_Inr ok_or_eq_Inr split: if_splits)
  from assms(1) d have "length s = 2 * length pk \<and> list_all is_ascii_alphanumeric s"
    by (auto simp: hex_laws_def)
  with l show "length s = 64" "list_all is_ascii_alphanumeric s" "length pk = 32" by simp_all
qed

lemma keys_agree:
  assumes "hex_laws C" and "dh_laws C"
    and "pm_public (r_manager a) = x25519_public C (pm_secret (r_manager a))"
    and "pm_public (r_manager b) = x25519_public C (pm_secret (r_manager b))"
  shows "negotiated_key C (r_manager a) (own_id C b) = negotiated_key C (r_manager b) (own_id C a)"
  using assms
  by (simp add: negotiated_key_def own_id_def parse_identity_encode dh_laws_def x25519_public_def
      session_key_def x25519_shared_def session_salt_sym)

text \<open>
  Key agreement: two managers whose public keys belong to their secrets negotiate the same
  session key from each other's hexadecimal identity, whichever identity sorts first.
\<close>

theorem session_keys_agree:
  assumes "hex_laws C" and "dh_laws C"
    and "pm_public (r_manager a) = x25519_public C (pm_secret (r_manager a))"
    and "pm_public (r_manager b) = x25519_public C (pm_secret (r_manager b))"
  shows "negotiated_key C (r_manager a) (own_id C b) = negotiated_key C (r_manager b) (own_id C a)"
  using assms by (rule keys_agree)

definition demo_relay :: "string \<Rightarrow> relay" where
  "demo_relay secret =
     \<lparr>r_manager = \<lparr>pm_verbose = False, pm_table = table_new Full, pm_signal_url = ''h'',
        pm_room = ''r'', pm_public = pad32 secret, pm_secret = secret, pm_sessions = Map.empty\<rparr>,
      r_sent = [], r_sends = 0, r_connections = 0, r_world = demo_world\<rparr>"

theorem session_keys_agree_witness:
  "negotiated_key demo_crates (r_manager (demo_relay ''a'')) (own_id demo_crates (demo_relay ''b'')) =
   negotiated_key demo_crates (r_manager (demo_relay ''b'')) (own_id demo_crates (demo_relay ''a''))"
  by (rule session_keys_agree [OF demo_crates_laws(1,3)])
     (simp_all add: demo_relay_def x25519_public_def demo_crates_def)

section \<open>Associated data\<close>

lemma relay_ad_inj:
  assumes "CHR 0x0A \<notin> set f" "CHR 0x0A \<notin> set f'"
  shows "make_relay_ad f t = make_relay_ad f' t' \<longleftrightarrow> f = f' \<and> t = t'"
proof
  assume "make_relay_ad f t = make_relay_ad f' t'"
  then have "f @ CHR 0x0A # ''to='' @ t = f' @ CHR 0x0A # ''to='' @ t'"
    by (simp add: make_relay_ad_def)
  with assms show "f = f' \<and> t = t'"
    by (metis same_append_eq list.inject takeWhile_not_mem)
qed simp

text \<open>
  The associated data of a relayed payload binds sender and recipient: between identities
  (strings that decode to 32 bytes) it is injective, so that a payload sealed for one pair, one
  direction included, is never opened under the data of another.
\<close>

theorem relay_ad_binds_both_peers:
  assumes "hex_laws C" and "parse_identity C f = Inr p" and "parse_identity C f' = Inr p'"
  shows "make_relay_ad f t = make_relay_ad f' t' \<longleftrightarrow> f = f' \<and> t = t'"
proof -
  have "CHR 0x0A \<notin> set s" if "list_all is_ascii_alphanumeric s" for s
    using that by (auto simp: list_all_iff is_ascii_alphanumeric_def byte_class_defs)
  with assms parse_identity_InrD(2) show ?thesis by (intro relay_ad_inj) blast+
qed

theorem relay_ad_binds_both_peers_witness:
  "make_relay_ad (hex_bytes (pad32 ''a'')) (hex_bytes (pad32 ''b'')) \<noteq>
     make_relay_ad (hex_bytes (pad32 ''b'')) (hex_bytes (pad32 ''a''))"
proof -
  have p: "parse_identity demo_crates (hex_bytes (pad32 s)) = Inr (pad32 s)" for s
    using parse_identity_encode [OF demo_crates_laws(1) length_pad32]
    by (simp add: demo_crates_def)
  have "hex_bytes (pad32 ''a'') \<noteq> hex_bytes (pad32 ''b'')"
    by (simp add: hex_bytes_inj pad32_def)
  then show ?thesis
    unfolding relay_ad_binds_both_peers [OF demo_crates_laws(1) p p] by simp
qed

section \<open>One payload\<close>

definition relay_nonce :: "host \<Rightarrow> relay \<Rightarrow> bytes" where
  "relay_nonce H r = map (h_random H) [rng_pos (r_world r) ..< rng_pos (r_world r) + 24]"

definition sealed_json :: "relay_crates \<Rightarrow> bytes \<Rightarrow> bytes \<Rightarrow> json" where
  "sealed_json C nonce ct =
     jobj [(''v'', jnat 1), (''alg'', Str relay_cipher),
       (''nonce'', Str (rc_hex_encode C nonce)), (''ciphertext'', Str (rc_hex_encode C ct))]"

definition sessions_of :: "relay \<Rightarrow> string \<Rightarrow> session option" where
  "sessions_of r = pm_sessions (r_manager r)"

lemma encrypt_ok:
  assumes "sessions_of r peer = Some s"
    and "rc_seal C (ses_key s) (relay_nonce H r) (make_relay_ad (own_id C r) peer)
           (be_bytes 8 (unat (ses_tx s)) @ m) = Some ct"
  shows "\<exists>r'. encrypt_relay_payload H C peer m r = (Inr (sealed_json C (relay_nonce H r) ct), r') \<and>
     sessions_of r' = (sessions_of r)(peer \<mapsto> s\<lparr>ses_tx := ses_tx s + 1\<rparr>) \<and> own_id C r' = own_id C r"
  using assms
  by (simp add: encrypt_relay_payload_def get_manager_def act_bind_def on_world_fill put_session_apply
      lift_res_def ret_def sealed_json_def sessions_of_def relay_nonce_def own_id_def)

lemma payload_parts_sealed:
  assumes "hex_laws C" and "length nonce = 24"
  shows "payload_value H (sealed_json C nonce ct) = Inr (sealed_json C nonce ct)"
    "payload_parts C (sealed_json C nonce ct) = Inr (nonce, ct)"
proof -
  have "as_str (sealed_json C nonce ct) = None" by (simp add: sealed_json_def jobj_def)
  then show "payload_value H (sealed_json C nonce ct) = Inr (sealed_json C nonce ct)"
    by (simp add: payload_value_def)
  show "payload_parts C (sealed_json C nonce ct) = Inr (nonce, ct)"
    using assms by (simp add: payload_parts_def payload_bytes_def sealed_json_def hex_laws_def i64_max_def)
qed

lemma buffer_seqno_be: "buffer_seqno (be_bytes 8 (unat n) @ m) = n"
proof -
  have "unat n < 256 ^ 8" using unsigned_less [of n, where 'a = nat] by simp
  then show ?thesis by (simp add: buffer_seqno_def be_val_be_bytes)
qed

lemma decrypt_sealed:
  assumes "hex_laws C" and "length nonce = 24" and "sessions_of r from' = Some s"
    and "rc_open C (ses_key s) nonce (make_relay_ad from' (own_id C r)) ct =
           Some (be_bytes 8 (unat n) @ m)"
    and "utf8_valid m"
  shows "\<exists>r'. decrypt_relay_data H C from' (sealed_json C nonce ct) r =
       ((if n \<le> ses_rx s then Inl Invalid_Encrypted_Payload else Inr m), r') \<and>
     sessions_of r' =
       (if n \<le> ses_rx s then sessions_of r else (sessions_of r)(from' \<mapsto> s\<lparr>ses_rx := n\<rparr>)) \<and>
     own_id C r' = own_id C r"
proof -
  have "open_payload H C (r_manager r) from' (sealed_json C nonce ct) =
      (if n \<le> ses_rx s then Inl Invalid_Encrypted_Payload
       else Inr (s\<lparr>ses_rx := n\<rparr>, be_bytes 8 (unat n) @ m))"
    using assms
    by (simp add: open_payload_def payload_parts_sealed sessions_of_def own_id_def buffer_seqno_be
        accept_seqno_def)
  then show ?thesis
    using assms(5)
    by (simp add: decrypt_relay_data_def get_manager_bind put_session_apply act_bind_Inr lift_res_def
        sessions_of_def own_id_def from_utf8_def fail_def)
qed

section \<open>A session\<close>

text \<open>
  Payloads that one manager seals for the other and that the network delivers in order: what the
  receiver makes of each.
\<close>

fun relay_all ::
  "host \<Rightarrow> host \<Rightarrow> relay_crates \<Rightarrow> bytes list \<Rightarrow> relay \<Rightarrow> relay \<Rightarrow> (transport_error + string) list" where
  "relay_all Ha Hb C [] a b = []"
| "relay_all Ha Hb C (m # ms) a b =
     (case encrypt_relay_payload Ha C (own_id C b) m a of
        (Inl e, a') \<Rightarrow> Inl e # relay_all Ha Hb C ms a' b
      | (Inr payload, a') \<Rightarrow>
          (case decrypt_relay_data Hb C (own_id C a) payload b of
             (r, b') \<Rightarrow> r # relay_all Ha Hb C ms a' b'))"

definition sendable :: "bytes \<Rightarrow> bool" where
  "sendable m \<longleftrightarrow> utf8_valid m \<and> length m + 8 \<le> max_sealed"

definition linked :: "relay_crates \<Rightarrow> relay \<Rightarrow> relay \<Rightarrow> 64 word \<Rightarrow> 64 word \<Rightarrow> bool" where
  "linked C a b tx rx \<longleftrightarrow>
     (\<exists>sa sb. sessions_of a (own_id C b) = Some sa \<and> sessions_of b (own_id C a) = Some sb \<and>
        ses_key sa = ses_key sb \<and> ses_tx sa = tx \<and> ses_rx sb = rx)"

lemma relay_one:
  assumes "hex_laws C" and "aead_laws C" and "linked C a b tx rx" and "sendable m"
  shows "\<exists>a' b'. relay_all Ha Hb C (m # ms) a b =
       (if tx \<le> rx then Inl Invalid_Encrypted_Payload else Inr m) # relay_all Ha Hb C ms a' b' \<and>
     linked C a' b' (tx + 1) (max tx rx)"
proof -
  obtain sa sb where sa: "sessions_of a (own_id C b) = Some sa"
    and sb: "sessions_of b (own_id C a) = Some sb"
    and k: "ses_key sa = ses_key sb" "ses_tx sa = tx" "ses_rx sb = rx"
    using assms(3) by (auto simp: linked_def)
  let ?n = "relay_nonce Ha a" and ?ad = "make_relay_ad (own_id C a) (own_id C b)"
  let ?buf = "be_bytes 8 (unat (ses_tx sa)) @ m"
  have "length ?buf \<le> max_sealed" using assms(4) by (simp add: sendable_def)
  then obtain ct where ct: "rc_seal C (ses_key sa) ?n ?ad ?buf = Some ct"
    using assms(2) unfolding aead_laws_def by blast
  obtain a' where a': "encrypt_relay_payload Ha C (own_id C b) m a = (Inr (sealed_json C ?n ct), a')"
    "sessions_of a' = (sessions_of a)(own_id C b \<mapsto> sa\<lparr>ses_tx := ses_tx sa + 1\<rparr>)" "own_id C a' = own_id C a"
    using encrypt_ok [OF sa ct] by blast
  have op: "rc_open C (ses_key sb) ?n ?ad ct = Some (be_bytes 8 (unat tx) @ m)"
    using assms(2) ct k by (auto simp: aead_laws_def)
  have "length ?n = 24" by (simp add: relay_nonce_def)
  from decrypt_sealed [OF assms(1) this sb op] assms(4) obtain b' where
    b': "decrypt_relay_data Hb C (own_id C a) (sealed_json C ?n ct) b =
        ((if tx \<le> ses_rx sb then Inl Invalid_Encrypted_Payload else Inr m), b')"
      "sessions_of b' = (if tx \<le> ses_rx sb then sessions_of b
         else (sessions_of b)(own_id C a \<mapsto> sb\<lparr>ses_rx := tx\<rparr>))" "own_id C b' = own_id C b"
    by (auto simp: sendable_def)
  have "linked C a' b' (tx + 1) (max tx rx)"
    using a' b' sb k by (auto simp: linked_def max_def)
  with a'(1) b'(1) k show ?thesis by auto
qed

lemma relay_ahead:
  assumes "hex_laws C" and "aead_laws C" and "linked C a b tx rx" and "rx < tx"
    and "\<forall>m \<in> set ms. sendable m" and "unat tx + length ms \<le> 2 ^ 64"
  shows "relay_all Ha Hb C ms a b = map Inr ms"
  using assms(3-)
proof (induction ms arbitrary: a b tx rx)
  case (Cons m ms)
  from Cons.prems have "sendable m" by simp
  have nle: "\<not> tx \<le> rx" and mx: "max tx rx = tx" using Cons.prems(2) by (auto simp: max_def not_le)
  obtain a' b' where
    step: "relay_all Ha Hb C (m # ms) a b = Inr m # relay_all Ha Hb C ms a' b'"
    and l: "linked C a' b' (tx + 1) tx"
    using relay_one [OF assms(1,2) Cons.prems(1) \<open>sendable m\<close>, where Ha = Ha and Hb = Hb and ms = ms]
    unfolding if_not_P [OF nle] mx by blast
  show ?case
  proof (cases ms)
    case Nil
    with step show ?thesis by simp
  next
    case (Cons m' ms')
    with Cons.prems(4) have small: "unat tx + 1 < 2 ^ 64" by simp
    then have n: "unat (tx + 1) = unat tx + 1" by (simp add: unat_word_ariths)
    then have "tx < tx + 1" by (simp add: word_less_nat_alt)
    then have "relay_all Ha Hb C ms a' b' = map Inr ms"
      using Cons.prems n by (intro Cons.IH [OF l]) simp_all
    with step show ?thesis by simp
  qed
qed simp

lemma establish_fresh:
  assumes "sessions_of r peer = None" and "establish_session C peer r = (Inr (), r')"
  shows "\<exists>key. negotiated_key C (r_manager r) peer = Inr key \<and>
    sessions_of r' = (sessions_of r)(peer \<mapsto> fresh_session key) \<and> own_id C r' = own_id C r"
  using assms
  by (cases "negotiated_key C (r_manager r) peer")
     (auto simp: establish_session_def get_manager_def act_bind_def lift_res_def sessions_of_def
       put_session_apply own_id_def)

text \<open>
  C6. A peer-to-peer session, end to end: two managers without a session shake hands, one seals
  payloads and the other receives them in order. The first payload is rejected, for the first
  sequence number sent is 0 and a receiver starts with 0 as the last one seen; every later payload
  arrives unchanged.
\<close>

theorem relay_session_delivers_all_but_first:
  assumes "hex_laws C" and "aead_laws C" and "dh_laws C"
    and "pm_public (r_manager a) = x25519_public C (pm_secret (r_manager a))"
    and "pm_public (r_manager b) = x25519_public C (pm_secret (r_manager b))"
    and "sessions_of a (own_id C b) = None" and "sessions_of b (own_id C a) = None"
    and "establish_session C (own_id C b) a = (Inr (), a')"
    and "establish_session C (own_id C a) b = (Inr (), b')"
    and "\<forall>m \<in> set (first # later). sendable m" and "length later < 2 ^ 64"
  shows "relay_all Ha Hb C (first # later) a' b' =
    Inl Invalid_Encrypted_Payload # map Inr later"
proof -
  obtain ka kb where ka: "negotiated_key C (r_manager a) (own_id C b) = Inr ka"
      "sessions_of a' = (sessions_of a)(own_id C b \<mapsto> fresh_session ka)" "own_id C a' = own_id C a"
    and kb: "negotiated_key C (r_manager b) (own_id C a) = Inr kb"
      "sessions_of b' = (sessions_of b)(own_id C a \<mapsto> fresh_session kb)" "own_id C b' = own_id C b"
    using establish_fresh assms(6-9) by metis
  have "ka = kb" using keys_agree [OF assms(1,3-5)] ka(1) kb(1) by simp
  then have "linked C a' b' 0 0" using ka kb by (simp add: linked_def fresh_session_def)
  moreover have "sendable first" using assms(10) by simp
  ultimately obtain a'' b'' where
    one: "relay_all Ha Hb C (first # later) a' b' =
      Inl Invalid_Encrypted_Payload # relay_all Ha Hb C later a'' b''"
    and l: "linked C a'' b'' 1 0"
    using relay_one [OF assms(1,2), where Ha = Ha and Hb = Hb and ms = later] by fastforce
  have "relay_all Ha Hb C later a'' b'' = map Inr later"
    using assms(10,11) by (intro relay_ahead [OF assms(1,2) l]) simp_all
  with one show ?thesis by simp
qed

text \<open>The two ends of a handshake on the demonstration crates.\<close>

definition demo_linked :: "string \<Rightarrow> string \<Rightarrow> relay" where
  "demo_linked own peer =
     snd (establish_session demo_crates (own_id demo_crates (demo_relay peer)) (demo_relay own))"

lemma demo_linked:
  "establish_session demo_crates (own_id demo_crates (demo_relay peer)) (demo_relay own) =
     (Inr (), demo_linked own peer)"
proof -
  have "parse_identity demo_crates (own_id demo_crates (demo_relay peer)) = Inr (pad32 peer)"
    using parse_identity_encode [OF demo_crates_laws(1) length_pad32]
    by (simp add: own_id_def demo_relay_def)
  then have "\<exists>k. negotiated_key demo_crates (r_manager (demo_relay own))
      (own_id demo_crates (demo_relay peer)) = Inr k"
    by (simp add: negotiated_key_def session_key_def demo_crates_def)
  moreover have "pm_sessions (r_manager (demo_relay own)) = Map.empty" by (simp add: demo_relay_def)
  ultimately show ?thesis
    unfolding demo_linked_def
    by (auto simp: establish_session_def get_manager_bind put_session_apply)
qed

theorem relay_session_delivers_all_but_first_witness:
  "relay_all demo_host demo_host demo_crates [''one'', ''two'', ''three'']
     (demo_linked ''a'' ''b'') (demo_linked ''b'' ''a'') =
   [Inl Invalid_Encrypted_Payload, Inr ''two'', Inr ''three'']"
proof -
  have "relay_all demo_host demo_host demo_crates (''one'' # [''two'', ''three''])
      (demo_linked ''a'' ''b'') (demo_linked ''b'' ''a'') =
    Inl Invalid_Encrypted_Payload # map Inr [''two'', ''three'']"
    by (rule relay_session_delivers_all_but_first [OF demo_crates_laws _ _ _ _ demo_linked demo_linked])
       (auto simp: demo_relay_def x25519_public_def demo_crates_def sessions_of_def sendable_def
         max_sealed_def byte_val_def intro!: utf8_valid_ascii)
  then show ?thesis by simp
qed

end
