(* ===== verification/Relay.thy ===== *)
theory Relay
  imports Relay_Session
begin

text \<open>
  The crate \<open>folk-transport\<close>, peer-to-peer relay, second part: the signalling connection of
  \<open>P2PManager\<close> (messages of the signalling server, offers, answers and relayed requests), the web
  socket address, and the reconnecting thread of \<open>start_p2p\<close>.

  What a connection will deliver is the list of read outcomes that \<open>rc_connect\<close> gives for it; a read
  after the last one fails, which ends the connection. Sending may fail by \<open>rc_send_fault\<close>.
\<close>

section \<open>Sending\<close>

definition ws_send :: "relay_crates \<Rightarrow> ws_message \<Rightarrow> unit relay_act" where
  "ws_send C msg r =
     (case rc_send_fault C (r_sends r) of
        Some e \<Rightarrow> (Inl (Web_Socket e), r\<lparr>r_sends := Suc (r_sends r)\<rparr>)
      | None \<Rightarrow> (Inr (), r\<lparr>r_sends := Suc (r_sends r), r_sent := r_sent r @ [msg]\<rparr>))"

definition ws_send_json :: "host \<Rightarrow> relay_crates \<Rightarrow> json \<Rightarrow> unit relay_act" where
  "ws_send_json H C v = ws_send C (Ws_Text (h_json_display H v))"

definition relay_say :: "host \<Rightarrow> p2p_manager \<Rightarrow> string \<Rightarrow> unit relay_act" where
  "relay_say H m message = on_world (say H (pm_verbose m) message)"

definition send_offer :: "host \<Rightarrow> relay_crates \<Rightarrow> string \<Rightarrow> unit relay_act" where
  "send_offer H C peer =
     act_bind get_manager (\<lambda>m.
     act_bind (ws_send_json H C (jobj [(''type'', Str ''offer''),
       (''from'', Str (rc_hex_encode C (pm_public m))), (''to'', Str peer),
       (''data'', jobj [(''type'', Str ''mcp_relay'')])])) (\<lambda>_.
     relay_say H m (''sent offer to '' @ peer)))"

definition send_answer :: "host \<Rightarrow> relay_crates \<Rightarrow> string \<Rightarrow> unit relay_act" where
  "send_answer H C peer =
     act_bind get_manager (\<lambda>m.
     act_bind (ws_send_json H C (jobj [(''type'', Str ''answer''),
       (''from'', Str (rc_hex_encode C (pm_public m))), (''to'', Str peer),
       (''data'', jobj [(''type'', Str ''mcp_relay''), (''accepted'', Bool True)])])) (\<lambda>_.
     relay_say H m (''sent answer to '' @ peer)))"

fun send_offers :: "host \<Rightarrow> relay_crates \<Rightarrow> json list \<Rightarrow> unit relay_act" where
  "send_offers H C [] = ret ()"
| "send_offers H C (v # vs) =
     (case as_str v of
        None \<Rightarrow> send_offers H C vs
      | Some peer \<Rightarrow> act_bind (send_offer H C peer) (\<lambda>_. send_offers H C vs))"

section \<open>Receiving\<close>

text \<open>\<open>handle_relay\<close> up to the decrypted request, and what follows.\<close>

definition relay_fields :: "json \<Rightarrow> transport_error + string \<times> json" where
  "relay_fields parsed =
     res_bind (ok_or Invalid_Peer_Identity (Option.bind (jget parsed ''from'') as_str)) (\<lambda>from'.
     res_bind (ok_or Invalid_Encrypted_Payload (jget parsed ''data'')) (\<lambda>data.
     Inr (from', data)))"

definition relay_request :: "host \<Rightarrow> relay_crates \<Rightarrow> string \<Rightarrow> string \<Rightarrow> unit relay_act" where
  "relay_request H C from' mcp_json =
     act_bind (lift_res (map_err Transport_Json (h_json_parse H mcp_json))) (\<lambda>msg.
     act_bind get_manager (\<lambda>m.
     act_bind (act_map_err Transport_Json
       (on_world (handle_message H (pm_verbose m) (pm_table m) msg))) (\<lambda>answer.
     case answer of
       None \<Rightarrow> ret ()
     | Some resp \<Rightarrow>
         act_bind (encrypt_relay_payload H C from' resp) (\<lambda>encrypted.
         ws_send_json H C (jobj [(''type'', Str ''relay''),
           (''from'', Str (rc_hex_encode C (pm_public m))), (''to'', Str from'),
           (''data'', encrypted)])))))"

definition handle_relay :: "host \<Rightarrow> relay_crates \<Rightarrow> json \<Rightarrow> unit relay_act" where
  "handle_relay H C parsed =
     act_bind (lift_res (relay_fields parsed)) (\<lambda>(from', data).
     act_bind get_manager (\<lambda>m.
     act_bind (lift_res (ensure_relay_sender m from')) (\<lambda>_.
     act_bind (relay_say H m (''relay from '' @ from')) (\<lambda>_.
     act_bind (decrypt_relay_data H C from' data) (relay_request H C from')))))"

text \<open>The \<open>match\<close> on the type of a signalling message.\<close>

definition dispatch_signal :: "host \<Rightarrow> relay_crates \<Rightarrow> json \<Rightarrow> unit relay_act" where
  "dispatch_signal H C parsed =
     (let msg_type = (case Option.bind (jget parsed ''type'') as_str of None \<Rightarrow> '''' | Some t \<Rightarrow> t)
      in if msg_type = ''joined'' then
           (case Option.bind (jget parsed ''peers'') as_array of
              None \<Rightarrow> ret ()
            | Some peers \<Rightarrow> send_offers H C peers)
         else if msg_type = ''peer_joined'' then
           (case Option.bind (jget parsed ''identity'') as_str of
              None \<Rightarrow> ret ()
            | Some peer \<Rightarrow> send_offer H C peer)
         else if msg_type = ''offer'' then
           (case Option.bind (jget parsed ''from'') as_str of
              None \<Rightarrow> ret ()
            | Some peer \<Rightarrow>
                act_bind (establish_session C peer) (\<lambda>_. send_answer H C peer))
         else if msg_type = ''answer'' then
           (case Option.bind (jget parsed ''from'') as_str of
              None \<Rightarrow> ret ()
            | Some peer \<Rightarrow> establish_session C peer)
         else if msg_type = ''relay'' then handle_relay H C parsed
         else ret ())"

definition handle_signal_message :: "host \<Rightarrow> relay_crates \<Rightarrow> string \<Rightarrow> unit relay_act" where
  "handle_signal_message H C raw =
     act_bind get_manager (\<lambda>m.
     act_bind (relay_say H m (''signaling recv: '' @ raw)) (\<lambda>_.
     act_bind (lift_res (map_err Transport_Json (h_json_parse H raw))) (dispatch_signal H C)))"

section \<open>The connection\<close>

definition signal_base :: "string \<Rightarrow> string" where
  "signal_base raw_url =
     (if starts_with ''ws://'' raw_url \<or> starts_with ''wss://'' raw_url \<or>
         starts_with ''http://'' raw_url \<or> starts_with ''https://'' raw_url
      then raw_url else ''https://'' @ raw_url)"

definition split_once_str :: "string \<Rightarrow> string \<Rightarrow> (string \<times> string) option" where
  "split_once_str sep s =
     map_option (\<lambda>i. (take i s, drop (i + length sep) s)) (find_bytes s sep)"

definition ws_scheme :: "string \<Rightarrow> transport_error + string" where
  "ws_scheme scheme =
     (if scheme = ''http'' then Inr ''ws''
      else if scheme = ''https'' then Inr ''wss''
      else if scheme = ''ws'' \<or> scheme = ''wss'' then Inr scheme
      else Inl Invalid_Signal_Url)"

definition signal_websocket_url :: "relay_crates \<Rightarrow> string \<Rightarrow> string \<Rightarrow> transport_error + string" where
  "signal_websocket_url C raw_url chamber =
     res_bind (ok_or Invalid_Signal_Url (split_once_str ''://'' (signal_base raw_url)))
       (\<lambda>(scheme, rest).
     res_bind (ws_scheme scheme) (\<lambda>ws.
     map_err Url_Error
       (rc_url_parse C (ws @ ''://'' @ trim_end_matches CHR ''/'' rest @ ''/signal/'' @ chamber))))"

text \<open>One message of the socket; the flag says whether the loop goes on.\<close>

fun handle_ws :: "host \<Rightarrow> relay_crates \<Rightarrow> ws_message \<Rightarrow> bool relay_act" where
  "handle_ws H C (Ws_Text text) = act_map (\<lambda>_. True) (handle_signal_message H C text)"
| "handle_ws H C (Ws_Binary bytes) =
     (case from_utf8 bytes of
        None \<Rightarrow> ret True
      | Some text \<Rightarrow> act_map (\<lambda>_. True) (handle_signal_message H C text))"
| "handle_ws H C (Ws_Ping payload) = act_map (\<lambda>_. True) (ws_send C (Ws_Pong payload))"
| "handle_ws H C Ws_Close = ret False"
| "handle_ws H C (Ws_Pong payload) = ret True"
| "handle_ws H C (Ws_Frame payload) = ret True"

fun signal_loop :: "host \<Rightarrow> relay_crates \<Rightarrow> (string + ws_message) list \<Rightarrow> unit relay_act" where
  "signal_loop H C [] = ret ()"
| "signal_loop H C (Inl e # reads) = ret ()"
| "signal_loop H C (Inr msg # reads) =
     act_bind (handle_ws H C msg) (\<lambda>go_on. if go_on then signal_loop H C reads else ret ())"

definition ws_connect ::
  "relay_crates \<Rightarrow> string \<Rightarrow> string \<Rightarrow> (string + ws_message) list relay_act" where
  "ws_connect C url key r =
     (map_err Web_Socket (rc_connect C (r_connections r) url key),
      r\<lparr>r_connections := Suc (r_connections r)\<rparr>)"

definition join_signal_room :: "host \<Rightarrow> relay_crates \<Rightarrow> unit relay_act" where
  "join_signal_room H C =
     act_bind get_manager (\<lambda>m.
     act_bind (lift_res (signal_websocket_url C (pm_signal_url m) (pm_room m))) (\<lambda>url.
     act_bind (relay_say H m (''signaling websocket: '' @ url)) (\<lambda>_.
     act_bind (lift_res (map_err Web_Socket (rc_client_request C url))) (\<lambda>_.
     act_bind (on_world (fill_bytes H 16)) (\<lambda>nonce.
     let key = rc_base64 C nonce
     in if \<not> rc_header_value C key then fail Invalid_Signal_Url
        else
          act_bind (ws_connect C url key) (\<lambda>reads.
          act_bind (ws_send_json H C (jobj [(''type'', Str ''join''),
            (''identity'', Str (rc_hex_encode C (pm_public m)))])) (\<lambda>_.
          act_bind (relay_say H m ''signaling join sent'') (\<lambda>_.
          signal_loop H C reads))))))))"

section \<open>The manager and its thread\<close>

definition p2p_manager_new ::
  "host \<Rightarrow> relay_crates \<Rightarrow> bool \<Rightarrow> tool_table \<Rightarrow> string \<Rightarrow> string \<Rightarrow> (world, 'e, p2p_manager) act" where
  "p2p_manager_new H C verbose table url chamber =
     act_bind (fill_bytes H 32) (\<lambda>secret.
     ret \<lparr>pm_verbose = verbose, pm_table = table, pm_signal_url = url, pm_room = chamber,
       pm_public = x25519_public C secret, pm_secret = secret, pm_sessions = Map.empty\<rparr>)"

text \<open>
  One round of the thread's endless loop: a connection, the log line of its error, and the pause
  of two seconds (which has no effect on the state). \<open>p2p_rounds\<close> is the state after \<open>n\<close> rounds.
\<close>

definition p2p_round :: "host \<Rightarrow> relay_crates \<Rightarrow> (transport_error \<Rightarrow> string) \<Rightarrow> relay \<Rightarrow> relay" where
  "p2p_round H C show_error r =
     (case join_signal_room H C r of
        (Inr _, r') \<Rightarrow> r'
      | (Inl err, r') \<Rightarrow>
          snd (relay_say H (r_manager r') (''signaling error: '' @ show_error err) r'))"

fun p2p_rounds ::
  "nat \<Rightarrow> host \<Rightarrow> relay_crates \<Rightarrow> (transport_error \<Rightarrow> string) \<Rightarrow> relay \<Rightarrow> relay" where
  "p2p_rounds 0 H C show_error r = r"
| "p2p_rounds (Suc n) H C show_error r = p2p_rounds n H C show_error (p2p_round H C show_error r)"

text \<open>What the thread has become after \<open>n\<close> rounds.\<close>

definition start_p2p ::
  "nat \<Rightarrow> host \<Rightarrow> relay_crates \<Rightarrow> (transport_error \<Rightarrow> string) \<Rightarrow> bool \<Rightarrow> tool_table \<Rightarrow>
   string \<Rightarrow> string \<Rightarrow> (world, 'e, relay) act" where
  "start_p2p n H C show_error verbose table url chamber =
     act_bind (p2p_manager_new H C verbose table url chamber) (\<lambda>m w.
       (Inr (p2p_rounds n H C show_error
          \<lparr>r_manager = m, r_sent = [], r_sends = 0, r_connections = 0, r_world = w\<rparr>), w))"

section \<open>Sessions over the life of the thread\<close>

lemma relay_grows_manager_eq: "r_manager r' = r_manager r \<Longrightarrow> relay_grows C r r'"
  using sessions.rel_refl [of C r] by (simp add: relay_grows_def)

lemma relay_grows_send [relay_intros]: "keeps (relay_grows C) (ws_send C msg)"
  by (rule keepsI) (simp add: ws_send_def relay_grows_manager_eq split: option.split)

lemma relay_grows_connect [relay_intros]: "keeps (relay_grows C) (ws_connect C url key)"
  by (rule keepsI) (simp add: ws_connect_def relay_grows_manager_eq)

lemma relay_grows_send_json [relay_intros]: "keeps (relay_grows C) (ws_send_json H C v)"
  unfolding ws_send_json_def by (rule relay_grows_send)

lemma relay_grows_say [relay_intros]: "keeps (relay_grows C) (relay_say H m s)"
  unfolding relay_say_def by (rule relay_grows_world)

lemma relay_grows_offer [relay_intros]: "keeps (relay_grows C) (send_offer H C peer)"
  unfolding send_offer_def by (intro sessions.keeps_bind relay_intros)

lemma relay_grows_answer [relay_intros]: "keeps (relay_grows C) (send_answer H C peer)"
  unfolding send_answer_def by (intro sessions.keeps_bind relay_intros)

lemma relay_grows_offers [relay_intros]: "keeps (relay_grows C) (send_offers H C vs)"
  by (induction vs) (auto intro!: sessions.keeps_control relay_intros split: option.split)

lemma relay_grows_request [relay_intros]: "keeps (relay_grows C) (relay_request H C from' text)"
  unfolding relay_request_def
  by (auto intro!: sessions.keeps_bind sessions.keeps_lift_res sessions.keeps_ret
      sessions.keeps_map_err relay_intros split: option.split)

lemma relay_grows_relay [relay_intros]: "keeps (relay_grows C) (handle_relay H C parsed)"
  unfolding handle_relay_def
  by (auto intro!: sessions.keeps_bind sessions.keeps_lift_res relay_intros)

lemma relay_grows_signal [relay_intros]: "keeps (relay_grows C) (handle_signal_message H C raw)"
  unfolding handle_signal_message_def dispatch_signal_def Let_def
  by (auto intro!: sessions.keeps_bind sessions.keeps_lift_res sessions.keeps_ret relay_intros
      split: option.split)

lemma relay_grows_ws [relay_intros]: "keeps (relay_grows C) (handle_ws H C msg)"
  by (cases "(H, C, msg)" rule: handle_ws.cases)
     (auto intro!: sessions.keeps_map sessions.keeps_ret relay_intros split: option.split)

lemma relay_grows_loop [relay_intros]: "keeps (relay_grows C) (signal_loop H C reads)"
  by (induction H C reads rule: signal_loop.induct)
     (auto intro!: sessions.keeps_bind sessions.keeps_ret relay_intros)

lemma relay_grows_join [relay_intros]: "keeps (relay_grows C) (join_signal_room H C)"
  unfolding join_signal_room_def Let_def
  by (auto intro!: sessions.keeps_bind sessions.keeps_lift_res sessions.keeps_fail relay_intros)

lemma relay_grows_round: "relay_grows C r (p2p_round H C show_error r)"
proof -
  obtain v r' where j: "join_signal_room H C r = (v, r')" by (cases "join_signal_room H C r")
  have "relay_grows C r r'" using relay_grows_join j by (rule keepsD)
  moreover have "relay_grows C r' (snd (relay_say H (r_manager r') s r'))" for s
    using relay_grows_say [of C H "r_manager r'" s] by (simp add: keeps_def)
  ultimately show ?thesis
    using j sessions.rel_trans by (cases v) (auto simp: p2p_round_def)
qed

lemma relay_grows_rounds: "relay_grows C r (p2p_rounds n H C show_error r)"
  by (induction n arbitrary: r)
     (auto intro: sessions.rel_refl sessions.rel_trans [OF relay_grows_round])

lemma relay_growsD:
  assumes "relay_grows C r r'"
  shows "pm_sessions (r_manager r) peer = Some s \<Longrightarrow>
      \<exists>s'. pm_sessions (r_manager r') peer = Some s' \<and> session_grows s s'"
    and "pm_public (r_manager r') = pm_public (r_manager r)"
  using assms by (simp_all add: relay_grows_def manager_grows_def)

section \<open>Replays\<close>

lemma opened_once:
  assumes "open_payload H C m from' data = Inr (s', buffer)"
    and "pm_sessions m2 from' = Some t" and "session_grows s' t"
    and "pm_public m2 = pm_public m"
  shows "open_payload H C m2 from' data = Inl Invalid_Encrypted_Payload"
proof -
  from assms(1) obtain encrypted nonce ct s where p: "payload_value H data = Inr encrypted"
      "payload_parts C encrypted = Inr (nonce, ct)"
      "rc_open C (ses_key s) nonce (make_relay_ad from' (rc_hex_encode C (pm_public m))) ct = Some buffer"
      "8 \<le> length buffer"
    and a: "accept_seqno (buffer_seqno buffer) s = Some s'"
    by (rule open_payload_InrD)
  have k: "ses_key t = ses_key s" and l: "ses_rx s' \<le> ses_rx t"
    using assms(3) accept_seqno_fields [OF a] by (simp_all add: session_grows_def)
  have "accept_seqno (buffer_seqno buffer) t = None"
    using a l by (rule seqno_guard.accepted_once)
  with p k assms(2,4) show ?thesis by (simp add: open_payload_def)
qed

text \<open>
  C3. A relayed payload is accepted at most once: after \<open>decrypt_relay_data\<close> has returned the request
  in a payload, the same payload is rejected for good, whatever else the signalling server delivers
  on this connection and on any number of later ones, new handshakes of the same peer included.
\<close>

theorem relay_payload_accepted_once:
  assumes "decrypt_relay_data H C from' data r = (Inr text, r1)"
    and "r2 = p2p_rounds n H C show_error (snd (signal_loop H C reads r1))"
  shows "decrypt_relay_data H C from' data r2 = (Inl Invalid_Encrypted_Payload, r2)"
proof -
  from assms(1) obtain s' buffer where o: "open_payload H C (r_manager r) from' data = Inr (s', buffer)"
    and r1: "r_manager r1 = (r_manager r)\<lparr>pm_sessions := (pm_sessions (r_manager r))(from' \<mapsto> s')\<rparr>"
    by (cases "open_payload H C (r_manager r) from' data")
       (auto simp: decrypt_relay_data_def get_manager_def put_session_apply act_bind_def)
  have "relay_grows C r1 (snd (signal_loop H C reads r1))"
    using relay_grows_loop [of C H reads] by (simp add: keeps_def)
  then have g: "relay_grows C r1 r2"
    unfolding assms(2) by (rule sessions.rel_trans) (rule relay_grows_rounds)
  have "pm_sessions (r_manager r1) from' = Some s'" "pm_public (r_manager r1) = pm_public (r_manager r)"
    using r1 by simp_all
  with relay_growsD [OF g] obtain t where "pm_sessions (r_manager r2) from' = Some t"
    "session_grows s' t" "pm_public (r_manager r2) = pm_public (r_manager r)" by metis
  with o have "open_payload H C (r_manager r2) from' data = Inl Invalid_Encrypted_Payload"
    by (rule opened_once)
  then show ?thesis by (simp add: decrypt_relay_data_def get_manager_bind fail_def)
qed

theorem relay_payload_accepted_once_witness:
  "\<exists>r1. decrypt_relay_data demo_host demo_crates (own_id demo_crates (demo_relay ''a''))
       (sealed_json demo_crates (replicate 24 CHR ''n'') (be_bytes 8 1 @ ''hi''))
       (demo_linked ''b'' ''a'') = (Inr ''hi'', r1) \<and>
     (let r2 = p2p_rounds 3 demo_host demo_crates (\<lambda>e. [])
        (snd (signal_loop demo_host demo_crates [Inr (Ws_Text ''x'')] r1)) in
      decrypt_relay_data demo_host demo_crates (own_id demo_crates (demo_relay ''a''))
       (sealed_json demo_crates (replicate 24 CHR ''n'') (be_bytes 8 1 @ ''hi'')) r2 =
      (Inl Invalid_Encrypted_Payload, r2))"
proof -
  have "sessions_of (demo_relay ''b'') peer = None" for peer
    by (simp add: demo_relay_def sessions_of_def)
  from establish_fresh [OF this demo_linked [where peer = "''a''"]] obtain k where
    s: "sessions_of (demo_linked ''b'' ''a'') (own_id demo_crates (demo_relay ''a'')) = Some (fresh_session k)"
    by fastforce
  have sealed: "rc_open demo_crates (ses_key (fresh_session k)) (replicate 24 CHR ''n'')
      (make_relay_ad (own_id demo_crates (demo_relay ''a'')) (own_id demo_crates (demo_linked ''b'' ''a'')))
      (be_bytes 8 1 @ ''hi'') = Some (be_bytes 8 (unat (1 :: 64 word)) @ ''hi'')"
    by (simp add: demo_crates_def)
  have "utf8_valid ''hi''" by (intro utf8_valid_ascii) (simp add: byte_val_def)
  from decrypt_sealed [OF demo_crates_laws(1) _ s sealed this, where H = demo_host]
  obtain r1 where
    d: "decrypt_relay_data demo_host demo_crates (own_id demo_crates (demo_relay ''a''))
       (sealed_json demo_crates (replicate 24 CHR ''n'') (be_bytes 8 1 @ ''hi''))
       (demo_linked ''b'' ''a'') = (Inr ''hi'', r1)"
    by (auto simp: fresh_session_def)
  then show ?thesis unfolding Let_def using relay_payload_accepted_once [OF d refl] by blast
qed

section \<open>Keys in the table\<close>

text \<open>
  C20. The session table of the thread: after any number of rounds every session belongs to a
  well-formed identity, and its key is the one negotiated with that identity; no message can plant
  or replace a session key.
\<close>

theorem sessions_hold_negotiated_keys:
  assumes "start_p2p n H C show_error verbose table url chamber w = (Inr r, w')"
    and "pm_sessions (r_manager r) peer = Some s"
  shows "\<exists>pk. parse_identity C peer = Inr pk \<and>
    session_key C (pm_public (r_manager r)) (pm_secret (r_manager r)) pk = Inr (ses_key s)"
proof -
  obtain m w1 where m: "p2p_manager_new H C verbose table url chamber w = (Inr m :: 'a + p2p_manager, w1)"
    and r: "r = p2p_rounds n H C show_error
      \<lparr>r_manager = m, r_sent = [], r_sends = 0, r_connections = 0, r_world = w1\<rparr>"
    using assms(1) by (auto simp: start_p2p_def act_bind_eq_Inr)
  have e: "pm_sessions m = Map.empty"
    using m by (auto simp: p2p_manager_new_def act_bind_eq_Inr)
  have g: "manager_grows C m (r_manager r)"
    using relay_grows_rounds [of C "\<lparr>r_manager = m, r_sent = [], r_sends = 0, r_connections = 0,
      r_world = w1\<rparr>" n H show_error] r by (simp add: relay_grows_def)
  with assms(2) e have "negotiated_key C m peer = Inr (ses_key s)"
    unfolding manager_grows_def by fastforce
  moreover have "negotiated_key C (r_manager r) peer = negotiated_key C m peer"
    using g by (intro negotiated_key_cong) (simp_all add: manager_grows_def)
  ultimately show ?thesis by (auto simp: negotiated_key_def res_bind_eq_Inr)
qed

text \<open>A server that answers every connection with one handshake.\<close>

definition answer_host :: host where
  "answer_host = demo_host\<lparr>h_json_parse := \<lambda>s.
     Inr (jobj [(''type'', Str ''answer''), (''from'', Str (hex_bytes (pad32 ''peer'')))])\<rparr>"

definition answer_crates :: relay_crates where
  "answer_crates = demo_crates\<lparr>rc_connect := \<lambda>n url key. Inr [Inr (Ws_Text ''answer'')]\<rparr>"

lemma answer_crates_fields:
  "rc_client_request answer_crates u = Inr ()" "rc_header_value answer_crates k"
  "rc_connect answer_crates n u k = Inr [Inr (Ws_Text ''answer'')]"
  "rc_send_fault answer_crates n = None"
  by (simp_all add: answer_crates_def demo_crates_def)

lemma answer_negotiated: "\<exists>k. negotiated_key answer_crates m (hex_bytes (pad32 ''peer'')) = Inr k"
proof -
  have "rc_hex_decode answer_crates (hex_bytes (pad32 ''peer'')) = Some (pad32 ''peer'')"
    by (simp add: answer_crates_def demo_crates_def unhex_hex_bytes)
  then show ?thesis
    by (simp add: negotiated_key_def parse_identity_def length_pad32 session_key_def
        answer_crates_def demo_crates_def)
qed

lemma answer_url: "signal_websocket_url answer_crates ''h'' ''r'' = Inr ''wss://h/signal/r''"
  by (simp add: signal_websocket_url_def signal_base_def starts_with_def split_once_str_def
      find_bytes_Cons ws_scheme_def trim_end_matches_def answer_crates_def demo_crates_def)

lemma answer_message:
  assumes "pm_verbose (r_manager r) = False" and "pm_sessions (r_manager r) = Map.empty"
  shows "\<exists>s r'. handle_signal_message answer_host answer_crates raw r = (Inr (), r') \<and>
    pm_sessions (r_manager r') (hex_bytes (pad32 ''peer'')) = Some s"
proof -
  obtain k where "negotiated_key answer_crates (r_manager r) (hex_bytes (pad32 ''peer'')) = Inr k"
    using answer_negotiated by blast
  with assms have "establish_session answer_crates (hex_bytes (pad32 ''peer'')) r =
      put_session (hex_bytes (pad32 ''peer'')) (fresh_session k) r"
    by (simp add: establish_session_def get_manager_bind)
  moreover have "relay_say answer_host (r_manager r) x r = (Inr (), r)" for x
    using assms by (simp add: relay_say_def on_world_def say_def ret_def)
  ultimately show ?thesis
    by (simp add: handle_signal_message_def dispatch_signal_def get_manager_bind act_bind_Inr answer_host_def
        put_session_apply)
qed

lemma answer_loop:
  assumes "pm_verbose (r_manager r) = False" and "pm_sessions (r_manager r) = Map.empty"
  shows "\<exists>s r'. signal_loop answer_host answer_crates [Inr (Ws_Text raw)] r = (Inr (), r') \<and>
    pm_sessions (r_manager r') (hex_bytes (pad32 ''peer'')) = Some s"
  using answer_message [OF assms, of raw] by (auto simp: act_map_def act_bind_def ret_def)

theorem sessions_hold_negotiated_keys_witness:
  "\<exists>r w' s pk. start_p2p 1 answer_host answer_crates (\<lambda>e. []) False (table_new Full) ''h'' ''r''
       demo_world = (Inr r :: unit + relay, w') \<and>
     pm_sessions (r_manager r) (hex_bytes (pad32 ''peer'')) = Some s \<and>
     parse_identity answer_crates (hex_bytes (pad32 ''peer'')) = Inr pk \<and>
     session_key answer_crates (pm_public (r_manager r)) (pm_secret (r_manager r)) pk = Inr (ses_key s)"
proof -
  let ?st = "start_p2p 1 answer_host answer_crates (\<lambda>e. []) False (table_new Full) ''h'' ''r''
       demo_world :: (unit + relay) \<times> world"
  have "\<exists>r w' s. ?st = (Inr r, w') \<and> pm_sessions (r_manager r) (hex_bytes (pad32 ''peer'')) = Some s"
  proof -
    obtain m w1 where m: "p2p_manager_new answer_host answer_crates False (table_new Full) ''h'' ''r''
        demo_world = (Inr m :: unit + p2p_manager, w1)"
      and f: "pm_verbose m = False" "pm_sessions m = Map.empty" "pm_signal_url m = ''h''" "pm_room m = ''r''"
      by (simp add: p2p_manager_new_def act_bind_def fill_bytes_def ret_def)
    let ?r = "\<lparr>r_manager = m, r_sent = [], r_sends = 0, r_connections = 0, r_world = w1\<rparr>"
    have c: "relay_say answer_host m x r = (Inr (), r)" for x r
      using f by (simp add: relay_say_def on_world_def say_def ret_def)
    have "\<exists>r3. r_manager r3 = m \<and> join_signal_room answer_host answer_crates ?r =
        signal_loop answer_host answer_crates [Inr (Ws_Text ''answer'')] r3"
      using f(3,4)
      by (simp add: join_signal_room_def get_manager_bind answer_url c act_bind_Inr on_world_fill
          ws_connect_def ws_send_json_def ws_send_def answer_crates_fields del: signal_loop.simps)
        (rule exI, rule conjI [rotated], rule refl, simp)
    then obtain s r4 where "join_signal_room answer_host answer_crates ?r = (Inr (), r4)"
      "pm_sessions (r_manager r4) (hex_bytes (pad32 ''peer'')) = Some s"
      using answer_loop f(1,2) by metis
    then show ?thesis using m by (simp add: start_p2p_def act_bind_def p2p_round_def)
  qed
  then show ?thesis using sessions_hold_negotiated_keys by metis
qed

section \<open>Only an authentic payload reaches a tool\<close>

text \<open>What a step does to the host when no request is dispatched: at most log lines.\<close>

definition relay_logs :: "relay \<Rightarrow> relay \<Rightarrow> bool" where
  "relay_logs r r' \<longleftrightarrow> only_logs (r_world r) (r_world r')"

interpretation relay_quiet: effect_relation relay_logs
  by unfold_locales (auto simp: relay_logs_def intro: logs.rel_refl logs.rel_trans)

named_theorems quiet_intros "relay actions that only log"

lemma relay_logs_same: "r_world r' = r_world r \<Longrightarrow> relay_logs r r'"
  by (simp add: relay_logs_def logs.rel_refl)

lemma relay_logs_get [quiet_intros]: "keeps relay_logs get_manager"
  by (rule keepsI) (simp add: get_manager_def relay_logs_same)

lemma relay_logs_put [quiet_intros]: "keeps relay_logs (put_session peer s)"
  by (rule keepsI) (simp add: put_session_def relay_logs_same)

lemma relay_logs_send [quiet_intros]: "keeps relay_logs (ws_send C msg)"
  by (rule keepsI) (simp add: ws_send_def relay_logs_same split: option.split)

lemma relay_logs_send_json [quiet_intros]: "keeps relay_logs (ws_send_json H C v)"
  unfolding ws_send_json_def by (rule relay_logs_send)

lemma relay_logs_say [quiet_intros]: "keeps relay_logs (relay_say H m s)"
proof
  fix r :: relay
  have "only_logs (r_world r) (snd ((say H (pm_verbose m) s :: (world, transport_error, unit) act) (r_world r)))"
    by (rule only_logs_say [unfolded keeps_def, rule_format])
  then show "relay_logs r (snd (relay_say H m s r))"
    by (simp add: relay_say_def on_world_def relay_logs_def case_prod_beta)
qed

lemma relay_logs_offer [quiet_intros]: "keeps relay_logs (send_offer H C peer)"
  unfolding send_offer_def by (intro relay_quiet.keeps_bind quiet_intros)

lemma relay_logs_answer [quiet_intros]: "keeps relay_logs (send_answer H C peer)"
  unfolding send_answer_def by (intro relay_quiet.keeps_bind quiet_intros)

lemma relay_logs_offers [quiet_intros]: "keeps relay_logs (send_offers H C vs)"
  by (induction vs) (auto intro!: relay_quiet.keeps_control quiet_intros split: option.split)

lemma relay_logs_establish [quiet_intros]: "keeps relay_logs (establish_session C peer)"
  unfolding establish_session_def
  by (auto intro!: relay_quiet.keeps_bind relay_quiet.keeps_lift_res relay_quiet.keeps_ret
      quiet_intros split: option.split)

lemma keeps_at_bind:
  assumes "relay_logs r (snd (m r))" and "\<And>x t. m r = (Inr x, t) \<Longrightarrow> relay_logs t (snd (f x t))"
  shows "relay_logs r (snd (act_bind m f r))"
proof -
  obtain v t where m: "m r = (v, t)" by (cases "m r")
  show ?thesis
  proof (cases v)
    case (Inl e)
    with m assms(1) show ?thesis by (simp add: act_bind_Inl)
  next
    case (Inr x)
    from m Inr assms(2) have "relay_logs t (snd (f x t))" by simp
    with m Inr assms(1) show ?thesis by (auto simp: act_bind_Inr intro: relay_quiet.rel_trans)
  qed
qed

lemma relay_say_manager: "relay_say H m s r = (v, r') \<Longrightarrow> r_manager r' = r_manager r"
  by (auto simp: relay_say_def on_world_def split: prod.splits)

lemma handle_relay_quiet:
  assumes "\<And>from' data s' buffer body msg. relay_fields parsed = Inr (from', data) \<Longrightarrow>
      open_payload H C (r_manager r) from' data = Inr (s', buffer) \<Longrightarrow>
      from_utf8 (drop 8 buffer) = Some body \<Longrightarrow> h_json_parse H body \<noteq> Inr msg"
  shows "relay_logs r (snd (handle_relay H C parsed r))"
proof (cases "relay_fields parsed")
  case (Inl e)
  then show ?thesis by (simp add: handle_relay_def fail_def relay_quiet.rel_refl)
next
  case (Inr fd)
  obtain from' data where fd: "fd = (from', data)" by (cases fd)
  have rq: "relay_logs t (snd (relay_request H C from' body t))"
    if "h_json_parse H body = Inl e" for body e t
    using that by (simp add: relay_request_def fail_def relay_quiet.rel_refl)
  have dec: "relay_logs t (snd (act_bind (decrypt_relay_data H C from' data) (relay_request H C from') t))"
    if t: "r_manager t = r_manager r" for t
  proof (rule keeps_at_bind)
    show "relay_logs t (snd (decrypt_relay_data H C from' data t))"
      unfolding decrypt_relay_data_def
      using relay_quiet.keeps_bind [OF relay_logs_get] 
      by (auto simp: act_bind_def get_manager_def lift_res_def put_session_def relay_logs_same split: sum.split prod.split)
  next
    fix body u
    assume "decrypt_relay_data H C from' data t = (Inr body, u)"
    then obtain s' buffer where "open_payload H C (r_manager r) from' data = Inr (s', buffer)"
      "from_utf8 (drop 8 buffer) = Some body"
      using t by (auto simp: decrypt_relay_data_def act_bind_eq_Inr lift_res_def ok_or_eq_Inr)
    with assms Inr fd have "h_json_parse H body \<noteq> Inr msg" for msg by blast
    then show "relay_logs u (snd (relay_request H C from' body u))"
      using rq by (cases "h_json_parse H body") auto
  qed
  have say: "relay_logs r (snd (relay_say H (r_manager r) x r))" for x
    using relay_logs_say by (simp only: keeps_def)
  show ?thesis
  proof (cases "ensure_relay_sender (r_manager r) from'")
    case (Inl e)
    with Inr fd show ?thesis
      by (simp add: handle_relay_def get_manager_bind fail_def relay_quiet.rel_refl)
  next
    case (Inr u)
    with \<open>relay_fields parsed = Inr fd\<close> fd show ?thesis
      by (simp add: handle_relay_def get_manager_bind)
         (auto intro!: keeps_at_bind dec say relay_say_manager)
  qed
qed

text \<open>
  C2. Only authentic requests act: a signalling message changes the host beyond log lines only when
  it is a relay from a peer with a session, its payload opens under that session's key and for this
  direction with a sequence number above all received before, and what it holds is JSON text.
  Everything else the signalling server sends (joins, offers, answers, forged or replayed relays)
  runs no tool and changes no file.
\<close>

theorem relay_dispatch_requires_authentic_payload:
  assumes "handle_signal_message H C raw r = (v, r')"
    and "\<not> only_logs (r_world r) (r_world r')"
  shows "\<exists>parsed from' data s s' buffer body msg.
    h_json_parse H raw = Inr parsed \<and> relay_fields parsed = Inr (from', data) \<and>
    pm_sessions (r_manager r) from' = Some s \<and>
    open_payload H C (r_manager r) from' data = Inr (s', buffer) \<and>
    ses_rx s < buffer_seqno buffer \<and>
    from_utf8 (drop 8 buffer) = Some body \<and> h_json_parse H body = Inr msg"
proof (rule ccontr)
  assume no: "\<not> ?thesis"
  have quiet: "relay_logs t (snd (handle_relay H C parsed t))"
    if p: "h_json_parse H raw = Inr parsed" and t: "r_manager t = r_manager r" for parsed t
  proof (rule handle_relay_quiet)
    fix from' data s' buffer body msg
    assume f: "relay_fields parsed = Inr (from', data)"
      and o: "open_payload H C (r_manager t) from' data = Inr (s', buffer)"
      and u: "from_utf8 (drop 8 buffer) = Some body"
    from o t obtain s where "pm_sessions (r_manager r) from' = Some s"
      "accept_seqno (buffer_seqno buffer) s = Some s'" by (auto elim: open_payload_InrD)
    moreover from this have "ses_rx s < buffer_seqno buffer"
      using seqno_guard.accept_above [of "buffer_seqno buffer" s] by simp
    ultimately show "h_json_parse H body \<noteq> Inr msg" using no p f o t u by metis
  qed
  have "relay_logs r (snd (handle_signal_message H C raw r))"
    unfolding handle_signal_message_def get_manager_bind
  proof (intro keeps_at_bind)
    show "relay_logs r (snd (relay_say H (r_manager r) (''signaling recv: '' @ raw) r))"
      using relay_logs_say by (simp only: keeps_def)
  next
    fix u t
    assume "relay_say H (r_manager r) (''signaling recv: '' @ raw) r = (Inr u, t)"
    then have t: "r_manager t = r_manager r" by (rule relay_say_manager)
    show "relay_logs t (snd (lift_res (map_err Transport_Json (h_json_parse H raw)) t))"
      by (simp add: lift_res_def relay_quiet.rel_refl)
    fix parsed t'
    assume "lift_res (map_err Transport_Json (h_json_parse H raw)) t = (Inr parsed, t')"
    with t have p: "h_json_parse H raw = Inr parsed" and t': "r_manager t' = r_manager r"
      by (auto simp: map_err_eq_Inr)
    have quiets: "relay_logs t' (snd (m t'))" if "keeps relay_logs m" for m :: "unit relay_act"
      using that by (simp add: keeps_def)
    show "relay_logs t' (snd (dispatch_signal H C parsed t'))"
      unfolding dispatch_signal_def Let_def using quiet [OF p t']
      by (auto intro!: quiets relay_quiet.keeps_bind relay_quiet.keeps_ret quiet_intros split: option.split)
  qed
  with assms show False by (simp add: relay_logs_def)
qed

section \<open>Authentic requests are answered\<close>

lemma relay_say_silent: "\<not> pm_verbose m \<Longrightarrow> relay_say H m x r = (Inr (), r)"
  by (simp add: relay_say_def on_world_def say_def ret_def)

lemma decrypt_open:
  assumes "open_payload H C (r_manager r) from' data = Inr (s', buffer)"
    and "from_utf8 (drop 8 buffer) = Some body"
  shows "decrypt_relay_data H C from' data r =
    (Inr body, r\<lparr>r_manager := (r_manager r)\<lparr>pm_sessions := (pm_sessions (r_manager r))(from' \<mapsto> s')\<rparr>\<rparr>)"
  using assms by (simp add: decrypt_relay_data_def get_manager_bind put_session_apply act_bind_Inr lift_res_def)

text \<open>
  The relay after an authentic payload was accepted: the sender's session \<open>s\<close> has moved on, the host is \<open>w\<close>; and
  what becomes of the answer of \<open>handle_message\<close>.
\<close>

definition relay_accepted :: "relay \<Rightarrow> string \<Rightarrow> session \<Rightarrow> world \<Rightarrow> relay" where
  "relay_accepted r from' s w =
     r\<lparr>r_manager := (r_manager r)\<lparr>pm_sessions := (sessions_of r)(from' \<mapsto> s)\<rparr>, r_world := w\<rparr>"

fun relay_outcome ::
  "host \<Rightarrow> relay_crates \<Rightarrow> relay \<Rightarrow> string \<Rightarrow> session \<Rightarrow> (string + string option) \<times> world \<Rightarrow>
   (transport_error + unit) \<times> relay" where
  "relay_outcome H C r from' s (Inl e, w) = (Inl (Transport_Json e), relay_accepted r from' s w)"
| "relay_outcome H C r from' s (Inr None, w) = (Inr (), relay_accepted r from' s w)"
| "relay_outcome H C r from' s (Inr (Some resp), w) =
     (let nonce = map (h_random H) [rng_pos w ..< rng_pos w + 24];
          r' = relay_accepted r from' (s\<lparr>ses_tx := ses_tx s + 1\<rparr>) (w\<lparr>rng_pos := rng_pos w + 24\<rparr>)
      in (case rc_seal C (ses_key s) nonce (make_relay_ad (own_id C r) from') (be_bytes 8 (unat (ses_tx s)) @ resp) of
            None \<Rightarrow> (Inl Crypto_Error, r')
          | Some ct \<Rightarrow>
              (case rc_send_fault C (r_sends r) of
                 Some e \<Rightarrow> (Inl (Web_Socket e), r'\<lparr>r_sends := Suc (r_sends r)\<rparr>)
               | None \<Rightarrow>
                   (Inr (), r'\<lparr>r_sends := Suc (r_sends r),
                      r_sent := r_sent r @ [Ws_Text (h_json_display H (jobj [(''type'', Str ''relay''),
                        (''from'', Str (own_id C r)), (''to'', Str from'), (''data'', sealed_json C nonce ct)]))]\<rparr>))))"

lemma relay_answered:
  assumes f: "relay_fields parsed = Inr (from', data)"
    and o: "open_payload H C (r_manager r) from' data = Inr (s', buffer)"
    and b: "from_utf8 (drop 8 buffer) = Some body" "h_json_parse H body = Inr msg"
    and w0: "say H (pm_verbose (r_manager r)) (''relay from '' @ from') (r_world r) = (Inr () :: transport_error + unit, w0)"
  shows "handle_relay H C parsed r =
    relay_outcome H C r from' s' (handle_message H (pm_verbose (r_manager r)) (pm_table (r_manager r)) msg w0)"
proof -
  from o have "pm_sessions (r_manager r) from' \<noteq> None"
    by (auto elim: open_payload_InrD)
  then have e: "ensure_relay_sender (r_manager r) from' = Inr ()"
    by (simp add: ensure_relay_sender_def)
  let ?r0 = "r\<lparr>r_world := w0\<rparr>"
  have say: "relay_say H (r_manager r) (''relay from '' @ from') r = (Inr (), ?r0)"
    using w0 by (simp add: relay_say_def on_world_def)
  let ?r1 = "relay_accepted r from' s' w0"
  have "decrypt_relay_data H C from' data ?r0 = (Inr body, ?r1)"
    using decrypt_open [of H C ?r0] o b(1) by (simp add: relay_accepted_def sessions_of_def)
  then have h: "handle_relay H C parsed r = relay_request H C from' body ?r1"
    using f e say by (simp add: handle_relay_def get_manager_bind act_bind_Inr)
  let ?x = "handle_message H (pm_verbose (r_manager r)) (pm_table (r_manager r)) msg w0"
  show ?thesis
  proof (cases "(H, C, r, from', s', ?x)" rule: relay_outcome.cases)
    case (1 H' C' r' from'' s e w)
    then show ?thesis
      using h b(2) by (auto simp: relay_request_def relay_accepted_def get_manager_def act_map_err_def on_world_def
          act_bind_def lift_res_def)
  next
    case (2 H' C' r' from'' s w)
    then show ?thesis
      using h b(2) by (auto simp: relay_request_def relay_accepted_def get_manager_def act_map_err_def on_world_def
          act_bind_def lift_res_def ret_def)
  next
    case (3 H' C' r' from'' s resp w)
    then have x: "?x = (Inr (Some resp), w)" by blast
    have "handle_relay H C parsed r = act_bind (encrypt_relay_payload H C from' resp) (\<lambda>encrypted.
        ws_send_json H C (jobj [(''type'', Str ''relay''), (''from'', Str (own_id C r)),
          (''to'', Str from'), (''data'', encrypted)])) (relay_accepted r from' s' w)"
      using h b(2) x
      by (simp add: relay_request_def relay_accepted_def get_manager_def act_map_err_def on_world_def act_bind_def own_id_def
          lift_res_def)
    then show ?thesis
      unfolding x
      by (simp add: encrypt_relay_payload_def act_bind_def on_world_fill put_session_apply relay_accepted_def
          lift_res_def ret_def ws_send_json_def ws_send_def sealed_json_def own_id_def sessions_of_def
          get_manager_def Let_def split: option.split)
  qed
qed

text \<open>
  C10. An authentic relayed request that parses is served, with or without \<open>--verbose\<close> and whatever comes of it:
  it is dispatched once on the manager's tool table, after at most a log line; its sequence number is
  consumed even if handling it fails; a notification is not answered; and a response is sealed for
  its sender under the session key with the next sequence number and sent as exactly one relay message, unless
  sealing or the web socket fails, which is the error.
\<close>

theorem authentic_relay_is_answered:
  assumes "relay_fields parsed = Inr (from', data)"
    and "open_payload H C (r_manager r) from' data = Inr (s', buffer)"
    and "from_utf8 (drop 8 buffer) = Some body" and "h_json_parse H body = Inr msg"
  shows "\<exists>w0. only_logs (r_world r) w0 \<and> (pm_verbose (r_manager r) \<or> w0 = r_world r) \<and>
    handle_relay H C parsed r =
      relay_outcome H C r from' s' (handle_message H (pm_verbose (r_manager r)) (pm_table (r_manager r)) msg w0)"
proof -
  obtain w0 where w0: "say H (pm_verbose (r_manager r)) (''relay from '' @ from') (r_world r) =
      (Inr () :: transport_error + unit, w0)" "only_logs (r_world r) w0"
    using say_ok by blast
  moreover have "pm_verbose (r_manager r) \<or> w0 = r_world r"
    using w0(1) by (cases "pm_verbose (r_manager r)") (simp_all add: say_def ret_def)
  ultimately show ?thesis using relay_answered [OF assms w0(1)] by blast
qed

text \<open>A relayed \<open>ping\<close> from the peer of \<open>demo_linked\<close>.\<close>

definition relayed_ping :: json where
  "relayed_ping =
     jobj [(''type'', Str ''relay''), (''from'', Str (own_id demo_crates (demo_relay ''a''))),
       (''data'', sealed_json demo_crates (replicate 24 CHR ''n'') (be_bytes 8 1 @ ''hi''))]"

definition relay_host :: host where
  "relay_host = ping_host\<lparr>h_json_parse := \<lambda>s.
     if s = ''hi'' then Inr (Object [(''id'', jnat 1), (''method'', Str ''ping'')]) else Inr relayed_ping\<rparr>"

lemma relay_host_handles:
  "handle_message relay_host False (table_new Full) (Object [(''id'', jnat 1), (''method'', Str ''ping'')])
     demo_world = (Inr (Some []), demo_world)"
  by (simp add: handle_message_def obj_get_def say_def dispatch_method_def some_response_def
      json_response_def act_map_def relay_host_def ping_host_def demo_host_def)

lemma establish_world:
  "establish_session C peer r = (v, r') \<Longrightarrow>
     r_world r' = r_world r \<and> r_sent r' = r_sent r \<and> r_sends r' = r_sends r"
  by (auto simp: establish_session_def act_bind_def get_manager_def lift_res_def put_session_def
      ret_def split: sum.splits option.splits)

lemma demo_linked_manager:
  "pm_verbose (r_manager (demo_linked own peer)) = False"
  "pm_table (r_manager (demo_linked own peer)) = table_new Full"
  "r_world (demo_linked own peer) = demo_world" "r_sent (demo_linked own peer) = []"
  "r_sends (demo_linked own peer) = 0"
  "pm_public (r_manager (demo_linked own peer)) = pad32 own"
proof -
  have "relay_grows demo_crates (demo_relay own) (demo_linked own peer)"
    using keepsD [OF relay_grows_establish demo_linked] .
  then show "pm_verbose (r_manager (demo_linked own peer)) = False"
    "pm_table (r_manager (demo_linked own peer)) = table_new Full"
    "pm_public (r_manager (demo_linked own peer)) = pad32 own"
    by (simp_all add: relay_grows_def manager_grows_def demo_relay_def)
  show "r_world (demo_linked own peer) = demo_world" "r_sent (demo_linked own peer) = []"
    "r_sends (demo_linked own peer) = 0"
    using establish_world [OF demo_linked] by (simp_all add: demo_relay_def)
qed

lemma relayed_ping_opens:
  "\<exists>k. open_payload H demo_crates (r_manager (demo_linked ''b'' ''a''))
     (own_id demo_crates (demo_relay ''a''))
     (sealed_json demo_crates (replicate 24 CHR ''n'') (be_bytes 8 1 @ ''hi'')) =
   Inr (\<lparr>ses_key = k, ses_rx = 1, ses_tx = 0\<rparr>, be_bytes 8 1 @ ''hi'')"
proof -
  have "sessions_of (demo_relay ''b'') peer = None" for peer
    by (simp add: demo_relay_def sessions_of_def)
  from establish_fresh [OF this demo_linked [where peer = "''a''"]] obtain k where
    "pm_sessions (r_manager (demo_linked ''b'' ''a'')) (own_id demo_crates (demo_relay ''a'')) =
       Some (fresh_session k)"
    by (fastforce simp: sessions_of_def)
  moreover have "buffer_seqno (be_bytes 8 1 @ ''hi'') = 1"
    using buffer_seqno_be [of 1 "''hi''"] by simp
  moreover have "rc_open demo_crates k n ad c = Some c" for k n ad c by (simp add: demo_crates_def)
  ultimately show ?thesis
    by (simp add: open_payload_def payload_parts_sealed [OF demo_crates_laws(1)] accept_seqno_def
        fresh_session_def)
qed

lemma relayed_ping_fields:
  "relay_fields relayed_ping = Inr (own_id demo_crates (demo_relay ''a''),
     sealed_json demo_crates (replicate 24 CHR ''n'') (be_bytes 8 1 @ ''hi''))"
  "Option.bind (jget relayed_ping ''type'') as_str = Some ''relay''"
  by (simp_all add: relay_fields_def relayed_ping_def)

lemma relayed_ping_text: "from_utf8 (drop 8 (be_bytes 8 1 @ ''hi'')) = Some ''hi''"
proof -
  have "utf8_valid ''hi''" by (intro utf8_valid_ascii) (simp add: byte_val_def)
  then show ?thesis by (simp add: from_utf8_def)
qed

lemma relay_host_facts:
  "h_json_parse relay_host ''hi'' = Inr (Object [(''id'', jnat 1), (''method'', Str ''ping'')])"
  "h_json_parse relay_host ''m'' = Inr relayed_ping"
  "rc_seal demo_crates k n ad m = Some m" "rc_send_fault demo_crates i = None"
  by (simp_all add: relay_host_def demo_crates_def)

lemma demo_linked_handles:
  "handle_message relay_host False (pm_table (r_manager (demo_linked ''b'' ''a'')))
     (Object [(''id'', jnat 1), (''method'', Str ''ping'')]) (r_world (demo_linked ''b'' ''a'')) =
   (Inr (Some []), demo_world)"
  using relay_host_handles by (simp only: demo_linked_manager)

lemma demo_linked_silent: "\<not> pm_verbose (r_manager (demo_linked own peer))"
  by (simp add: demo_linked_manager)

lemma demo_linked_say:
  "say relay_host (pm_verbose (r_manager (demo_linked own peer))) m (r_world (demo_linked own peer)) =
     (Inr () :: transport_error + unit, r_world (demo_linked own peer))"
  by (simp add: demo_linked_manager say_def ret_def)

theorem authentic_relay_is_answered_witness:
  "\<exists>r'. handle_relay relay_host demo_crates relayed_ping (demo_linked ''b'' ''a'') = (Inr (), r') \<and>
     r_world r' \<noteq> demo_world \<and> length (r_sent r') = 1"
proof -
  let ?r = "demo_linked ''b'' ''a''"
  obtain k where o: "open_payload relay_host demo_crates (r_manager ?r)
      (own_id demo_crates (demo_relay ''a''))
      (sealed_json demo_crates (replicate 24 CHR ''n'') (be_bytes 8 1 @ ''hi'')) =
    Inr (\<lparr>ses_key = k, ses_rx = 1, ses_tx = 0\<rparr>, be_bytes 8 1 @ ''hi'')"
    using relayed_ping_opens by blast
  from authentic_relay_is_answered [OF relayed_ping_fields(1) o relayed_ping_text relay_host_facts(1)]
  have "handle_relay relay_host demo_crates relayed_ping ?r =
      relay_outcome relay_host demo_crates ?r (own_id demo_crates (demo_relay ''a''))
        \<lparr>ses_key = k, ses_rx = 1, ses_tx = 0\<rparr> (Inr (Some []), demo_world)"
    using demo_linked_handles by (auto simp: demo_linked_manager)
  then show ?thesis
    by (simp add: relay_host_facts demo_linked_manager relay_accepted_def Let_def demo_world_def)
qed

theorem relay_dispatch_requires_authentic_payload_witness:
  "\<exists>s. pm_sessions (r_manager (demo_linked ''b'' ''a'')) (own_id demo_crates (demo_relay ''a'')) = Some s \<and>
     ses_rx s < 1"
proof -
  obtain k where o: "open_payload relay_host demo_crates (r_manager (demo_linked ''b'' ''a''))
      (own_id demo_crates (demo_relay ''a''))
      (sealed_json demo_crates (replicate 24 CHR ''n'') (be_bytes 8 1 @ ''hi'')) =
    Inr (\<lparr>ses_key = k, ses_rx = 1, ses_tx = 0\<rparr>, be_bytes 8 1 @ ''hi'')"
    using relayed_ping_opens by blast
  have "handle_relay relay_host demo_crates relayed_ping (demo_linked ''b'' ''a'') =
      relay_outcome relay_host demo_crates (demo_linked ''b'' ''a'') (own_id demo_crates (demo_relay ''a''))
        \<lparr>ses_key = k, ses_rx = 1, ses_tx = 0\<rparr> (Inr (Some []), demo_world)"
    using relay_answered [OF relayed_ping_fields(1) o relayed_ping_text relay_host_facts(1) demo_linked_say]
      demo_linked_handles by (simp add: demo_linked_manager)
  then obtain r' where r': "handle_relay relay_host demo_crates relayed_ping (demo_linked ''b'' ''a'') = (Inr (), r')"
    "r_world r' = demo_world\<lparr>rng_pos := rng_pos demo_world + 24\<rparr>"
    by (simp add: relay_host_facts relay_accepted_def Let_def)
  have "handle_signal_message relay_host demo_crates ''m'' (demo_linked ''b'' ''a'') = (Inr (), r')"
    using r'(1) by (simp add: handle_signal_message_def get_manager_bind act_bind_Inr relay_say_silent
        demo_linked_manager relay_host_facts dispatch_signal_def relayed_ping_fields(2))
  moreover have "\<not> only_logs (r_world (demo_linked ''b'' ''a'')) (r_world r')"
    using r'(2) by (simp add: only_logs_def demo_linked_manager)
  ultimately obtain parsed from' data s s' buffer where
    x: "h_json_parse relay_host ''m'' = Inr parsed" "relay_fields parsed = Inr (from', data)"
      "pm_sessions (r_manager (demo_linked ''b'' ''a'')) from' = Some s"
      "open_payload relay_host demo_crates (r_manager (demo_linked ''b'' ''a'')) from' data = Inr (s', buffer)"
      "ses_rx s < buffer_seqno buffer"
    using relay_dispatch_requires_authentic_payload by blast
  then have "from' = own_id demo_crates (demo_relay ''a'')"
    and d: "data = sealed_json demo_crates (replicate 24 CHR ''n'') (be_bytes 8 1 @ ''hi'')"
    using relay_host_facts(2) relayed_ping_fields(1) by auto
  with x(4) o have "buffer = be_bytes 8 1 @ ''hi''" by simp
  moreover have "buffer_seqno (be_bytes 8 1 @ ''hi'') = 1"
    using buffer_seqno_be [of 1 "''hi''"] by simp
  ultimately show ?thesis using x(3,5) \<open>from' = _\<close> by auto
qed

section \<open>The address of the signalling server\<close>

text \<open>
  The reference reading of a server address: a plain-text scheme keeps the socket plain, a secure
  scheme or none makes it secure.
\<close>

definition socket_target :: "string \<Rightarrow> string \<times> string" where
  "socket_target raw_url =
     (case strip_prefix ''ws://'' raw_url of Some rest \<Rightarrow> (''ws'', rest)
      | None \<Rightarrow> (case strip_prefix ''http://'' raw_url of Some rest \<Rightarrow> (''ws'', rest)
      | None \<Rightarrow> (case strip_prefix ''wss://'' raw_url of Some rest \<Rightarrow> (''wss'', rest)
      | None \<Rightarrow> (case strip_prefix ''https://'' raw_url of Some rest \<Rightarrow> (''wss'', rest)
      | None \<Rightarrow> (''wss'', raw_url)))))"

lemma split_scheme:
  "split_once_str ''://'' (''ws://'' @ rest) = Some (''ws'', rest)"
  "split_once_str ''://'' (''wss://'' @ rest) = Some (''wss'', rest)"
  "split_once_str ''://'' (''http://'' @ rest) = Some (''http'', rest)"
  "split_once_str ''://'' (''https://'' @ rest) = Some (''https'', rest)"
  by (simp_all add: split_once_str_def find_bytes_Cons)

lemma signal_scheme:
  "\<exists>scheme. split_once_str ''://'' (signal_base raw_url) = Some (scheme, snd (socket_target raw_url)) \<and>
     ws_scheme scheme = Inr (fst (socket_target raw_url))"
proof -
  consider rest where "raw_url = ''ws://'' @ rest" | rest where "raw_url = ''http://'' @ rest"
    | rest where "raw_url = ''wss://'' @ rest" | rest where "raw_url = ''https://'' @ rest"
    | "strip_prefix ''ws://'' raw_url = None" "strip_prefix ''http://'' raw_url = None"
      "strip_prefix ''wss://'' raw_url = None" "strip_prefix ''https://'' raw_url = None"
    unfolding strip_prefix_iff [symmetric] by (meson not_None_eq)
  then show ?thesis
  proof cases
    case 5
    then have "signal_base raw_url = ''https://'' @ raw_url"
      by (simp add: signal_base_def starts_with_def)
    with 5 show ?thesis
      using split_scheme(4) [of raw_url] by (simp add: socket_target_def ws_scheme_def)
  qed (simp_all add: signal_base_def starts_with_def split_once_str_def find_bytes_Cons
      socket_target_def ws_scheme_def)
qed

text \<open>
  The web socket address: every configured server address leads to
  \<open>ws://.../signal/room\<close> or \<open>wss://.../signal/room\<close> with its trailing slashes removed; the socket is
  plain only when the address says \<open>ws://\<close> or \<open>http://\<close>, an address without a scheme is secure, and
  the only errors are those of the URL parser.
\<close>

theorem websocket_url_reference:
  "signal_websocket_url C raw_url chamber =
     map_err Url_Error (rc_url_parse C
       (fst (socket_target raw_url) @ ''://'' @
        trim_end_matches CHR ''/'' (snd (socket_target raw_url)) @ ''/signal/'' @ chamber))"
  using signal_scheme [of raw_url] by (auto simp: signal_websocket_url_def)

section \<open>Errors end the connection\<close>

text \<open>
  A relay that names a sender without a session is refused before its payload is looked at, and the
  refusal ends the connection: the messages the server sent after it are not read, no session
  changes and nothing but log lines happens on the host.
\<close>

theorem unknown_sender_ends_the_connection:
  assumes "h_json_parse H raw = Inr parsed" and "jget parsed ''type'' = Some (Str ''relay'')"
    and "relay_fields parsed = Inr (from', data)" and "pm_sessions (r_manager r) from' = None"
  shows "\<exists>r'. signal_loop H C (Inr (Ws_Text raw) # reads) r = (Inl Invalid_Peer_Identity, r') \<and>
    r_manager r' = r_manager r \<and> r_sent r' = r_sent r \<and> only_logs (r_world r) (r_world r')"
proof -
  let ?say = "relay_say H (r_manager r) (''signaling recv: '' @ raw)"
  obtain w' where "(say H (pm_verbose (r_manager r)) (''signaling recv: '' @ raw) ::
      (world, transport_error, unit) act) (r_world r) = (Inr (), w')" "only_logs (r_world r) w'"
    using say_ok by blast
  then have s: "?say r = (Inr (), r\<lparr>r_world := w'\<rparr>)" and w: "only_logs (r_world r) w'"
    by (simp_all add: relay_say_def on_world_def)
  have "ensure_relay_sender (r_manager r) from' = Inl Invalid_Peer_Identity"
    using assms(4) by (simp add: ensure_relay_sender_def)
  with assms(3) have "handle_relay H C parsed t = (Inl Invalid_Peer_Identity, t)"
    if "r_manager t = r_manager r" for t
    using that by (simp add: handle_relay_def get_manager_bind fail_def)
  then have "handle_signal_message H C raw r = (Inl Invalid_Peer_Identity, r\<lparr>r_world := w'\<rparr>)"
    using s assms(1,2)
    by (simp add: handle_signal_message_def get_manager_bind act_bind_Inr dispatch_signal_def)
  with w show ?thesis by (simp add: act_map_def act_bind_def)
qed

theorem unknown_sender_ends_the_connection_witness:
  "\<exists>r'. signal_loop relay_host demo_crates [Inr (Ws_Text ''m''), Inr (Ws_Text ''next'')]
       (demo_relay ''b'') = (Inl Invalid_Peer_Identity, r') \<and>
     r_manager r' = r_manager (demo_relay ''b'') \<and> r_sent r' = []"
proof -
  have "jget relayed_ping ''type'' = Some (Str ''relay'')" by (simp add: relayed_ping_def)
  from unknown_sender_ends_the_connection [OF relay_host_facts(2) this relayed_ping_fields(1),
      where r = "demo_relay ''b''" and C = demo_crates and reads = "[Inr (Ws_Text ''next'')]"]
  show ?thesis by (auto simp: demo_relay_def)
qed

end
