(* ===== verification/Cli.thy ===== *)
theory Cli
  imports Core_Files Tools_Access Relay Stdio
begin

text \<open>
  The binary \<open>folk-around\<close> (\<open>src/crates/folk-around/src/main.rs\<close>): command-line flags, the choice of
  transport from the flags and the saved configuration, what is saved, and the exit status.

  \<open>run\<close> is followed up to where it no longer is alone: the call of \<open>run_stdio\<close>, the spawn of the peer-to-peer
  thread, or the credential of an HTTP server. There it ends in a \<open>launch\<close>, which names the transport with
  everything the program hands to it. What \<open>run\<close> does from there on beside the threads it has started is
  \<open>main_step\<close> in the theory \<open>Network\<close>; the transports themselves are the theories \<open>Stdio\<close>, \<open>Http\<close>, \<open>Sse\<close> and \<open>Relay\<close>.
\<close>

section \<open>Flags\<close>

record cli =
  cl_verbose :: bool
  cl_mode :: "string option"
  cl_http_port :: "nat option"
  cl_signal_url :: "string option"
  cl_room :: "string option"
  cl_p2p :: bool
  cl_stdio :: bool
  cl_help :: bool
  cl_version :: bool

definition cli_default :: cli where
  "cli_default =
     \<lparr>cl_verbose = False, cl_mode = None, cl_http_port = None, cl_signal_url = None,
      cl_room = None, cl_p2p = False, cl_stdio = False, cl_help = False, cl_version = False\<rparr>"

text \<open>\<open>args.get(i)\<close>, and one turn of the loop: the index after it and the flags.\<close>

definition arg_at :: "string list \<Rightarrow> nat \<Rightarrow> string option" where
  "arg_at args i = (if i < length args then Some (args ! i) else None)"

definition parse_arg :: "string list \<Rightarrow> nat \<Rightarrow> cli \<Rightarrow> nat \<times> cli" where
  "parse_arg args i c =
     (let arg = args ! i in
      if arg = ''--verbose'' \<or> arg = ''-v'' then (i + 1, c\<lparr>cl_verbose := True\<rparr>)
      else if arg = ''--mode'' then
        (i + 2, case arg_at args (i + 1) of None \<Rightarrow> c | Some v \<Rightarrow> c\<lparr>cl_mode := Some v\<rparr>)
      else if arg = ''--http'' then
        (i + 2, case arg_at args (i + 1) of None \<Rightarrow> c
                | Some v \<Rightarrow> c\<lparr>cl_http_port := parse_unsigned u16_max v\<rparr>)
      else if arg = ''--signal-server'' then
        (i + 2, case arg_at args (i + 1) of None \<Rightarrow> c | Some v \<Rightarrow> c\<lparr>cl_signal_url := Some v\<rparr>)
      else if arg = ''--room'' then
        (i + 2, case arg_at args (i + 1) of None \<Rightarrow> c | Some v \<Rightarrow> c\<lparr>cl_room := Some v\<rparr>)
      else if arg = ''--p2p'' then (i + 1, c\<lparr>cl_p2p := True\<rparr>)
      else if arg = ''--stdio'' then (i + 1, c\<lparr>cl_stdio := True\<rparr>)
      else if arg = ''--help'' \<or> arg = ''-h'' then (i + 1, c\<lparr>cl_help := True\<rparr>)
      else if arg = ''--version'' \<or> arg = ''-V'' then (i + 1, c\<lparr>cl_version := True\<rparr>)
      else (i + 1, c))"

lemma parse_arg_advances: "i < fst (parse_arg args i c)"
  by (simp add: parse_arg_def Let_def)

function parse_loop :: "string list \<Rightarrow> nat \<Rightarrow> cli \<Rightarrow> cli" where
  "parse_loop args i c =
     (if i < length args
      then parse_loop args (fst (parse_arg args i c)) (snd (parse_arg args i c))
      else c)"
  by pat_completeness auto
termination
  by (relation "measure (\<lambda>(args, i, c). length args - i)")
     (use parse_arg_advances in \<open>auto intro!: diff_less_mono2 simp: case_prod_beta\<close>)

declare parse_loop.simps [simp del]

definition parse_args_from :: "string list \<Rightarrow> cli" where
  "parse_args_from args = parse_loop args 0 cli_default"

section \<open>Printing\<close>

definition version :: string where
  "version = ''0.3.6''"

text \<open>The lines of the help text; the raw string ends with a line feed of its own.\<close>

definition help_lines :: "string list" where
  "help_lines = [
     ''folk-around v'' @ version @ '' - MCP computer use daemon'',
     ''Usage: folk-around [options]'',
     [],
     ''  --verbose           Show tool calls'',
     ''  --mode <mode>       full, limited, sandbox (default: full)'',
     ''  --stdio             Force stdio transport and ignore saved transport'',
     ''  --http <port>       HTTP SSE transport (e.g. --http 8080)'',
     ''  --p2p               Join saved/default signaling server and expose local HTTP'',
     ''  --signal-server <url>  Custom signaling server URL'',
     ''  --room <name>       Pairing code / room name'',
     ''  --version           Print version'',
     ''  --help              This help'',
     [],
     ''Transports:'',
     ''  no args   Reuses saved HTTP port, or stdio if none is saved'',
     ''  --stdio   Standard MCP over stdin/stdout'',
     ''  --http    HTTP SSE for remote over Tailscale/SSH'',
     ''  --p2p     Prints a pairing code, registers with signaling, and starts local MCP'']"

definition print_help :: "(world, 'e, unit) act" where
  "print_help = put_stderr (concat (map (\<lambda>l. l @ [CHR 0x0A]) help_lines))"

section \<open>Choosing the transport\<close>

definition default_signal_url :: string where
  "default_signal_url = ''https://folkaround.undivisible.dev''"

definition or_else :: "'a option \<Rightarrow> 'a option \<Rightarrow> 'a option" where
  "or_else a b = (case a of None \<Rightarrow> b | Some x \<Rightarrow> Some x)"

definition choose_mode :: "cli \<Rightarrow> app_config \<Rightarrow> string" where
  "choose_mode c saved =
     (case or_else (cl_mode c) (config_mode saved) of None \<Rightarrow> ''full'' | Some m \<Rightarrow> m)"

definition choose_transport :: "cli \<Rightarrow> app_config \<Rightarrow> string option \<times> nat option" where
  "choose_transport c saved =
     (if cl_stdio c then (None, None)
      else
        (if cl_p2p c \<and> cl_signal_url c = None
         then or_else (signal_url saved) (Some default_signal_url) else cl_signal_url c,
         if cl_http_port c = None then http_port saved else cl_http_port c))"

datatype run_error = Run_Config config_error | Run_Transport transport_error

datatype launch =
    Show_Help
  | Show_Version
  | Invalid_Mode
  | Launch_Stdio bool tool_table
  | Launch_Http bool tool_table nat
  | Launch_P2p bool tool_table string string nat

text \<open>The room: the flag, the saved one, or a fresh pairing code.\<close>

definition choose_room :: "host \<Rightarrow> cli \<Rightarrow> app_config \<Rightarrow> (world, 'e, string) act" where
  "choose_room H c saved =
     (case or_else (cl_room c) (room saved) of
        Some r \<Rightarrow> ret r
      | None \<Rightarrow> generate_pairing_code H)"

text \<open>The lines that \<open>print_pairing_instructions\<close> logs, in order.\<close>

definition pairing_instructions :: "string \<Rightarrow> string \<Rightarrow> nat \<Rightarrow> string list" where
  "pairing_instructions url chamber port =
     [''Pairing code: '' @ chamber,
      ''Give this code to the client and use signaling server: '' @ url,
      ''Local MCP endpoint: http://127.0.0.1:'' @ show_nat port @ ''/sse'',
      ''Waiting for peer...'']"

text \<open>Up to \<open>start_p2p\<close>, which spawns the peer-to-peer thread.\<close>

definition launch_p2p ::
  "host \<Rightarrow> cli \<Rightarrow> app_config \<Rightarrow> string \<Rightarrow> tool_table \<Rightarrow> string \<Rightarrow> nat option \<Rightarrow>
   (world, run_error, launch) act" where
  "launch_p2p H c saved mode_name table url http =
     act_bind (choose_room H c saved) (\<lambda>chamber.
     let port = (case http of None \<Rightarrow> 8080 | Some p \<Rightarrow> p) in
     act_bind (act_map_err Run_Config (save_config H
       \<lparr>signal_url = Some url, room = Some chamber, http_port = Some port,
        config_mode = Some mode_name\<rparr>)) (\<lambda>_.
     act_bind (say H (cl_verbose c) (''P2P mode, signaling: '' @ url)) (\<lambda>_.
     ret (Launch_P2p (cl_verbose c) table url chamber port))))"

text \<open>Up to \<open>load_or_create_http_bearer\<close>.\<close>

definition launch_http ::
  "host \<Rightarrow> cli \<Rightarrow> app_config \<Rightarrow> string \<Rightarrow> tool_table \<Rightarrow> nat \<Rightarrow> (world, run_error, launch) act" where
  "launch_http H c saved mode_name table port =
     act_bind (act_map_err Run_Config (save_config H
       \<lparr>signal_url = signal_url saved, room = room saved, http_port = Some port,
        config_mode = Some mode_name\<rparr>)) (\<lambda>_.
     act_bind (log_status H
       (if cl_verbose c then ''HTTP SSE mode on port '' @ show_nat port
        else ''HTTP listening on http://127.0.0.1:'' @ show_nat port @ ''/'')) (\<lambda>_.
     ret (Launch_Http (cl_verbose c) table port)))"

definition launch_stdio :: "host \<Rightarrow> cli \<Rightarrow> access_mode \<Rightarrow> tool_table \<Rightarrow> (world, run_error, launch) act" where
  "launch_stdio H c mode table =
     act_bind (say H (cl_verbose c) (''stdio mode (mode='' @ access_mode_as_str mode @ '')'')) (\<lambda>_.
     ret (Launch_Stdio (cl_verbose c) table))"

text \<open>From the parsed access mode on: register the tools, then start the chosen transport.\<close>

definition start_transport ::
  "host \<Rightarrow> cli \<Rightarrow> app_config \<Rightarrow> access_mode \<Rightarrow> tool_table \<Rightarrow> (world, run_error, launch) act" where
  "start_transport H c saved mode table =
     (case choose_transport c saved of
        (Some url, http) \<Rightarrow> launch_p2p H c saved (choose_mode c saved) table url http
      | (None, Some port) \<Rightarrow> launch_http H c saved (choose_mode c saved) table port
      | (None, None) \<Rightarrow> launch_stdio H c mode table)"

definition launch_server :: "host \<Rightarrow> cli \<Rightarrow> app_config \<Rightarrow> access_mode \<Rightarrow> (world, run_error, launch) act" where
  "launch_server H c saved mode =
     act_bind (register_tools H (table_new mode)) (start_transport H c saved mode)"

definition run :: "host \<Rightarrow> string list \<Rightarrow> (world, run_error, launch) act" where
  "run H args =
     (let c = parse_args_from args in
      if cl_help c then act_bind print_help (\<lambda>_. ret Show_Help)
      else if cl_version c then ret Show_Version
      else
        act_bind (act_map_err Run_Config (load_config H)) (\<lambda>saved.
        case access_mode_parse (choose_mode c saved) of
          None \<Rightarrow>
            act_bind (log_status H ''invalid mode. use: full, limited, sandbox'') (\<lambda>_.
            ret Invalid_Mode)
        | Some mode \<Rightarrow> launch_server H c saved mode))"

section \<open>The process\<close>

text \<open>
  \<open>main\<close> for a process whose transport is standard input and output: the exit status of the process,
  with the status 101 of a Rust panic. An error is printed by \<open>show_error\<close> (its \<open>Display\<close>).
\<close>

definition fail_with ::
  "host \<Rightarrow> (run_error \<Rightarrow> string) \<Rightarrow> run_error \<Rightarrow> pipe \<Rightarrow> nat \<times> pipe" where
  "fail_with H show_error e p =
     (1, snd (pipe_world (log_status H (show_error e) :: (world, run_error, unit) act) p))"

fun stdio_status ::
  "host \<Rightarrow> (run_error \<Rightarrow> string) \<Rightarrow> (stdio_error + unit) \<times> pipe \<Rightarrow> nat \<times> pipe" where
  "stdio_status H show_error (Inr _, p) = (0, p)"
| "stdio_status H show_error (Inl (Stdio_Error e), p) = fail_with H show_error (Run_Transport e) p"
| "stdio_status H show_error (Inl Capacity_Panic, p) = (101, p)"

definition main_stdio ::
  "host \<Rightarrow> (run_error \<Rightarrow> string) \<Rightarrow> string list \<Rightarrow> pipe \<Rightarrow> (launch + nat) \<times> pipe" where
  "main_stdio H show_error args p =
     (case pipe_world (run H args) p of
        (Inl e, p') \<Rightarrow> (case fail_with H show_error e p' of (n, q) \<Rightarrow> (Inr n, q))
      | (Inr l, p') \<Rightarrow>
          (case l of
             Launch_Stdio verbose table \<Rightarrow>
               (case stdio_status H show_error (run_stdio H verbose table p') of (n, q) \<Rightarrow> (Inr n, q))
           | Invalid_Mode \<Rightarrow> (Inr 1, p')
           | Show_Help \<Rightarrow> (Inr 0, p')
           | Show_Version \<Rightarrow> (Inr 0, p')
           | _ \<Rightarrow> (Inl l, p')))"

section \<open>The flags\<close>

text \<open>
  The reference reading of a command line: left to right, a switch sets its flag, a valued flag
  takes the next argument whatever it is (and is ignored as the last argument), the rest is
  skipped.
\<close>

definition switch_of :: "string \<Rightarrow> (cli \<Rightarrow> cli) option" where
  "switch_of = map_of [
     (''--verbose'', cl_verbose_update (\<lambda>_. True)), (''-v'', cl_verbose_update (\<lambda>_. True)),
     (''--p2p'', cl_p2p_update (\<lambda>_. True)), (''--stdio'', cl_stdio_update (\<lambda>_. True)),
     (''--help'', cl_help_update (\<lambda>_. True)), (''-h'', cl_help_update (\<lambda>_. True)),
     (''--version'', cl_version_update (\<lambda>_. True)), (''-V'', cl_version_update (\<lambda>_. True))]"

definition option_of :: "string \<Rightarrow> (string \<Rightarrow> cli \<Rightarrow> cli) option" where
  "option_of = map_of [
     (''--mode'', \<lambda>v. cl_mode_update (\<lambda>_. Some v)),
     (''--http'', \<lambda>v. cl_http_port_update (\<lambda>_. parse_unsigned u16_max v)),
     (''--signal-server'', \<lambda>v. cl_signal_url_update (\<lambda>_. Some v)),
     (''--room'', \<lambda>v. cl_room_update (\<lambda>_. Some v))]"

fun read_flags :: "string list \<Rightarrow> cli \<Rightarrow> cli" where
  "read_flags [] c = c"
| "read_flags (a # rest) c =
     (case switch_of a of
        Some f \<Rightarrow> read_flags rest (f c)
      | None \<Rightarrow>
          (case option_of a of
             None \<Rightarrow> read_flags rest c
           | Some g \<Rightarrow> (case rest of [] \<Rightarrow> c | v # rest' \<Rightarrow> read_flags rest' (g v c))))"

lemma parse_arg_reference:
  assumes "i < length args"
  shows "parse_arg args i c =
    (case switch_of (args ! i) of
       Some f \<Rightarrow> (i + 1, f c)
     | None \<Rightarrow>
         (case option_of (args ! i) of
            None \<Rightarrow> (i + 1, c)
          | Some g \<Rightarrow> (i + 2, case arg_at args (i + 1) of None \<Rightarrow> c | Some v \<Rightarrow> g v c)))"
  by (simp add: parse_arg_def Let_def switch_of_def option_of_def)

lemma read_flags_drop: "parse_loop args i c = read_flags (drop i args) c"
proof (induction args i c rule: parse_loop.induct)
  case (1 args i c)
  show ?case
  proof (cases "i < length args")
    case False
    then show ?thesis by (simp add: parse_loop.simps)
  next
    case True
    then have d: "drop i args = args ! i # drop (Suc i) args" by (rule Cons_nth_drop_Suc [symmetric])
    have n: "drop (Suc i) args = (case arg_at args (i + 1) of
        None \<Rightarrow> [] | Some v \<Rightarrow> v # drop (i + 2) args)"
      by (simp add: arg_at_def Cons_nth_drop_Suc)
    have s: "parse_loop args i c = read_flags (drop (fst (parse_arg args i c)) args) (snd (parse_arg args i c))"
      using 1 True by (simp add: parse_loop.simps [of args i c])
    show ?thesis
      unfolding s parse_arg_reference [OF True] d
      using n by (auto split: option.split)
  qed
qed

text \<open>
  C35. The index loop of the argument parser terminates on every command line and reads it exactly as
  the left-to-right reference does; in particular a later flag wins over an earlier one.
\<close>

theorem flags_are_read_left_to_right: "parse_args_from args = read_flags args cli_default"
  by (simp add: parse_args_from_def read_flags_drop)

section \<open>Network transports\<close>

lemma launch_p2p_okD:
  assumes "launch_p2p H c saved mode_name table url http w = (Inr l, w')"
  obtains chamber port w1 w2 where
    "l = Launch_P2p (cl_verbose c) table url chamber port"
    "save_config H \<lparr>signal_url = Some url, room = Some chamber, http_port = Some port,
        config_mode = Some mode_name\<rparr> w1 = (Inr (), w2)"
    "world_extends w2 w'" "port = (case http of None \<Rightarrow> 8080 | Some p \<Rightarrow> p)"
proof -
  have lg: "keeps world_extends (log_status H s :: (world, run_error, unit) act)" for s
    by (rule keepsI) (simp add: log_status_eq world_extends_def)
  have say: "keeps world_extends (say H b s :: (world, run_error, unit) act)" for b s
    using lg growth.keeps_ret by (auto simp: say_def)
  from assms show thesis
    by (auto simp: launch_p2p_def Let_def act_bind_eq_Inr act_map_err_eq_Inr
        intro: that keepsD [OF say])
qed

lemma launch_http_okD:
  assumes "launch_http H c saved mode_name table port w = (Inr l, w')"
  shows "l = Launch_Http (cl_verbose c) table port"
  using assms by (auto simp: launch_http_def act_bind_eq_Inr act_map_err_eq_Inr)

end
