(* ===== verification/Service.thy ===== *)
theory Service
  imports Cli
begin

text \<open>
  The program as a whole: what the tool layer keeps of the host, every transport keeps. The locale
  \<open>world_carrier\<close> is the interface between a transport's state and the host's state inside it; it
  is interpreted for the standard input and output pipe, for HTTP connections and for the relay, with
  the set of host calls an access mode allows as the relation that is kept.
\<close>

section \<open>States that carry the host\<close>

locale world_carrier = effect_relation rel
  for rel :: "world \<Rightarrow> world \<Rightarrow> bool" +
  fixes get_world :: "'s \<Rightarrow> world" and put_world :: "world \<Rightarrow> 's \<Rightarrow> 's"
  assumes get_put_world: "get_world (put_world w s) = w"
begin

definition carried :: "'s \<Rightarrow> 's \<Rightarrow> bool" where
  "carried s t \<longleftrightarrow> rel (get_world s) (get_world t)"

lemma carried_same: "get_world t = get_world s \<Longrightarrow> carried s t"
  by (simp add: carried_def rel_refl)

lemma carried_refl: "carried s s"
  by (rule carried_same) simp

lemma carried_trans: "carried s t \<Longrightarrow> carried t u \<Longrightarrow> carried s u"
  unfolding carried_def by (rule rel_trans)

lemma carried_lift:
  assumes "keeps rel m" and "\<And>s. lifted s = (case m (get_world s) of (r, w) \<Rightarrow> (r, put_world w s))"
  shows "keeps carried lifted"
  using assms by (simp add: keeps_def carried_def get_put_world case_prod_beta)

end

sublocale world_carrier \<subseteq> lifted: effect_relation carried
  by unfold_locales (rule carried_refl, erule carried_trans)

interpretation on_pipe: world_carrier "calls_within P" p_world "\<lambda>w p. p\<lparr>p_world := w\<rparr>" for P
  by unfold_locales simp

interpretation on_conn: world_carrier "calls_within P" c_world "\<lambda>w c. c\<lparr>c_world := w\<rparr>" for P
  by unfold_locales simp

interpretation on_relay: world_carrier "calls_within P" r_world "\<lambda>w r. r\<lparr>r_world := w\<rparr>" for P
  by unfold_locales simp

abbreviation served_by :: "host \<Rightarrow> (host_call \<Rightarrow> bool) \<Rightarrow> tool_table \<Rightarrow> bool" where
  "served_by H P table \<equiv> \<forall>verbose msg. keeps (calls_within P) (handle_message H verbose table msg)"

lemma calls_say [call_intros]: "keeps (calls_within P) (say H verbose s)"
  by (auto simp: say_def intro: call_intros)

section \<open>Standard input and output\<close>

named_theorems pipe_intros "pipe actions within a set of host calls"

lemma pipe_calls_op [pipe_intros]: "keeps (on_pipe.carried P) pipe_op"
  by (rule keepsI, rule on_pipe.carried_same) (simp add: pipe_op_def)

lemma pipe_calls_world [pipe_intros]:
  "keeps (calls_within P) m \<Longrightarrow> keeps (on_pipe.carried P) (pipe_world m)"
  by (erule on_pipe.carried_lift) (simp add: pipe_world_def)

lemma pipe_calls_write [pipe_intros]: "keeps (on_pipe.carried P) (pipe_write bs)"
  by (rule keepsI, rule on_pipe.carried_same)
     (simp add: pipe_write_def pipe_op_def act_bind_def split: option.split)

lemma pipe_calls_serve:
  assumes "served_by H P table"
  shows "keeps (on_pipe.carried P) (serve_body H verbose table body)"
  unfolding serve_body_def using assms
  by (auto intro!: on_pipe.lifted.keeps_control pipe_intros call_intros split: sum.split option.split)

lemma read_line_world: "p_world (snd (read_line p)) = p_world p"
  by (simp add: read_line_def pipe_op_def act_bind_def split: option.split prod.split)

lemma skip_headers_world: "p_world (snd (skip_headers p)) = p_world p"
proof (induction p rule: skip_headers.induct)
  case (1 p)
  obtain v p1 where r: "read_line p = (v, p1)" by (cases "read_line p")
  with read_line_world [of p] 1 show ?case
    by (cases v) (simp_all add: skip_headers.simps [of p])
qed

lemma read_body_world: "p_world (snd (read_body n p)) = p_world p"
proof -
  obtain v p1 where s: "skip_headers p = (v, p1)" by (cases "skip_headers p")
  with skip_headers_world [of p] show ?thesis
    by (cases v) (auto simp: read_body_def act_bind_def act_map_def read_exact_def pipe_op_def ret_def
        fail_def split: option.split)
qed

lemma read_stdio_message_world: "p_world (snd (read_stdio_message p)) = p_world p"
proof (induction p rule: read_stdio_message.induct)
  case (1 p)
  obtain v p1 where r: "read_line p = (v, p1)" by (cases "read_line p")
  with read_line_world [of p] 1 show ?case
    by (cases v) (simp_all add: read_stdio_message.simps [of p] Let_def read_body_world)
qed

lemma pipe_calls_run:
  "served_by H P table \<Longrightarrow> on_pipe.carried P p (snd (run_stdio H verbose table p))"
proof (induction H verbose table p rule: run_stdio.induct)
  case (1 H verbose table p)
  obtain v p1 where r: "read_stdio_message p = (v, p1)" by (cases "read_stdio_message p")
  have w: "on_pipe.carried P p p1"
    using read_stdio_message_world [of p] r by (intro on_pipe.carried_same) simp
  show ?case
  proof (cases "\<exists>body. v = Inr (Some body)")
    case False
    then have "snd (run_stdio H verbose table p) = p1"
      using r by (auto simp: run_stdio.simps [of _ _ _ p] split: sum.split option.split)
    with w show ?thesis by simp
  next
    case True
    then obtain body where v: "v = Inr (Some body)" by blast
    obtain u p2 where s: "serve_body H verbose table body p1 = (u, p2)"
      by (cases "serve_body H verbose table body p1")
    have "on_pipe.carried P p1 p2"
      using keepsD [OF pipe_calls_serve [OF "1.prems"] s] .
    with w have t: "on_pipe.carried P p p2" by (rule on_pipe.carried_trans)
    show ?thesis
    proof (cases u)
      case (Inl e)
      with r v s t show ?thesis by (simp add: run_stdio.simps [of _ _ _ p])
    next
      case (Inr x)
      have "on_pipe.carried P p2 (snd (run_stdio H verbose table p2))"
        using r v s Inr "1.prems" by (intro "1.IH") auto
      with t have "on_pipe.carried P p (snd (run_stdio H verbose table p2))"
        by (rule on_pipe.carried_trans)
      with r v s Inr show ?thesis by (simp add: run_stdio.simps [of _ _ _ p])
    qed
  qed
qed

section \<open>HTTP\<close>

named_theorems conn_intros "connection actions within a set of host calls"

lemma conn_calls_op [conn_intros]: "keeps (on_conn.carried P) sock_op"
  by (rule keepsI, rule on_conn.carried_same) (simp add: sock_op_def)

lemma conn_calls_write [conn_intros]: "keeps (on_conn.carried P) (sock_write bs)"
  unfolding sock_write_def
  by (rule on_conn.lifted.keeps_bind [OF conn_calls_op], rule keepsI, rule on_conn.carried_same) simp

lemma conn_calls_world [conn_intros]:
  "keeps (calls_within P) m \<Longrightarrow> keeps (on_conn.carried P) (in_world m)"
  by (erule on_conn.carried_lift) (simp add: in_world_def)

lemma conn_calls_response [conn_intros]: "keeps (on_conn.carried P) (send_response r)"
  unfolding send_response_def by (intro on_conn.lifted.keeps_bind conn_intros)

lemma conn_calls_done [conn_intros]: "keeps (on_conn.carried P) (done_with r)"
  unfolding done_with_def
  by (intro on_conn.lifted.keeps_bind on_conn.lifted.keeps_ret conn_intros)

lemma conn_calls_post:
  assumes "served_by H P table"
  shows "keeps (on_conn.carried P) (handle_http_post H verbose table request)"
  unfolding handle_http_post_def Let_def using assms
  by (auto intro!: on_conn.lifted.keeps_control conn_intros split: option.split sum.split)

lemma conn_calls_read: "on_conn.carried P c (snd (read_request buffer expected c))"
proof (induction buffer expected c rule: read_request.induct)
  case (1 buffer expected c)
  obtain v c1 where r: "sock_read c = (v, c1)" by (cases "sock_read c")
  have "c_world c1 = c_world c"
    using r by (auto simp: sock_read_def sock_op_def act_bind_def split: option.splits prod.splits)
  then have w: "on_conn.carried P c c1" by (rule on_conn.carried_same)
  have refuse: "on_conn.carried P c1 (snd ((act_bind (send_response x) (\<lambda>_. ret None) :: bytes option conn_act) c1))" for x
  proof -
    have "keeps (on_conn.carried P)
        (act_bind (send_response x) (\<lambda>_. ret None) :: bytes option conn_act)"
      by (intro on_conn.lifted.keeps_bind on_conn.lifted.keeps_ret conn_intros)
    then show ?thesis by (simp add: keeps_def)
  qed
  show ?case
    using 1 r w refuse
    by (auto simp: read_request.simps [of _ _ c] intro: on_conn.carried_trans [OF w]
        split: sum.split read_outcome.split)
qed

lemma conn_calls_request [conn_intros]: "keeps (on_conn.carried P) (read_request buffer expected)"
  by (rule keepsI) (rule conn_calls_read)

lemma conn_calls_client:
  assumes "served_by H P table"
  shows "keeps (on_conn.carried P) (handle_http_client H verbose table bearer)"
  unfolding handle_http_client_def route_def Let_def
  using conn_calls_post [OF assms]
  by (auto intro!: on_conn.lifted.keeps_control conn_intros split: option.split prod.split)

section \<open>The relay\<close>

named_theorems wire_intros "relay actions within a set of host calls"

lemma wire_same: "r_world r' = r_world r \<Longrightarrow> on_relay.carried P r r'"
  by (rule on_relay.carried_same)

lemma wire_calls_get [wire_intros]: "keeps (on_relay.carried P) get_manager"
  by (rule keepsI) (simp add: get_manager_def wire_same)

lemma wire_calls_put [wire_intros]: "keeps (on_relay.carried P) (put_session peer s)"
  by (rule keepsI) (simp add: put_session_def wire_same)

lemma wire_calls_send [wire_intros]: "keeps (on_relay.carried P) (ws_send C msg)"
  by (rule keepsI) (simp add: ws_send_def wire_same split: option.split)

lemma wire_calls_connect [wire_intros]: "keeps (on_relay.carried P) (ws_connect C url key)"
  by (rule keepsI) (simp add: ws_connect_def wire_same)

lemma wire_calls_world [wire_intros]:
  "keeps (calls_within P) m \<Longrightarrow> keeps (on_relay.carried P) (on_world m)"
  by (erule on_relay.carried_lift) (simp add: on_world_def)

lemma wire_calls_basic [wire_intros]:
  "keeps (on_relay.carried P) (ws_send_json H C v)"
  "keeps (on_relay.carried P) (relay_say H m s)"
  unfolding ws_send_json_def relay_say_def by (auto intro!: wire_intros call_intros)

lemma wire_calls_handshake [wire_intros]:
  "keeps (on_relay.carried P) (send_offer H C peer)"
  "keeps (on_relay.carried P) (send_answer H C peer)"
  "keeps (on_relay.carried P) (establish_session C peer)"
  unfolding send_offer_def send_answer_def establish_session_def
  by (auto intro!: on_relay.lifted.keeps_control wire_intros split: option.split)

lemma wire_calls_offers [wire_intros]: "keeps (on_relay.carried P) (send_offers H C vs)"
  by (induction vs) (auto intro!: on_relay.lifted.keeps_control wire_intros split: option.split)

lemma wire_calls_crypto [wire_intros]:
  "keeps (on_relay.carried P) (encrypt_relay_payload H C peer plaintext)"
  "keeps (on_relay.carried P) (decrypt_relay_data H C from' data)"
  unfolding encrypt_relay_payload_def decrypt_relay_data_def
  by (auto intro!: on_relay.lifted.keeps_control wire_intros call_intros split: prod.split)

text \<open>
  The manager's table never changes (\<open>relay_grows\<close>), so a relay that starts with a served table keeps
  serving it.
\<close>

definition wire :: "host \<Rightarrow> relay_crates \<Rightarrow> (host_call \<Rightarrow> bool) \<Rightarrow> relay \<Rightarrow> relay \<Rightarrow> bool" where
  "wire H C P r r' \<longleftrightarrow>
     relay_grows C r r' \<and> (served_by H P (pm_table (r_manager r)) \<longrightarrow> on_relay.carried P r r')"

interpretation wired: effect_relation "wire H C P" for H C P
proof
  show "wire H C P r r" for r
    by (simp add: wire_def sessions.rel_refl on_relay.carried_refl)
  show "wire H C P r u" if a: "wire H C P r t" and b: "wire H C P t u" for r t u
  proof -
    have "pm_table (r_manager t) = pm_table (r_manager r)"
      using a by (simp add: wire_def relay_grows_def manager_grows_def)
    with a b show ?thesis
      unfolding wire_def using sessions.rel_trans on_relay.carried_trans by metis
  qed
qed

lemma wireI: "keeps (relay_grows C) m \<Longrightarrow> keeps (on_relay.carried P) m \<Longrightarrow> keeps (wire H C P) m"
  by (simp add: keeps_def wire_def)

lemma wire_request: "keeps (wire H C P) (relay_request H C from' body)"
proof
  fix r :: relay
  have "on_relay.carried P r (snd (relay_request H C from' body r))"
    if t: "served_by H P (pm_table (r_manager r))"
  proof (cases "h_json_parse H body")
    case (Inl e)
    then show ?thesis by (simp add: relay_request_def fail_def on_relay.carried_refl)
  next
    case (Inr msg)
    let ?m = "r_manager r"
    let ?act = "act_bind (act_map_err Transport_Json
       (on_world (handle_message H (pm_verbose ?m) (pm_table ?m) msg))) (\<lambda>answer.
     case answer of
       None \<Rightarrow> ret ()
     | Some resp \<Rightarrow>
         act_bind (encrypt_relay_payload H C from' resp) (\<lambda>encrypted.
         ws_send_json H C (jobj [(''type'', Str ''relay''),
           (''from'', Str (rc_hex_encode C (pm_public ?m))), (''to'', Str from'),
           (''data'', encrypted)])))"
    have "keeps (on_relay.carried P) ?act"
      using t by (auto intro!: on_relay.lifted.keeps_control wire_intros split: option.split)
    then have "on_relay.carried P r (snd (?act r))" by (simp add: keeps_def)
    with Inr show ?thesis by (simp add: relay_request_def get_manager_bind)
  qed
  moreover have "relay_grows C r (snd (relay_request H C from' body r))"
    using relay_grows_request by (simp add: keeps_def)
  ultimately show "wire H C P r (snd (relay_request H C from' body r))" by (simp add: wire_def)
qed

lemmas wire_control = wired.keeps_bind wired.keeps_lift_res wired.keeps_ret wired.keeps_fail
  wired.keeps_map

named_theorems wire_steps "relay actions on a served table"

lemmas wire_leaves [wire_steps] =
  wireI [OF relay_grows_get wire_calls_get]
  wireI [OF relay_grows_say wire_calls_basic(2)]
  wireI [OF relay_grows_send_json wire_calls_basic(1)]
  wireI [OF relay_grows_send wire_calls_send]
  wireI [OF relay_grows_connect wire_calls_connect]
  wireI [OF relay_grows_decrypt wire_calls_crypto(2)]
  wireI [OF relay_grows_offers wire_calls_offers]
  wireI [OF relay_grows_offer wire_calls_handshake(1)]
  wireI [OF relay_grows_answer wire_calls_handshake(2)]
  wireI [OF relay_grows_establish wire_calls_handshake(3)]

lemma wire_relay [wire_steps]: "keeps (wire H C P) (handle_relay H C parsed)"
  unfolding handle_relay_def case_prod_unfold
  by (intro wire_control wire_steps wire_request)

lemma wire_dispatch [wire_steps]: "keeps (wire H C P) (dispatch_signal H C parsed)"
  unfolding dispatch_signal_def Let_def
  by (simp split: option.split) (intro conjI impI allI wire_control wire_steps)

lemma wire_signal [wire_steps]: "keeps (wire H C P) (handle_signal_message H C raw)"
  unfolding handle_signal_message_def by (intro wire_control wire_steps)

lemma keeps_if: "keeps R m \<Longrightarrow> keeps R n \<Longrightarrow> keeps R (if b then m else n)"
  by simp

lemma wire_ws [wire_steps]: "keeps (wire H C P) (handle_ws H C msg)"
proof (cases msg)
  case (Ws_Binary bytes)
  then show ?thesis by (cases "from_utf8 bytes") (simp_all, (intro wire_control wire_steps)+)
qed (simp_all, (intro wire_control wire_steps)+)

lemma wire_loop: "keeps (wire H C P) (signal_loop H C reads)"
proof (induction H C reads rule: signal_loop.induct)
  case (3 H C msg reads)
  then show ?case by simp (intro wire_control wire_steps impI conjI, simp add: wired.keeps_ret)
qed (simp_all add: wired.keeps_ret)

lemma wire_fill: "keeps (wire H C P) (on_world (fill_bytes H' n))"
  by (intro wireI relay_grows_world wire_calls_world call_intros)

lemma wire_join: "keeps (wire H C P) (join_signal_room H C)"
  unfolding join_signal_room_def Let_def
  by (intro wire_control wire_steps wire_loop wire_fill keeps_if)

lemma wire_round: "wire H C P r (p2p_round H C show_error r)"
proof -
  obtain v t where j: "join_signal_room H C r = (v, t)" by (cases "join_signal_room H C r")
  have "wire H C P r t" using wire_join j by (rule keepsD)
  moreover have "wire H C P t (snd (relay_say H (r_manager t) s t))" for s
    using wireI [OF relay_grows_say wire_calls_basic(2)] by (simp add: keeps_def)
  ultimately show ?thesis
    using j wired.rel_trans by (cases v) (auto simp: p2p_round_def)
qed

lemma wire_rounds: "wire H C P r (p2p_rounds n H C show_error r)"
  by (induction n arbitrary: r) (auto intro: wired.rel_refl wired.rel_trans [OF wire_round])

section \<open>Restricted servers\<close>

lemma restricted_tools_served: "mode \<noteq> Full \<Longrightarrow> served_by H safe_call (tools_of H mode c v)"
proof -
  assume "mode \<noteq> Full"
  then have "mode_call mode = safe_call" by (simp add: mode_call_eq)
  with mode_handle_message [of mode H _ c v] show ?thesis by simp
qed

lemma calls_withinD: "calls_within P w w' \<Longrightarrow> \<exists>cs. trace w' = trace w @ cs \<and> list_all P cs"
  by (simp add: calls_within_def)

text \<open>
  C1. The access mode holds on every transport: a server in the limited or sandbox mode, whatever
  arrives on standard input, on an HTTP connection or through the peer-to-peer relay (any number of
  reconnections, any messages of the signalling server), makes the host do nothing but run
  allowlisted programs directly and look.
\<close>

theorem restricted_mode_holds_on_every_transport:
  assumes "mode \<noteq> Full" and "pm_table (r_manager r) = tools_of H mode c v"
  shows "(\<exists>cs. trace (p_world (snd (run_stdio H verbose (tools_of H mode c v) p))) =
        trace (p_world p) @ cs \<and> list_all safe_call cs) \<and>
    (\<exists>cs. trace (c_world (snd (handle_http_client H verbose (tools_of H mode c v) bearer conn))) =
        trace (c_world conn) @ cs \<and> list_all safe_call cs) \<and>
    (\<exists>cs. trace (r_world (p2p_rounds n H C show_error r)) = trace (r_world r) @ cs \<and>
        list_all safe_call cs)"
proof (intro conjI)
  note s = restricted_tools_served [OF assms(1), of H c v]
  show "\<exists>cs. trace (p_world (snd (run_stdio H verbose (tools_of H mode c v) p))) =
      trace (p_world p) @ cs \<and> list_all safe_call cs"
    using pipe_calls_run [OF s, of p verbose] by (intro calls_withinD) (simp add: on_pipe.carried_def)
  show "\<exists>cs. trace (c_world (snd (handle_http_client H verbose (tools_of H mode c v) bearer conn))) =
      trace (c_world conn) @ cs \<and> list_all safe_call cs"
    using conn_calls_client [OF s, of verbose bearer]
    by (intro calls_withinD) (simp add: keeps_def on_conn.carried_def)
  show "\<exists>cs. trace (r_world (p2p_rounds n H C show_error r)) = trace (r_world r) @ cs \<and>
        list_all safe_call cs"
    using wire_rounds [of H C safe_call r n show_error] s assms(2)
    by (intro calls_withinD) (simp add: wire_def on_relay.carried_def)
qed

text \<open>A relay of a sandboxed server.\<close>

definition sandboxed_relay :: relay where
  "sandboxed_relay = (demo_relay ''b'')\<lparr>r_manager := (r_manager (demo_relay ''b''))
     \<lparr>pm_table := tools_of relay_host Sandbox True True\<rparr>\<rparr>"

theorem restricted_mode_holds_on_every_transport_witness:
  "\<exists>cs. trace (r_world (p2p_rounds 2 relay_host demo_crates (\<lambda>e. []) sandboxed_relay)) = cs \<and>
     list_all safe_call cs"
proof -
  have "pm_table (r_manager sandboxed_relay) = tools_of relay_host Sandbox True True"
    by (simp add: sandboxed_relay_def)
  moreover have "trace (r_world sandboxed_relay) = []"
    by (simp add: sandboxed_relay_def demo_relay_def demo_world_def)
  ultimately show ?thesis
    using restricted_mode_holds_on_every_transport [of Sandbox sandboxed_relay relay_host True True]
    by simp
qed

section \<open>The whole process\<close>

lemma calls_files [call_intros]:
  "keeps (calls_within P) (fs_read H p)" "keeps (calls_within P) (fs_read_to_string H p)"
  "keeps (calls_within P) (fs_write H p bs)" "keeps (calls_within P) (fs_write_all H p bs)"
  unfolding fs_read_to_string_def fs_read_def fs_write_def fs_write_all_def
  by (auto intro!: calls_steps call_intros split: option.split node.split)

lemma calls_config [call_intros]:
  "keeps (calls_within P) (load_config H)" "keeps (calls_within P) (save_config H config)"
  unfolding load_config_def save_config_def restrict_file_permissions_def Let_def
  by (auto intro!: calls_steps call_intros)

lemma calls_bearer [call_intros]:
  "keeps (calls_within P) (load_or_create_http_bearer H)" "keeps (calls_within P) (generate_pairing_code H)"
  unfolding load_or_create_http_bearer_def create_http_bearer_def load_http_bearer_def
    generate_http_bearer_def generate_pairing_code_def restrict_file_permissions_def Let_def
  by (auto intro!: calls_steps call_intros split: node.split)

lemma calls_launch_server: "keeps (calls_within (\<lambda>c. c = Query_Capabilities)) (launch_server H c saved mode)"
  unfolding launch_server_def start_transport_def register_tools_def supports_semantic_action_def launch_p2p_def
    launch_http_def launch_stdio_def choose_room_def Let_def
  by (auto intro!: calls_steps call_intros split: option.split prod.split)

lemma calls_print_help [call_intros]: "keeps (calls_within P) print_help"
  by (rule calls_quiet) (simp add: print_help_def put_stderr_def)

lemma boot_calls: "keeps (calls_within (\<lambda>c. c = Query_Capabilities)) (run H args)"
  unfolding run_def Let_def
  by (auto intro!: calls_steps call_intros calls_launch_server split: option.split)

lemma register_tools_okD:
  "register_tools H (table_new mode) w = (Inr table, w') \<Longrightarrow> \<exists>c v. table = tools_of H mode c v"
  by (auto simp: register_tools_def act_bind_eq_Inr tools_of_def)

lemma run_serverD:
  assumes "run H args w = (Inr l, w')" and "l \<notin> {Show_Help, Show_Version, Invalid_Mode}"
  obtains saved w1 mode c v w2 where "load_config H w = (Inr saved, w1)"
    "access_mode_parse (choose_mode (parse_args_from args) saved) = Some mode"
    "start_transport H (parse_args_from args) saved mode (tools_of H mode c v) w2 = (Inr l, w')"
proof -
  let ?c = "parse_args_from args"
  have "\<not> cl_help ?c" "\<not> cl_version ?c"
    using assms by (auto simp: run_def Let_def act_bind_eq_Inr split: if_splits)
  with assms(1) obtain saved w1 where s: "load_config H w = (Inr saved, w1)"
    and r: "(case access_mode_parse (choose_mode ?c saved) of
          None \<Rightarrow> act_bind (log_status H ''invalid mode. use: full, limited, sandbox'') (\<lambda>_. ret Invalid_Mode)
        | Some mode \<Rightarrow> launch_server H ?c saved mode) w1 = (Inr l, w')"
    by (auto simp: run_def Let_def act_bind_eq_Inr act_map_err_eq_Inr)
  show thesis
  proof (cases "access_mode_parse (choose_mode ?c saved)")
    case None
    with r assms(2) show thesis by (auto simp: act_bind_eq_Inr)
  next
    case (Some mode)
    with r obtain table w2 where
      t: "(register_tools H (table_new mode) :: (world, run_error, tool_table) act) w1 = (Inr table, w2)"
      and l: "start_transport H ?c saved mode table w2 = (Inr l, w')"
      by (auto simp: launch_server_def act_bind_eq_Inr)
    from t obtain c v where "table = tools_of H mode c v" using register_tools_okD by blast
    with s Some t l that show thesis by blast
  qed
qed

lemma stdio_onlyD:
  assumes "run H args w = (Inr (Launch_Stdio verbose table), w')"
  obtains saved w1 mode c v where "load_config H w = (Inr saved, w1)"
    "access_mode_parse (choose_mode (parse_args_from args) saved) = Some mode"
    "table = tools_of H mode c v"
proof (rule run_serverD [OF assms])
  fix saved w1 mode c v w2
  assume s: "load_config H w = (Inr saved, w1)"
    "access_mode_parse (choose_mode (parse_args_from args) saved) = Some mode"
    and l: "start_transport H (parse_args_from args) saved mode (tools_of H mode c v) w2 =
      (Inr (Launch_Stdio verbose table), w')"
  from l have "table = tools_of H mode c v"
    by (auto simp: start_transport_def launch_p2p_def launch_http_def launch_stdio_def Let_def
        act_bind_eq_Inr split: prod.splits option.splits)
  with s that show thesis by blast
qed simp

lemma calls_mono:
  "keeps (calls_within P) m \<Longrightarrow> (\<And>c. P c \<Longrightarrow> Q c) \<Longrightarrow> keeps (calls_within Q) m"
  unfolding keeps_def calls_within_def by (meson list_all_iff)

abbreviation boot_call :: "host_call \<Rightarrow> bool" where
  "boot_call c \<equiv> c = Query_Capabilities \<or> safe_call c"

lemma fail_with_calls: "fail_with H show_error e p = (n, q) \<Longrightarrow> on_pipe.carried P p q"
  using pipe_calls_world [OF calls_log, of P H "show_error e"]
  by (auto simp: fail_with_def keeps_def)

lemma stdio_status_calls:
  "stdio_status H show_error rp = (n, q) \<Longrightarrow> on_pipe.carried P (snd rp) q"
  by (cases "(H, show_error, rp)" rule: stdio_status.cases)
     (auto simp: on_pipe.carried_refl dest: fail_with_calls)

lemma restricted_mode_parse:
  "access_mode_parse m = Some mode \<Longrightarrow> m \<noteq> ''full'' \<Longrightarrow> mode \<noteq> Full"
  by (auto simp: access_mode_parse_def split: if_splits)

lemma restricted_process:
  assumes "cl_mode (parse_args_from args) = Some m" and "m \<noteq> ''full''"
  shows "on_pipe.carried boot_call p (snd (main_stdio H show_error args p))"
proof -
  obtain v p1 where r: "pipe_world (run H args) p = (v, p1)" by (cases "pipe_world (run H args) p")
  have "keeps (calls_within boot_call) (run H args)"
    using boot_calls by (rule calls_mono) simp
  then have w: "on_pipe.carried boot_call p p1" using keepsD [OF pipe_calls_world r] by blast
  show ?thesis
  proof (cases v)
    case (Inl e)
    with r w show ?thesis
      by (auto simp: main_stdio_def split: prod.split
          intro: on_pipe.carried_trans dest: fail_with_calls [where P = boot_call])
  next
    case (Inr l)
    show ?thesis
    proof (cases l)
      case (Launch_Stdio verbose table)
      from r Inr Launch_Stdio obtain w' where
        "run H args (p_world p) = (Inr (Launch_Stdio verbose table), w')"
        by (auto simp: pipe_world_def split: prod.splits)
      then obtain saved w1 mode c u where
        m: "access_mode_parse (choose_mode (parse_args_from args) saved) = Some mode"
        and t: "table = tools_of H mode c u" by (rule stdio_onlyD)
      from m assms have "mode \<noteq> Full"
        using restricted_mode_parse [of m mode] by (simp add: choose_mode_def or_else_def)
      from restricted_tools_served [OF this] have "served_by H boot_call table"
        unfolding t by (blast intro: calls_mono)
      then have "on_pipe.carried boot_call p1 (snd (run_stdio H verbose table p1))"
        by (rule pipe_calls_run)
      with w have "on_pipe.carried boot_call p (snd (run_stdio H verbose table p1))"
        by (rule on_pipe.carried_trans)
      with r Inr Launch_Stdio show ?thesis
        by (auto simp: main_stdio_def split: prod.split
            intro: on_pipe.carried_trans dest: stdio_status_calls [where P = boot_call])
    qed (use r w Inr in \<open>simp_all add: main_stdio_def\<close>)
  qed
qed

text \<open>
  C5. A process started with a restricted \<open>--mode\<close> stays restricted: from its start (configuration, tool
  registration) through every message it reads on standard input to its exit, the only host calls
  it makes are the capability probe of the tool registration and those the restricted modes allow,
  whatever the saved configuration says.
\<close>

theorem restricted_process_only_looks:
  assumes "cl_mode (parse_args_from args) = Some m" and "m \<noteq> ''full''"
  shows "\<exists>cs. trace (p_world (snd (main_stdio H show_error args p))) = trace (p_world p) @ cs \<and>
    list_all (\<lambda>c. c = Query_Capabilities \<or> safe_call c) cs"
  using restricted_process [OF assms, of p H show_error]
  by (intro calls_withinD) (simp add: on_pipe.carried_def)

theorem restricted_process_only_looks_witness:
  "\<exists>cs. trace (p_world (snd (main_stdio demo_host (\<lambda>e. []) [''--stdio'', ''--mode'', ''sandbox'']
       (demo_pipe ''{}'')))) = cs \<and> list_all (\<lambda>c. c = Query_Capabilities \<or> safe_call c) cs"
proof -
  have "cl_mode (parse_args_from [''--stdio'', ''--mode'', ''sandbox'']) = Some ''sandbox''"
    by (simp add: parse_args_from_def parse_loop.simps parse_arg_def arg_at_def cli_default_def)
  from restricted_process_only_looks [OF this, of demo_host "\<lambda>e. []" "demo_pipe ''{}''"]
  show ?thesis by (simp add: demo_pipe_def demo_world_def)
qed

section \<open>Port numbers\<close>

abbreviation port_ok :: "nat option \<Rightarrow> bool" where
  "port_ok \<equiv> pred_option (\<lambda>n. n \<le> u16_max)"

lemma parse_config_port: "port_ok (http_port (parse_config contents))"
  unfolding parse_config_def
  by (rule foldl_invariant [where P = "\<lambda>c. port_ok (http_port c)"])
     (auto simp: default_config_def config_line_def Let_def pred_option_def
       dest: parse_unsigned_le split: option.splits)

lemma load_config_port: "load_config H w = (Inr saved, w') \<Longrightarrow> port_ok (http_port saved)"
proof -
  assume l: "load_config H w = (Inr saved, w')"
  have "(\<exists>contents. saved = parse_config contents) \<or> saved = default_config"
  proof (cases "config_path H")
    case (Inr p)
    obtain v w1 where "fs_read_to_string H p w = (v, w1)" by (cases "fs_read_to_string H p w")
    with l Inr show ?thesis
      by (cases v) (auto simp: load_config_def act_match_def split: if_splits)
  qed (use l in \<open>simp add: load_config_def\<close>)
  with parse_config_port show ?thesis by (auto simp: default_config_def)
qed

lemma read_flags_port: "port_ok (cl_http_port c) \<Longrightarrow> port_ok (cl_http_port (read_flags args c))"
proof (induction args c rule: read_flags.induct)
  case (2 a rest c)
  have sw: "cl_http_port (f c) = cl_http_port c" if "switch_of a = Some f" for f
    using that by (auto simp: switch_of_def split: if_splits)
  have opt: "port_ok (cl_http_port (g v c))" if "option_of a = Some g" for g v
    using that 2(4) by (auto simp: option_of_def pred_option_def dest: parse_unsigned_le split: if_splits)
  from 2 sw opt show ?case by (auto split: option.split list.split)
qed simp

lemma args_port: "port_ok (cl_http_port (parse_args_from args))"
  using read_flags_port [of cli_default args]
  by (simp add: parse_args_from_def read_flags_drop cli_default_def)

lemma choose_transport_port:
  assumes "choose_transport c saved = (u, Some p)" and "port_ok (cl_http_port c)" "port_ok (http_port saved)"
  shows "p \<le> u16_max"
  using assms by (auto simp: choose_transport_def split: if_splits)

lemma served_port:
  assumes "run H args w = (Inr l, w')"
    and "l \<in> {Launch_Http verbose table port, Launch_P2p verbose table url chamber port}"
  shows "port \<le> 65535"
proof -
  have "l \<notin> {Show_Help, Show_Version, Invalid_Mode}" using assms(2) by auto
  from assms(1) this show ?thesis
  proof (rule run_serverD)
    fix saved w1 mode c v w2
    let ?c = "parse_args_from args"
    assume s: "load_config H w = (Inr saved, w1)"
      and l: "start_transport H ?c saved mode (tools_of H mode c v) w2 = (Inr l, w')"
    obtain u p where ch: "choose_transport ?c saved = (u, p)" by (cases "choose_transport ?c saved")
    have ok: "q \<le> 65535" if "p = Some q" for q
      using choose_transport_port [of ?c saved u q] ch that args_port load_config_port [OF s]
      by (simp add: u16_max_def)
    show ?thesis
    proof (cases u)
      case (Some url')
      with l ch have "launch_p2p H ?c saved (choose_mode ?c saved) (tools_of H mode c v) url' p w2 =
          (Inr l, w')" by (simp add: start_transport_def)
      then show ?thesis
        by (rule launch_p2p_okD) (use assms(2) ok in \<open>auto split: option.splits\<close>)
    next
      case None
      with l ch assms(2) obtain q where "p = Some q"
        by (cases p) (auto simp: start_transport_def launch_stdio_def act_bind_eq_Inr)
      moreover from this l ch None have
        "launch_http H ?c saved (choose_mode ?c saved) (tools_of H mode c v) q w2 = (Inr l, w')"
        by (simp add: start_transport_def)
      ultimately show ?thesis
        using ok assms(2) by (auto dest!: launch_http_okD)
    qed
  qed
qed

section \<open>Starting a network transport\<close>

lemma network_launch:
  assumes "run H args w = (Inr l, w')" and "l \<in> {Launch_Http verbose table port, Launch_P2p verbose table url chamber port}"
  shows "\<not> cl_stdio (parse_args_from args)"
proof -
  have "l \<notin> {Show_Help, Show_Version, Invalid_Mode}" using assms(2) by auto
  from assms(1) this show ?thesis
    by (rule run_serverD)
       (use assms(2) in \<open>auto simp: start_transport_def choose_transport_def launch_stdio_def act_bind_eq_Inr\<close>)
qed

lemma p2p_launch:
  assumes "run H args w = (Inr (Launch_P2p verbose table url chamber port), w')"
  obtains m w1 w2 where "save_config H \<lparr>signal_url = Some url, room = Some chamber,
      http_port = Some port, config_mode = Some m\<rparr> w1 = (Inr (), w2)"
    "world_extends w2 w'" "access_mode_parse m = Some (table_mode table)"
proof -
  have "Launch_P2p verbose table url chamber port \<notin> {Show_Help, Show_Version, Invalid_Mode}" by simp
  from assms this show thesis
  proof (rule run_serverD)
    fix saved w1 mode c v w2
    let ?c = "parse_args_from args"
    assume m: "access_mode_parse (choose_mode ?c saved) = Some mode"
      and l: "start_transport H ?c saved mode (tools_of H mode c v) w2 =
        (Inr (Launch_P2p verbose table url chamber port), w')"
    obtain u p where "choose_transport ?c saved = (Some u, p)"
      using l by (auto simp: start_transport_def launch_stdio_def launch_http_def act_bind_eq_Inr
          split: prod.splits option.splits)
    with l have "launch_p2p H ?c saved (choose_mode ?c saved) (tools_of H mode c v) u p w2 =
        (Inr (Launch_P2p verbose table url chamber port), w')" by (simp add: start_transport_def)
    then show thesis
    proof (rule launch_p2p_okD)
      fix chamber' port' w1 w2
      assume e: "Launch_P2p verbose table url chamber port =
          Launch_P2p (cl_verbose ?c) (tools_of H mode c v) u chamber' port'"
        and s: "save_config H \<lparr>signal_url = Some u, room = Some chamber', http_port = Some port',
          config_mode = Some (choose_mode ?c saved)\<rparr> w1 = (Inr (), w2)"
        and x: "world_extends w2 w'"
      show thesis using that s e m x by (simp add: tools_of_tools)
    qed
  qed
qed

lemma saved_config_loads:
  assumes "save_config H c w = (Inr (), w1)" and "h_unix H" and "world_extends w1 w2"
    and "config_ok c" and "config_utf8 c" and "h_fault H (io_ops w2) = None"
  shows "\<exists>w3. load_config H w2 = (Inr c, w3)"
proof -
  obtain p where p: "config_path H = Inr p"
    using assms(1) by (cases "config_dir H") (auto simp: save_config_def config_path_def)
  obtain q where q: "follow max_symlinks (files w1) p = Some q"
    "files w1 q = Some (Regular 384 (render_config c))"
    using save_config_file [OF assms(1) p assms(2)] .
  obtain m where m: "files w2 q = Some (Regular m (render_config c))"
    using world_extends_regular [OF assms(3) q(2)] by blast
  have "follow max_symlinks (files w2) p = Some q"
    using follow_extends [OF q(1)] q(2) assms(3) by (simp add: world_extends_def)
  from fs_read_regular [OF this m assms(6)] show ?thesis
    using p render_config_utf8 [OF assms(5)] parse_render_config [OF assms(4)]
    by (auto simp: load_config_def fs_read_to_string_def act_bind_eq_Inr from_utf8_def act_match_Inr)
qed

lemma mode_names_ok: "access_mode_parse m \<noteq> None \<Longrightarrow> value_ok m \<and> utf8_valid m"
proof -
  assume "access_mode_parse m \<noteq> None"
  then have "m \<in> {''full'', ''limited'', ''sandbox''}"
    by (auto simp: access_mode_parse_def split: if_splits)
  moreover have "value_ok ''full''" "value_ok ''limited''" "value_ok ''sandbox''"
    "utf8_valid ''full''" "utf8_valid ''limited''" "utf8_valid ''sandbox''"
    by code_simp+
  ultimately show ?thesis by auto
qed

lemma p2p_flags:
  "cl_signal_url (parse_args_from [''--p2p'']) = None" "cl_http_port (parse_args_from [''--p2p'']) = None"
  "cl_room (parse_args_from [''--p2p'']) = None" "cl_mode (parse_args_from [''--p2p'']) = None"
  "cl_p2p (parse_args_from [''--p2p''])" "\<not> cl_stdio (parse_args_from [''--p2p''])"
  by (simp_all add: parse_args_from_def read_flags_drop switch_of_def cli_default_def)

text \<open>
  C9. A peer-to-peer session can be resumed, on Unix: after a start with any flags that reached the peer-to-peer
  transport, the configuration that a later start loads makes a plain \<open>--p2p\<close> join the same server
  in the same room, on the same port and in the same access mode, without a new pairing code. This holds for
  an address and a room that the unquoted configuration format can carry (not empty, no line feed, no surrounding
  white space, valid UTF-8), in every later state of the host in which the files are still there, and when
  reading the configuration meets no I/O fault.
\<close>

theorem p2p_restart_resumes_the_session:
  assumes "run H args w = (Inr (Launch_P2p verbose table url chamber port), w')" and "h_unix H"
    and "value_ok url" "utf8_valid url" "value_ok chamber" "utf8_valid chamber"
    and "world_extends w' later" and "h_fault H (io_ops later) = None"
  shows "\<exists>saved w''. load_config H later = (Inr saved, w'') \<and>
    choose_transport (parse_args_from [''--p2p'']) saved = (Some url, Some port) \<and>
    choose_room H (parse_args_from [''--p2p'']) saved w'' =
      (Inr chamber :: run_error + string, w'') \<and>
    access_mode_parse (choose_mode (parse_args_from [''--p2p'']) saved) = Some (table_mode table)"
proof -
  obtain m w1 w2 where s: "save_config H \<lparr>signal_url = Some url, room = Some chamber,
      http_port = Some port, config_mode = Some m\<rparr> w1 = (Inr (), w2)" (is "save_config H ?c w1 = _")
    and x: "world_extends w2 w'" and m: "access_mode_parse m = Some (table_mode table)"
    using assms(1) by (rule p2p_launch)
  have "value_ok m" "utf8_valid m" using mode_names_ok [of m] m by simp_all
  moreover have "port \<le> u16_max"
    using served_port [OF assms(1), of verbose table port url chamber] by (simp add: u16_max_def)
  ultimately have "config_ok ?c" "config_utf8 ?c"
    using assms(3-6) by (simp_all add: config_ok_def config_utf8_def)
  from saved_config_loads [OF s assms(2) growth.rel_trans [OF x assms(7)] this assms(8)] obtain w3 where
    "load_config H later = (Inr ?c, w3)" by blast
  with m show ?thesis
    by (intro exI [of _ ?c] exI [of _ w3] conjI)
       (simp_all add: choose_transport_def choose_room_def choose_mode_def or_else_def p2p_flags)
qed

lemma launch_p2p_succeeds:
  assumes d: "config_dir H = Inr d" and k: "dirs_ok (files w) (path_ancestors d)"
    and free: "files w (path_join d ''config'') = None"
    and nf: "\<forall>n. h_fault H n = None" and r: "or_else (cl_room c) (room saved) = Some chamber"
  shows "\<exists>w'. launch_p2p H c saved mode_name table url http w =
    (Inr (Launch_P2p (cl_verbose c) table url chamber (case http of None \<Rightarrow> 8080 | Some p \<Rightarrow> p)), w') \<and> world_extends w w'"
proof -
  let ?c = "\<lparr>signal_url = Some url, room = Some chamber,
      http_port = Some (case http of None \<Rightarrow> 8080 | Some p \<Rightarrow> p), config_mode = Some mode_name\<rparr>"
  obtain w1 where w1: "save_config H ?c w = (Inr (), w1)" "world_extends w w1"
    using save_config_existing [OF d _ k free] nf by blast
  obtain w2 where w2: "say H (cl_verbose c) (''P2P mode, signaling: '' @ url) w1 =
      (Inr () :: run_error + unit, w2)" "only_logs w1 w2" using say_ok by blast
  have "world_extends w w2"
    using w1(2) w2(2) by (simp add: world_extends_def only_logs_def)
  with w1 w2 r show ?thesis
    by (simp add: launch_p2p_def choose_room_def Let_def act_bind_def act_map_err_def ret_def)
qed

text \<open>A home directory with a credential and no configuration.\<close>

definition settled_home :: world where
  "settled_home = home_world\<lparr>files := (files home_world)
     (Path True [''h'', ''.config'', ''folk-around'', ''http-token''] \<mapsto>
        Regular 384 (replicate 64 CHR ''a''))\<rparr>"

lemma settled_home_facts:
  "config_dir demo_host = Inr (Path True [''h'', ''.config'', ''folk-around''])"
  "dirs_ok (files settled_home) (path_ancestors (Path True [''h'', ''.config'', ''folk-around'']))"
  "files settled_home (path_join (Path True [''h'', ''.config'', ''folk-around'']) ''config'') = None"
  "files settled_home (path_join (Path True [''h'', ''.config'', ''folk-around'']) ''http-token'') =
     Some (Regular 384 (replicate 64 CHR ''a''))"
  "valid_http_bearer (replicate 64 CHR ''a'')"
proof -
  show "config_dir demo_host = Inr (Path True [''h'', ''.config'', ''folk-around''])" by code_simp
  show "dirs_ok (files settled_home) (path_ancestors (Path True [''h'', ''.config'', ''folk-around'']))"
    by (simp add: dirs_ok_def settled_home_def home_world_def path_ancestors_def upt_rec)
  show "files settled_home (path_join (Path True [''h'', ''.config'', ''folk-around'']) ''config'') = None"
    by code_simp
  show "files settled_home (path_join (Path True [''h'', ''.config'', ''folk-around'']) ''http-token'') =
     Some (Regular 384 (replicate 64 CHR ''a''))" by code_simp
  show "valid_http_bearer (replicate 64 CHR ''a'')" by code_simp
qed

text \<open>Starting does not depend on the JSON parser of the host.\<close>

definition parsing_host :: "(bytes \<Rightarrow> string + json) \<Rightarrow> host" where
  "parsing_host f = demo_host\<lparr>h_json_parse := f\<rparr>"

lemma parsing_host_facts:
  "config_dir (parsing_host f) = Inr (Path True [''h'', ''.config'', ''folk-around''])"
  "config_path (parsing_host f) = Inr (Path True [''h'', ''.config'', ''folk-around'', ''config''])"
  "h_fault (parsing_host f) k = None" "h_unix (parsing_host f)"
proof -
  have "config_dir (parsing_host f) = config_dir demo_host" "config_path (parsing_host f) = config_path demo_host"
    by (simp_all add: config_path_def config_dir_def parsing_host_def)
  moreover have "config_path demo_host = Inr (Path True [''h'', ''.config'', ''folk-around'', ''config''])"
    by code_simp
  ultimately show "config_dir (parsing_host f) = Inr (Path True [''h'', ''.config'', ''folk-around''])"
    "config_path (parsing_host f) = Inr (Path True [''h'', ''.config'', ''folk-around'', ''config''])"
    using settled_home_facts(1) by simp_all
  show "h_fault (parsing_host f) k = None" "h_unix (parsing_host f)"
    by (simp_all add: parsing_host_def demo_host_def)
qed

definition p2p_den :: "bool \<Rightarrow> string list" where
  "p2p_den verbose = (if verbose then [''--verbose''] else []) @ [''--p2p'', ''--room'', ''den'']"

lemma parsing_p2p_start:
  "\<exists>table w'. run (parsing_host f) (p2p_den verbose) settled_home =
     (Inr (Launch_P2p verbose table default_signal_url ''den'' 8080), w') \<and> world_extends settled_home w'"
proof -
  let ?c = "parse_args_from (p2p_den verbose)"
  have c: "?c = cli_default\<lparr>cl_verbose := verbose, cl_p2p := True, cl_room := Some ''den''\<rparr>"
    by (cases verbose) (simp_all add: p2p_den_def cli_default_def parse_args_from_def read_flags_drop switch_of_def option_of_def)
  have l: "load_config (parsing_host f) settled_home =
      (Inr default_config, settled_home\<lparr>io_ops := Suc (io_ops settled_home)\<rparr>)"
  proof -
    have n: "files settled_home (Path True [''h'', ''.config'', ''folk-around'', ''config'']) = None"
      by code_simp
    note nf = parsing_host_facts(3) [of f]
    have "max_symlinks = Suc 39" by (simp add: max_symlinks_def)
    with n nf have "fs_read (parsing_host f) (Path True [''h'', ''.config'', ''folk-around'', ''config'']) settled_home =
        (Inl err_not_found, settled_home\<lparr>io_ops := Suc (io_ops settled_home)\<rparr>)"
      by (simp add: fs_read_def bind_io_step_ok act_bind_Inr [where m = get_files] get_files_def fail_def)
    then show ?thesis
      by (simp add: load_config_def parsing_host_facts fs_read_to_string_def act_match_def act_bind_Inl err_not_found_def ret_def)
  qed
  let ?w = "settled_home\<lparr>io_ops := Suc (io_ops settled_home)\<rparr>"
  obtain table w2 where t: "(register_tools (parsing_host f) (table_new Full) :: (world, run_error, tool_table) act) ?w =
      (Inr table, w2)" "files w2 = files ?w"
    by (simp add: register_tools_def supports_semantic_action_def host_call_def act_match_def
        act_bind_def ret_def parsing_host_def demo_host_def Let_def)
  have m: "choose_mode ?c default_config = ''full''"
    by (simp add: c choose_mode_def or_else_def cli_default_def default_config_def)
  have "\<exists>w'. launch_p2p (parsing_host f) ?c default_config ''full'' table default_signal_url None w2 =
    (Inr (Launch_P2p (cl_verbose ?c) table default_signal_url ''den''
       (case None of None \<Rightarrow> 8080 | Some p \<Rightarrow> p)), w') \<and> world_extends w2 w'"
    using settled_home_facts t(2)
    by (intro launch_p2p_succeeds) (simp_all add: parsing_host_facts c or_else_def)
  moreover have "choose_transport ?c default_config = (Some default_signal_url, None)"
    by (simp add: c choose_transport_def or_else_def cli_default_def default_config_def)
  moreover have "cl_verbose ?c = verbose" by (simp add: c)
  ultimately obtain w' where "start_transport (parsing_host f) ?c default_config Full table w2 =
     (Inr (Launch_P2p verbose table default_signal_url ''den'' 8080), w')" and x: "world_extends w2 w'"
    using m by (auto simp: start_transport_def)
  then have "launch_server (parsing_host f) ?c default_config Full ?w =
     (Inr (Launch_P2p verbose table default_signal_url ''den'' 8080), w')"
    using t(1) by (simp add: launch_server_def act_bind_Inr)
  moreover have "world_extends settled_home w'" using x t(2) by (simp add: world_extends_def)
  moreover have "access_mode_parse ''full'' = Some Full" by (simp add: access_mode_parse_def)
  moreover have "\<not> cl_help ?c" "\<not> cl_version ?c" by (simp_all add: c cli_default_def)
  ultimately show ?thesis using l m by (auto simp: run_def Let_def act_bind_def act_map_err_def)
qed

lemma demo_p2p_start:
  "\<exists>table w'. run demo_host [''--p2p'', ''--room'', ''den''] settled_home =
     (Inr (Launch_P2p False table default_signal_url ''den'' 8080), w')"
proof -
  have "parsing_host (h_json_parse demo_host) = demo_host" by (simp add: parsing_host_def)
  with parsing_p2p_start [of "h_json_parse demo_host" False] show ?thesis by (auto simp: p2p_den_def)
qed

theorem p2p_restart_resumes_the_session_witness:
  "\<exists>w' saved w''. load_config demo_host w' = (Inr saved, w'') \<and>
     choose_transport (parse_args_from [''--p2p'']) saved = (Some default_signal_url, Some 8080) \<and>
     choose_room demo_host (parse_args_from [''--p2p'']) saved w'' =
       (Inr ''den'' :: run_error + string, w'')"
proof -
  obtain table w' where r: "run demo_host [''--p2p'', ''--room'', ''den''] settled_home =
     (Inr (Launch_P2p False table default_signal_url ''den'' 8080), w')"
    using demo_p2p_start by blast
  have "value_ok default_signal_url" "utf8_valid default_signal_url" "value_ok ''den''" "utf8_valid ''den''"
    by code_simp+
  moreover have "h_fault demo_host (io_ops w') = None" "h_unix demo_host" by (simp_all add: demo_host_def)
  ultimately show ?thesis using p2p_restart_resumes_the_session [OF r] growth.rel_refl by blast
qed

end
