(* ===== verification/Access_Modes.thy ===== *)
theory Access_Modes
  imports Tools_Access Stdio Relay
begin

text \<open>
  The two restricted access modes: every handler that is registered, and with it the server on
  each of its transports, behaves in the limited mode as in the sandbox mode.
\<close>

section \<open>Handlers\<close>

named_theorems same_when_restricted "operations that do not tell the restricted modes apart"

lemma checks_restricted [same_when_restricted]:
  "ensure_mutation Limited = ensure_mutation Sandbox"
  "ensure_safe_focus_or_full Limited a = ensure_safe_focus_or_full Sandbox a"
  by (simp_all add: ensure_mutation_def ensure_safe_focus_or_full_def)

lemma host_handlers_restricted [same_when_restricted]:
  "shell H args Limited = shell H args Sandbox"
  "list_apps H Limited = list_apps H Sandbox"
  "spawn_command H args Limited = spawn_command H args Sandbox"
  "clipboard_write H args Limited = clipboard_write H args Sandbox"
  "permissions H args Limited = permissions H args Sandbox"
  by (simp_all add: shell_def list_apps_def spawn_command_def clipboard_write_def permissions_def
      same_when_restricted)

lemma semantic_handlers_restricted [same_when_restricted]:
  "click H args Limited = click H args Sandbox"
  "set_value H args Limited = set_value H args Sandbox"
  by (simp_all add: click_def set_value_def execute_click_def execute_set_value_def
      same_when_restricted)

lemma execute_move_restricted [same_when_restricted]: "execute_move Limited = execute_move Sandbox"
  by (simp add: execute_move_def same_when_restricted fun_eq_iff)

lemma input_handlers_restricted [same_when_restricted]:
  "press H args Limited = press H args Sandbox"
  "type_text H args Limited = type_text H args Sandbox"
  "paste H args Limited = paste H args Sandbox"
  "hotkey H args Limited = hotkey H args Sandbox"
  "scroll H args Limited = scroll H args Sandbox"
  "swipe args Limited = swipe args Sandbox"
  "drag args Limited = drag args Sandbox"
  "move_pointer H args Limited = move_pointer H args Sandbox"
  by (simp_all add: press_def type_text_def paste_def hotkey_def scroll_def swipe_def drag_def
      move_pointer_def move_pointer_with_adapter_def same_when_restricted cong: option.case_cong)

lemma control_handlers_restricted [same_when_restricted]:
  "perform_action H args Limited = perform_action H args Sandbox"
  "window H args Limited = window H args Sandbox"
  "app_tool H args Limited = app_tool H args Sandbox"
  "open_target H args Limited = open_target H args Sandbox"
  "menu H args Limited = menu H args Sandbox"
  "clean H args Limited = clean H args Sandbox"
  by (simp_all add: perform_action_def window_def app_tool_def open_target_def menu_def clean_def
      same_when_restricted cong: if_cong)

lemma entries_restricted:
  "(n, d, s, f) \<in> set (all_entries H) \<Longrightarrow> f args Limited = f args Sandbox"
  by (auto simp: all_entries_def entries_defs same_when_restricted)

section \<open>Messages\<close>

lemma tools_restricted:
  "t \<in> set (table_tools (tools_of H mode c v)) \<Longrightarrow>
     tool_handler t args Limited = tool_handler t args Sandbox"
  using entries_restricted by (fastforce simp: tools_of_tools entry_tool_def split: prod.splits)

lemma call_first_cong:
  assumes "\<And>t. t \<in> set ts \<Longrightarrow> tool_handler t args mode = tool_handler t args mode'"
  shows "call_first ts mode name args = call_first ts mode' name args"
  using assms by (induction ts) auto

lemma table_call_restricted:
  "table_call (tools_of H Limited c v) = table_call (tools_of H Sandbox c v)"
proof (intro ext)
  fix name args w
  have "call_first (table_tools (tools_of H Limited c v)) Limited name args w =
      call_first (table_tools (tools_of H Limited c v)) Sandbox name args w"
    by (rule fun_cong [OF call_first_cong]) (rule tools_restricted)
  then show "table_call (tools_of H Limited c v) name args w =
      table_call (tools_of H Sandbox c v) name args w"
    by (simp add: table_call_def tools_of_tools)
qed

definition same_service :: "host \<Rightarrow> tool_table \<Rightarrow> tool_table \<Rightarrow> bool" where
  "same_service H t t' \<longleftrightarrow> (\<forall>verbose. handle_message H verbose t = handle_message H verbose t')"

lemma restricted_service: "same_service H (tools_of H Limited c v) (tools_of H Sandbox c v)"
  unfolding same_service_def fun_eq_iff handle_message_def dispatch_method_def
    handle_tools_call_def table_call_restricted tools_list_result_def tools_of_tools
  by simp

section \<open>Transports\<close>

lemma serve_body_same: "same_service H t t' \<Longrightarrow> serve_body H verbose t = serve_body H verbose t'"
proof -
  assume "same_service H t t'"
  then have h: "handle_message H verbose t = handle_message H verbose t'" for verbose
    by (simp add: same_service_def)
  show ?thesis unfolding serve_body_def h ..
qed

lemma run_stdio_same: "same_service H t t' \<Longrightarrow> run_stdio H verbose t p = run_stdio H verbose t' p"
proof (induction H verbose t p rule: run_stdio.induct)
  case (1 H verbose t p)
  note b = serve_body_same [OF 1(2), of verbose]
  show ?case
    using 1 by (subst (1 2) run_stdio.simps) (auto simp: b split: sum.split prod.split option.split)
qed

lemma http_client_same:
  "same_service H t t' \<Longrightarrow> handle_http_client H verbose t = handle_http_client H verbose t'"
proof -
  assume "same_service H t t'"
  then have h: "handle_message H verbose t = handle_message H verbose t'" for verbose
    by (simp add: same_service_def)
  have p: "handle_http_post H verbose t = handle_http_post H verbose t'"
    unfolding fun_eq_iff handle_http_post_def h by simp
  show ?thesis unfolding fun_eq_iff handle_http_client_def route_def p by simp
qed

text \<open>
  For the relay the table is part of the manager: an action and its like on another table do the same,
  except that each leaves its own table in place.
\<close>

definition with_table :: "tool_table \<Rightarrow> p2p_manager \<Rightarrow> p2p_manager" where
  "with_table t m = m\<lparr>pm_table := t\<rparr>"

definition relay_with :: "tool_table \<Rightarrow> relay \<Rightarrow> relay" where
  "relay_with t r = r\<lparr>r_manager := with_table t (r_manager r)\<rparr>"

definition alike :: "tool_table \<Rightarrow> tool_table \<Rightarrow> (relay, 'e, 'a) act \<Rightarrow> (relay, 'e, 'a) act \<Rightarrow> bool" where
  "alike t t' f g \<longleftrightarrow>
     (\<forall>r. pm_table (r_manager r) = t \<longrightarrow>
        g (relay_with t' r) = (fst (f r), relay_with t' (snd (f r))) \<and>
        pm_table (r_manager (snd (f r))) = t)"

lemma with_table_fields [simp]:
  "pm_verbose (with_table t m) = pm_verbose m" "pm_public (with_table t m) = pm_public m"
  "pm_secret (with_table t m) = pm_secret m" "pm_signal_url (with_table t m) = pm_signal_url m"
  "pm_room (with_table t m) = pm_room m" "pm_sessions (with_table t m) = pm_sessions m"
  "pm_table (with_table t m) = t"
  by (simp_all add: with_table_def)

named_theorems alike_intros "actions that do the same for two tables"

lemma alike_bind [alike_intros]:
  assumes "alike t t' f g" and "\<And>x. alike t t' (k x) (k' x)"
  shows "alike t t' (act_bind f k) (act_bind g k')"
  using assms unfolding alike_def act_bind_def
  by (fastforce split: prod.splits sum.splits)

lemma alike_manager [alike_intros]:
  assumes "\<And>m. pm_table m = t \<Longrightarrow> alike t t' (k m) (k' (with_table t' m))"
  shows "alike t t' (act_bind get_manager k) (act_bind get_manager k')"
  using assms unfolding alike_def by (simp add: act_bind_def get_manager_def relay_with_def)

lemma alike_values [alike_intros]:
  "alike t t' (ret x) (ret x)" "alike t t' (fail e) (fail e)" "alike t t' (lift_res v) (lift_res v)"
  by (simp_all add: alike_def ret_def fail_def lift_res_def)

lemma alike_effects [alike_intros]:
  "alike t t' (on_world f) (on_world f)" "alike t t' (ws_send C msg) (ws_send C msg)"
  "alike t t' (ws_connect C url key) (ws_connect C url key)"
  "alike t t' (put_session peer s) (put_session peer s)"
  by (auto simp: alike_def on_world_def ws_send_def ws_connect_def put_session_def relay_with_def
      with_table_def split: option.splits prod.splits)

lemma alike_map_err [alike_intros]: "alike t t' f g \<Longrightarrow> alike t t' (act_map_err h f) (act_map_err h g)"
  by (auto simp: alike_def act_map_err_def case_prod_beta)

lemma alike_map [alike_intros]: "alike t t' f g \<Longrightarrow> alike t t' (act_map h f) (act_map h g)"
  unfolding act_map_def by (intro alike_intros)

lemma alike_if [alike_intros]:
  "(b \<Longrightarrow> alike t t' f g) \<Longrightarrow> (\<not> b \<Longrightarrow> alike t t' f' g') \<Longrightarrow>
     alike t t' (if b then f else f') (if b then g else g')"
  by simp

lemma alike_option [alike_intros]:
  "alike t t' f g \<Longrightarrow> (\<And>x. alike t t' (k x) (k' x)) \<Longrightarrow>
     alike t t' (case v of None \<Rightarrow> f | Some x \<Rightarrow> k x) (case v of None \<Rightarrow> g | Some x \<Rightarrow> k' x)"
  by (simp split: option.split)

lemma alike_say [alike_intros]:
  "alike t t' (relay_say H m s) (relay_say H (with_table t' m) s)"
  "alike t t' (relay_say H m s) (relay_say H m s)"
  by (simp_all add: relay_say_def alike_intros)

lemma alike_json [alike_intros]: "alike t t' (ws_send_json H C v) (ws_send_json H C v)"
  unfolding ws_send_json_def by (intro alike_intros)

lemma alike_offer [alike_intros]: "alike t t' (send_offer H C peer) (send_offer H C peer)"
  unfolding send_offer_def by (auto intro!: alike_intros)

lemma alike_answer [alike_intros]: "alike t t' (send_answer H C peer) (send_answer H C peer)"
  unfolding send_answer_def by (auto intro!: alike_intros)

lemma alike_offers [alike_intros]: "alike t t' (send_offers H C vs) (send_offers H C vs)"
  by (induction vs) (auto intro!: alike_intros split: option.split)

lemma alike_establish [alike_intros]:
  "alike t t' (establish_session C peer) (establish_session C peer)"
  unfolding establish_session_def negotiated_key_def
  by (auto intro!: alike_intros split: option.split)

lemma alike_decrypt [alike_intros]:
  "alike t t' (decrypt_relay_data H C from' data) (decrypt_relay_data H C from' data)"
  unfolding decrypt_relay_data_def open_payload_def
  by (auto intro!: alike_intros split: prod.split)

lemma alike_encrypt [alike_intros]:
  "alike t t' (encrypt_relay_payload H C peer b) (encrypt_relay_payload H C peer b)"
  unfolding encrypt_relay_payload_def by (auto intro!: alike_intros)

lemma alike_request [alike_intros]:
  assumes "same_service H t t'"
  shows "alike t t' (relay_request H C from' text) (relay_request H C from' text)"
proof -
  have h: "handle_message H verbose t' = handle_message H verbose t" for verbose
    using assms by (simp add: same_service_def)
  show ?thesis
    unfolding relay_request_def by (auto intro!: alike_intros simp: h split: option.split)
qed

lemma alike_relay [alike_intros]:
  "same_service H t t' \<Longrightarrow> alike t t' (handle_relay H C parsed) (handle_relay H C parsed)"
  unfolding handle_relay_def ensure_relay_sender_def
  by (auto intro!: alike_intros split: prod.split)

lemma alike_dispatch [alike_intros]:
  "same_service H t t' \<Longrightarrow> alike t t' (dispatch_signal H C parsed) (dispatch_signal H C parsed)"
  unfolding dispatch_signal_def Let_def by (intro alike_intros)

lemma alike_signal [alike_intros]:
  "same_service H t t' \<Longrightarrow> alike t t' (handle_signal_message H C raw) (handle_signal_message H C raw)"
  unfolding handle_signal_message_def by (intro alike_intros)

lemma alike_ws [alike_intros]:
  "same_service H t t' \<Longrightarrow> alike t t' (handle_ws H C msg) (handle_ws H C msg)"
  by (cases "(H, C, msg)" rule: handle_ws.cases) (auto intro!: alike_intros split: option.split)

lemma alike_loop [alike_intros]:
  "same_service H t t' \<Longrightarrow> alike t t' (signal_loop H C reads) (signal_loop H C reads)"
  by (induction H C reads rule: signal_loop.induct) (auto intro!: alike_intros)

lemma alike_join [alike_intros]:
  "same_service H t t' \<Longrightarrow> alike t t' (join_signal_room H C) (join_signal_room H C)"
  unfolding join_signal_room_def Let_def by (auto intro!: alike_intros)

lemma alikeD:
  "alike t t' f f \<Longrightarrow> pm_table (r_manager r) = t \<Longrightarrow> f r = (v, r1) \<Longrightarrow>
     f (relay_with t' r) = (v, relay_with t' r1) \<and> pm_table (r_manager r1) = t"
  unfolding alike_def by (metis fst_conv snd_conv)

lemma round_alike:
  assumes "same_service H t t'" and "pm_table (r_manager r) = t"
  shows "p2p_round H C show_error (relay_with t' r) = relay_with t' (p2p_round H C show_error r) \<and>
    pm_table (r_manager (p2p_round H C show_error r)) = t"
proof -
  obtain v r1 where j: "join_signal_room H C r = (v, r1)" by (cases "join_signal_room H C r")
  note a = alikeD [OF alike_join [OF assms(1)] assms(2) j]
  have l: "relay_say H m s (relay_with t' r1) = (fst (relay_say H m s r1), relay_with t' (snd (relay_say H m s r1))) \<and>
      pm_table (r_manager (snd (relay_say H m s r1))) = t" for m s
    using alike_say(2) [of t t' H m s] a by (simp add: alike_def)
  have m: "relay_say H (with_table t' m) s = relay_say H m s" for m s by (simp add: relay_say_def)
  have "r_manager (relay_with t' r1) = with_table t' (r_manager r1)" by (simp add: relay_with_def)
  with a j l m show ?thesis by (cases v) (auto simp: p2p_round_def)
qed

lemma rounds_alike:
  assumes "same_service H t t'" and "pm_table (r_manager r) = t"
  shows "p2p_rounds n H C show_error (relay_with t' r) = relay_with t' (p2p_rounds n H C show_error r)"
  using assms by (induction n arbitrary: r) (simp_all add: round_alike)

text \<open>
  C37. The limited and the sandbox mode are one mode: a server answers every message and does the
  same to the host in either, and with it every session on standard input and output, every HTTP
  connection and every run of the relay thread goes the same way.
\<close>

theorem limited_and_sandbox_are_one_mode:
  "handle_message H verbose (tools_of H Limited c v) = handle_message H verbose (tools_of H Sandbox c v) \<and>
    run_stdio H verbose (tools_of H Limited c v) p = run_stdio H verbose (tools_of H Sandbox c v) p \<and>
    handle_http_client H verbose (tools_of H Limited c v) bearer conn =
      handle_http_client H verbose (tools_of H Sandbox c v) bearer conn \<and>
    p2p_rounds n H C show_error (relay_with (tools_of H Sandbox c v) r) =
      relay_with (tools_of H Sandbox c v) (p2p_rounds n H C show_error (relay_with (tools_of H Limited c v) r))"
proof -
  note same = restricted_service [of H c v]
  have "relay_with (tools_of H Sandbox c v) (relay_with (tools_of H Limited c v) r) = relay_with (tools_of H Sandbox c v) r"
    "pm_table (r_manager (relay_with (tools_of H Limited c v) r)) = tools_of H Limited c v"
    by (simp_all add: relay_with_def with_table_def)
  then show ?thesis
    using same run_stdio_same [OF same] http_client_same [OF same]
      rounds_alike [OF same, of "relay_with (tools_of H Limited c v) r"]
    by (simp add: same_service_def)
qed

end
