(* ===== verification/Tool_Results.thy ===== *)
theory Tool_Results
  imports Tools_Access
begin

text \<open>
  What a tool call gives back, whatever the tool, its arguments, the access mode and the host: an MCP tool
  result. \<open>gives P m\<close> says that the value of the action \<open>m\<close>, if it has one, satisfies \<open>P\<close>; \<open>flatten\<close> makes
  an error of a tool a result too.
\<close>

named_theorems gives_intros "rules for the values of actions"

section \<open>Tool results\<close>

text \<open>A text item of the content, as the constructors of \<open>folk-mcp\<close> write it.\<close>

definition text_item :: "json \<Rightarrow> bool" where
  "text_item v \<longleftrightarrow>
     jget v ''type'' = Some (Str ''text'') \<and> (case jget v ''text'' of Some (Str _) \<Rightarrow> True | _ \<Rightarrow> False)"

text \<open>
  \<open>CallToolResult\<close> of the Model Context Protocol, as far as the program uses it: the content is a list of text
  items, at least one; \<open>isError\<close> is a boolean and \<open>structuredContent\<close> an object, where they are present.
\<close>

definition tool_result :: "json \<Rightarrow> bool" where
  "tool_result v \<longleftrightarrow>
     (case jget v ''content'' of Some (Array items) \<Rightarrow> items \<noteq> [] \<and> list_all text_item items | _ \<Rightarrow> False) \<and>
     (case jget v ''isError'' of None \<Rightarrow> True | Some (Bool _) \<Rightarrow> True | _ \<Rightarrow> False) \<and>
     (case jget v ''structuredContent'' of None \<Rightarrow> True | Some (Object _) \<Rightarrow> True | _ \<Rightarrow> False)"

lemma text_result_ok [simp]: "tool_result (text_result t)"
  by (simp add: tool_result_def text_item_def text_result_def)

lemma json_text_result_ok [simp]: "tool_result (json_text_result H v)"
  by (simp add: json_text_result_def)

lemma jget_json_set: "jget (json_set k v (jobj kvs)) k' = (if k' = k then Some v else jget (jobj kvs) k')"
  by (simp add: jobj_def object_map.get_put)

lemma err_result_ok [simp]: "tool_result (err_result t)"
proof -
  have "err_result t = json_set ''isError'' (Bool True) (text_result t)"
    by (simp add: err_result_def text_result_def jobj_def)
  then show ?thesis by (simp add: tool_result_def text_item_def text_result_def jget_json_set)
qed

section \<open>The values of actions\<close>

definition gives :: "('a \<Rightarrow> bool) \<Rightarrow> ('s, 'e, 'a) act \<Rightarrow> bool" where
  "gives P m \<longleftrightarrow> (\<forall>s x t. m s = (Inr x, t) \<longrightarrow> P x)"

definition always :: "('a \<Rightarrow> bool) \<Rightarrow> ('s, 'e, 'a) act \<Rightarrow> bool" where
  "always P m \<longleftrightarrow> (\<forall>s. \<exists>x t. m s = (Inr x, t) \<and> P x)"

lemma gives_ret [gives_intros]: "P x \<Longrightarrow> gives P (ret x)"
  by (simp add: gives_def ret_def)

lemma gives_fail [gives_intros]: "gives P (fail e)"
  by (simp add: gives_def fail_def)

lemma gives_bind [gives_intros]: "(\<And>x. gives P (f x)) \<Longrightarrow> gives P (act_bind m f)"
  by (auto simp: gives_def act_bind_def split: prod.splits sum.splits)

lemma gives_match [gives_intros]:
  "(\<And>x. gives P (f x)) \<Longrightarrow> (\<And>e. gives P (g e)) \<Longrightarrow> gives P (act_match m f g)"
  by (auto simp: gives_def act_match_def split: prod.splits sum.splits)

lemma gives_lift_res: "(\<And>x. r = Inr x \<Longrightarrow> P x) \<Longrightarrow> gives P (lift_res r)"
  by (simp add: gives_def lift_res_def)

lemma always_ret [gives_intros]: "P x \<Longrightarrow> always P (ret x)"
  by (simp add: always_def ret_def)

lemma always_flatten [gives_intros]:
  assumes "gives tool_result m"
  shows "always tool_result (flatten m)"
  unfolding always_def
proof
  fix s
  obtain r t where "m s = (r, t)" by (cases "m s")
  with assms show "\<exists>x t. flatten m s = (Inr x, t) \<and> tool_result x"
    by (cases r) (auto simp: flatten_def act_match_def ret_def gives_def)
qed

lemma always_match:
  assumes "always P m"
  shows "always P (act_match m ret g)"
  unfolding always_def
proof
  fix s
  from assms obtain x t where "m s = (Inr x, t)" "P x" unfolding always_def by blast
  then show "\<exists>x t. act_match m ret g s = (Inr x, t) \<and> P x" by (simp add: act_match_def ret_def)
qed

section \<open>The handlers\<close>

lemma gives_image_result [gives_intros]: "gives tool_result (image_result H (jobj kvs) capture locator)"
  unfolding image_result_def Let_def
  by (auto intro!: gives_intros simp: jobj_def [of kvs] tool_result_def text_item_def)

lemma gives_semantic [gives_intros]:
  "gives tool_result (execute_semantic H a target operation_id deadline imode)"
  unfolding execute_semantic_def
  by (auto intro!: gives_intros gives_lift_res simp: report_result_def res_bind_eq_Inr split: prod.split)

lemma gives_executions [gives_intros]:
  "gives tool_result (execute_click H mode operation_id observation_id tag imode)"
  "gives tool_result (execute_set_value H mode operation_id observation_id tag value imode)"
  unfolding execute_click_def execute_set_value_def
  by (auto intro!: gives_intros split: prod.split)

lemma gives_move_cursor [gives_intros]: "gives tool_result (move_cursor H target)"
  unfolding move_cursor_def by (intro gives_intros) simp

lemma always_list_apps [gives_intros]: "always tool_result (list_apps H mode)"
  unfolding list_apps_def Let_def by (intro gives_intros) simp

lemma move_never_answers: "execute_move mode x y s \<noteq> (Inr r, t)"
  by (auto simp: execute_move_def act_bind_def fail_def lift_res_def split: sum.split)

lemma gives_after_move [gives_intros]: "gives P (act_bind (execute_move mode x y) f)"
  by (auto simp: gives_def act_bind_def move_never_answers split: prod.splits sum.splits)

lemmas handler_defs = shell_def system_info_def spawn_command_def image_def see_def list_screens_def
  clipboard_read_def clipboard_write_def permissions_def doctor_def screen_capture_def ui_snapshot_def
  click_def press_def type_text_def paste_def hotkey_def scroll_def swipe_def drag_def move_pointer_def
  move_pointer_with_adapter_def set_value_def perform_action_def window_def app_tool_def open_target_def
  menu_def clean_def

lemma always_sleep: "always tool_result (sleep H args)"
  by (simp add: always_def sleep_def host_call_def act_bind_def ret_def Let_def)

lemma handlers_give:
  "always tool_result (shell H args mode)" 
  "always tool_result (system_info H)"
  "always tool_result (spawn_command H args mode)"
  "always tool_result (image H args)"
  "always tool_result (see H args)"
  "always tool_result (list_screens H)"
  "always tool_result (clipboard_read H)"
  "always tool_result (clipboard_write H args mode)"
  "always tool_result (permissions H args mode)"
  "always tool_result (doctor H)"
  "always tool_result (screen_capture H args)"
  "always tool_result (ui_snapshot H)"
  "always tool_result (click H args mode)"
  "always tool_result (press H args mode)"
  "always tool_result (type_text H args mode)"
  "always tool_result (paste H args mode)"
  "always tool_result (hotkey H args mode)"
  "always tool_result (scroll H args mode)"
  "always tool_result (swipe args mode)"
  "always tool_result (drag args mode)"
  "always tool_result (move_pointer H args mode)"
  "always tool_result (set_value H args mode)"
  "always tool_result (perform_action H args mode)"
  "always tool_result (window H args mode)"
  "always tool_result (app_tool H args mode)"
  "always tool_result (open_target H args mode)"
  "always tool_result (menu H args mode)"
  "always tool_result (clean H args mode)"
  unfolding handler_defs Let_def
  by (auto intro!: gives_intros split: option.split prod.split)

section \<open>The calls\<close>

lemma entries_give:
  assumes "e \<in> set (all_entries H)"
  shows "always tool_result (tool_handler (entry_tool e) args mode)"
proof -
  have "list_all (\<lambda>e. always tool_result (snd (snd (snd e)) args mode)) (all_entries H)"
    by (simp add: all_entries_def entries_defs handlers_give always_list_apps always_sleep)
  with assms show ?thesis by (auto simp: list_all_iff entry_tool_def split: prod.split)
qed

lemma call_first_gives:
  assumes "\<And>t. t \<in> set ts \<Longrightarrow> always tool_result (tool_handler t args mode)"
  shows "always tool_result (call_first ts mode name args)"
  using assms
proof (induction ts)
  case Nil
  then show ?case by (simp add: always_def ret_def)
next
  case (Cons t ts)
  have h: "always tool_result (tool_handler t args mode)" using Cons.prems by simp
  from Cons show ?case by (simp add: always_match [OF h])
qed

text \<open>
  C36. Every tool call is answered with an MCP tool result: for every table that the server serves, whatever the
  name, the arguments, the access mode and the host (each error and each blocked call included), the call
  returns, and its value is an object with a nonempty list of text items as its content, an \<open>isError\<close> that is a boolean if it
  is there, and a \<open>structuredContent\<close> that is an object if it is there.
\<close>

theorem tool_results_are_well_formed:
  "\<exists>r w'. (table_call (tools_of H mode c v) name args :: (world, string, json) act) w = (Inr r, w') \<and>
     tool_result r"
proof -
  have "always tool_result (tool_handler t args (table_mode (tools_of H mode c v)))"
    if "t \<in> set (table_tools (tools_of H mode c v))" for t
    using that entries_give by (auto simp: tools_of_tools)
  then have "always tool_result (table_call (tools_of H mode c v) name args :: (world, string, json) act)"
    unfolding table_call_def by (rule call_first_gives)
  then show ?thesis by (simp add: always_def)
qed

end
