(* ===== verification/Sse_Stream.thy ===== *)
theory Sse_Stream
  imports Sse
begin

text \<open>
  The event streams of \<open>folk-transport\<close>: what \<open>send_sse\<close> does on one connection, in sequence, with the
  slot counter passed through, and how it is related to the threads of the theory \<open>Sse\<close>. The endless
  loop of keep-alive messages is followed for \<open>n\<close> rounds; the pause of fifteen seconds before each has
  no effect on the state. \<open>serve_connection\<close> is a connection from its first byte to its last.
\<close>

section \<open>Slots\<close>

definition acquire_sse_slot :: "32 word \<Rightarrow> bool \<times> 32 word" where
  "acquire_sse_slot clients =
     (let prev = clients; clients = clients + 1
      in if unat prev \<ge> max_sse_clients then (False, clients - 1) else (True, clients))"

definition release_sse_slot :: "32 word \<Rightarrow> 32 word" where
  "release_sse_slot clients = clients - 1"

section \<open>The stream\<close>

definition sse_head :: bytes where
  "sse_head =
     ''HTTP/1.1 200 OK'' @ crlf @ ''content-type: text/event-stream'' @ crlf @
     ''connection: keep-alive'' @ crlf @ crlf"

definition sse_endpoint :: bytes where
  "sse_endpoint = ''event: endpoint'' @ [CHR 0x0A] @ ''data: /message'' @ [CHR 0x0A, CHR 0x0A]"

definition sse_keepalive :: bytes where
  "sse_keepalive = '': keepalive'' @ [CHR 0x0A, CHR 0x0A]"

text \<open>The loop: \<open>True\<close> after \<open>n\<close> rounds without an error, \<open>False\<close> once the client has gone.\<close>

fun sse_keepalives :: "nat \<Rightarrow> bool conn_act" where
  "sse_keepalives 0 = ret True"
| "sse_keepalives (Suc n) =
     act_match (sock_write sse_keepalive)
       (\<lambda>_. act_match sock_op (\<lambda>_. sse_keepalives n) (\<lambda>_. ret False))
       (\<lambda>_. ret False)"

definition send_sse_inner :: "nat \<Rightarrow> bool conn_act" where
  "send_sse_inner n =
     act_bind (sock_write sse_head) (\<lambda>_.
     act_bind (sock_write sse_endpoint) (\<lambda>_.
     act_bind sock_op (\<lambda>_.
     sse_keepalives n)))"

definition too_many_clients :: http_response where
  "too_many_clients = plain 503 ''Service Unavailable'' ''too many sse clients''"

text \<open>The result says whether the stream is still open after \<open>n\<close> rounds; then the slot is still held.\<close>

definition send_sse ::
  "nat \<Rightarrow> 32 word \<Rightarrow> conn \<Rightarrow> (transport_error + bool) \<times> 32 word \<times> conn" where
  "send_sse n clients c =
     (case acquire_sse_slot clients of
        (False, clients') \<Rightarrow>
          (case act_map (\<lambda>_. False) (send_response too_many_clients) c of
             (r, c') \<Rightarrow> (r, clients', c'))
      | (True, clients') \<Rightarrow>
          (case send_sse_inner n c of
             (Inr True, c') \<Rightarrow> (Inr True, clients', c')
           | (result, c') \<Rightarrow> (result, release_sse_slot clients', c')))"

definition serve_connection ::
  "nat \<Rightarrow> host \<Rightarrow> bool \<Rightarrow> tool_table \<Rightarrow> string \<Rightarrow> 32 word \<Rightarrow> conn \<Rightarrow>
   (transport_error + bool) \<times> 32 word \<times> conn" where
  "serve_connection n H verbose table bearer clients c =
     (case handle_http_client H verbose table bearer c of
        (Inr Streaming, c') \<Rightarrow> send_sse n clients c'
      | (Inr Finished, c') \<Rightarrow> (Inr False, clients, c')
      | (Inl e, c') \<Rightarrow> (Inl e, clients, c'))"

section \<open>What a client of the stream receives\<close>

lemma sock_write_cases:
  "sock_write bs c = (Inr (), c\<lparr>c_ops := Suc (c_ops c), c_sent := c_sent c @ bs\<rparr>) \<or>
   (\<exists>e. sock_write bs c = (Inl e, c\<lparr>c_ops := Suc (c_ops c)\<rparr>))"
  by (simp add: sock_write_def sock_op_def act_bind_def split: option.split)

lemma sock_op_cases:
  "sock_op c = (Inr (), c\<lparr>c_ops := Suc (c_ops c)\<rparr>) \<or>
   (\<exists>e. sock_op c = (Inl e, c\<lparr>c_ops := Suc (c_ops c)\<rparr>))"
  by (simp add: sock_op_def split: option.split)

lemma keepalives_sent:
  "\<exists>r c' k. sse_keepalives n c = (Inr r, c') \<and> k \<le> n \<and> (r \<longrightarrow> k = n) \<and>
     c_sent c' = c_sent c @ concat (replicate k sse_keepalive) \<and> c_world c' = c_world c"
proof (induction n arbitrary: c)
  case (Suc n)
  let ?c = "c\<lparr>c_ops := Suc (c_ops c), c_sent := c_sent c @ sse_keepalive\<rparr>"
  let ?d = "?c\<lparr>c_ops := Suc (c_ops ?c)\<rparr>"
  from sock_write_cases [of sse_keepalive c] show ?case
  proof
    assume w: "sock_write sse_keepalive c = (Inr (), ?c)"
    from sock_op_cases [of ?c] show ?thesis
    proof
      assume o: "sock_op ?c = (Inr (), ?d)"
      from Suc.IH [of ?d] obtain r c' k where "sse_keepalives n ?d = (Inr r, c')" "k \<le> n"
        "r \<longrightarrow> k = n" "c_sent c' = c_sent ?d @ concat (replicate k sse_keepalive)"
        "c_world c' = c_world ?d" by blast
      with w o show ?thesis
        by (intro exI [of _ r] exI [of _ c'] exI [of _ "Suc k"]) (simp add: act_match_def)
    next
      assume "\<exists>e. sock_op ?c = (Inl e, ?d)"
      then show ?thesis
        using w by (intro exI [of _ False] exI [of _ ?d] exI [of _ 1]) (auto simp: act_match_def ret_def)
    qed
  next
    assume "\<exists>e. sock_write sse_keepalive c = (Inl e, c\<lparr>c_ops := Suc (c_ops c)\<rparr>)"
    then show ?thesis
      by (intro exI [of _ False] exI [of _ "c\<lparr>c_ops := Suc (c_ops c)\<rparr>"] exI [of _ 0])
         (auto simp: act_match_def ret_def)
  qed
qed (simp add: ret_def, blast)

definition sse_stream :: "nat \<Rightarrow> bytes" where
  "sse_stream k = sse_head @ sse_endpoint @ concat (replicate k sse_keepalive)"

lemma send_sse_inner_sent:
  "\<exists>r c' k. send_sse_inner n c = (r, c') \<and> k \<le> n \<and> prefix (c_sent c') (c_sent c @ sse_stream k) \<and>
     (r = Inr True \<longrightarrow> c_sent c' = c_sent c @ sse_stream n) \<and> c_world c' = c_world c"
proof -
  let ?c1 = "c\<lparr>c_ops := Suc (c_ops c), c_sent := c_sent c @ sse_head\<rparr>"
  let ?c2 = "?c1\<lparr>c_ops := Suc (c_ops ?c1), c_sent := c_sent ?c1 @ sse_endpoint\<rparr>"
  let ?c3 = "?c2\<lparr>c_ops := Suc (c_ops ?c2)\<rparr>"
  have p: "prefix (c_sent c) (c_sent c @ sse_stream k)"
    "prefix (c_sent c @ sse_head) (c_sent c @ sse_stream k)"
    "prefix (c_sent c @ sse_head @ sse_endpoint) (c_sent c @ sse_stream k)" for k
    by (simp_all add: sse_stream_def)
  consider (head) e where "sock_write sse_head c = (Inl e, c\<lparr>c_ops := Suc (c_ops c)\<rparr>)"
    | (endpoint) e where "sock_write sse_head c = (Inr (), ?c1)"
        "sock_write sse_endpoint ?c1 = (Inl e, ?c1\<lparr>c_ops := Suc (c_ops ?c1)\<rparr>)"
    | (flush) e where "sock_write sse_head c = (Inr (), ?c1)" "sock_write sse_endpoint ?c1 = (Inr (), ?c2)"
        "sock_op ?c2 = (Inl e, ?c3)"
    | (all) "sock_write sse_head c = (Inr (), ?c1)" "sock_write sse_endpoint ?c1 = (Inr (), ?c2)"
        "sock_op ?c2 = (Inr (), ?c3)"
    using sock_write_cases [of sse_head c] sock_write_cases [of sse_endpoint ?c1] sock_op_cases [of ?c2]
    by blast
  then show ?thesis
  proof cases
    case head
    then show ?thesis using p by (auto simp: send_sse_inner_def act_bind_Inl)
  next
    case endpoint
    then show ?thesis using p by (auto simp: send_sse_inner_def act_bind_Inr act_bind_Inl)
  next
    case flush
    then show ?thesis using p by (auto simp: send_sse_inner_def act_bind_Inr act_bind_Inl)
  next
    case all
    from keepalives_sent [of n ?c3] obtain r c' k where "sse_keepalives n ?c3 = (Inr r, c')" "k \<le> n"
      "r \<longrightarrow> k = n" "c_sent c' = c_sent ?c3 @ concat (replicate k sse_keepalive)"
      "c_world c' = c_world ?c3" by blast
    moreover from this have "c_sent c' = c_sent c @ sse_stream k" by (simp add: sse_stream_def)
    ultimately show ?thesis
      using all by (intro exI [of _ "Inr r"] exI [of _ c'] exI [of _ k])
        (auto simp: send_sse_inner_def act_bind_Inr sse_stream_def)
  qed
qed

lemma send_response_sent:
  "prefix (c_sent (snd (send_response resp c))) (c_sent c @ response_bytes resp @ rs_body resp)"
  using sock_write_cases [of "response_bytes resp" c]
  by (auto simp: send_response_def sock_write_def sock_op_def act_bind_def split: option.split)

lemma acquire_release [simp]: "release_sse_slot (clients + 1) = clients"
  by (simp add: release_sse_slot_def)

lemma sse_stream_facts:
  assumes "send_sse n clients c = (r, clients', c')"
  shows "c_world c' = c_world c \<and>
    (if unat clients < 32
     then clients' = (if r = Inr True then clients + 1 else clients) \<and>
       (\<exists>k \<le> n. prefix (c_sent c') (c_sent c @ sse_stream k)) \<and>
       (r = Inr True \<longrightarrow> c_sent c' = c_sent c @ sse_stream n)
     else clients' = clients \<and> r \<noteq> Inr True \<and>
       prefix (c_sent c') (c_sent c @ response_bytes too_many_clients @ rs_body too_many_clients))"
proof (cases "unat clients < 32")
  case True
  then have a: "acquire_sse_slot clients = (True, clients + 1)"
    by (simp add: acquire_sse_slot_def max_sse_clients_def)
  obtain q d k where q: "send_sse_inner n c = (q, d)" and k: "k \<le> n"
    "prefix (c_sent d) (c_sent c @ sse_stream k)"
    "q = Inr True \<longrightarrow> c_sent d = c_sent c @ sse_stream n" "c_world d = c_world c"
    using send_sse_inner_sent by blast
  have "r = q" "c' = d" "clients' = (if q = Inr True then clients + 1 else clients)"
    using assms a q by (auto simp: send_sse_def split: sum.splits bool.splits)
  with True k show ?thesis by auto
next
  case False
  then have a: "acquire_sse_slot clients = (False, clients)"
    by (simp add: acquire_sse_slot_def max_sse_clients_def)
  obtain q d where q: "send_response too_many_clients c = (q, d)"
    by (cases "send_response too_many_clients c")
  have "same_world c d" using keepsD [OF wire_done(1) q] .
  moreover have "prefix (c_sent d) (c_sent c @ response_bytes too_many_clients @ rs_body too_many_clients)"
    using send_response_sent [of too_many_clients c] q by simp
  moreover have "clients' = clients" "c' = d" "r \<noteq> Inr True"
    using assms a q by (auto simp: send_sse_def act_map_def act_bind_def ret_def split: sum.splits)
  ultimately show ?thesis using False by (simp add: same_world_def)
qed

text \<open>
  An event stream sends its header, the endpoint event and then only keep-alive messages, touches
  nothing on the host, and holds a slot exactly as long as it is open: an error at any point and
  the departure of the client give the slot back. When 32 slots are taken the client gets the
  status 503 and the counter is left as it was.
\<close>

theorem sse_stream_holds_its_slot:
  assumes "send_sse n clients c = (r, clients', c')"
  shows "c_world c' = c_world c \<and>
    (if unat clients < 32
     then clients' = (if r = Inr True then clients + 1 else clients) \<and>
       (\<exists>k \<le> n. prefix (c_sent c') (c_sent c @ sse_stream k)) \<and>
       (r = Inr True \<longrightarrow> c_sent c' = c_sent c @ sse_stream n)
     else clients' = clients \<and> r \<noteq> Inr True \<and>
       prefix (c_sent c') (c_sent c @ response_bytes too_many_clients @ rs_body too_many_clients))"
  using assms by (rule sse_stream_facts)

theorem sse_stream_holds_its_slot_witness:
  "\<exists>c'. send_sse 2 31 demo_conn = (Inr True, 32, c') \<and>
     c_sent c' = sse_head @ sse_endpoint @ sse_keepalive @ sse_keepalive"
proof -
  have "acquire_sse_slot 31 = (True, 32)"
    by (simp add: acquire_sse_slot_def max_sse_clients_def)
  then have "\<exists>c'. send_sse 2 31 demo_conn = (Inr True, 32, c')"
    by (simp add: send_sse_def send_sse_inner_def numeral_2_eq_2
        sock_write_def sock_op_def act_bind_def act_match_def demo_conn_def ret_def)
  then obtain c' where c': "send_sse 2 31 demo_conn = (Inr True, 32, c')" by blast
  from sse_stream_holds_its_slot [OF this] have "c_sent c' = c_sent demo_conn @ sse_stream 2" by simp
  with c' show ?thesis by (simp add: sse_stream_def numeral_2_eq_2 demo_conn_def)
qed

section \<open>The sequence and the threads\<close>

lemma acquire_thread:
  assumes "t < length (sse_pcs s)" and "sse_pcs s ! t = Arriving"
  shows "unat (sse_clients s) < 32 \<Longrightarrow>
      rtranclp sse_step s (s\<lparr>sse_clients := sse_clients s + 1, sse_pcs := (sse_pcs s)[t := Opening]\<rparr>)"
    and "\<not> unat (sse_clients s) < 32 \<Longrightarrow>
      rtranclp sse_step s (s\<lparr>sse_clients := sse_clients s + 1, sse_pcs := (sse_pcs s)[t := Backing_Out]\<rparr>)"
  using sse_step.acquire [OF assms] by (auto simp: fetch_add_slot_def max_sse_clients_def)

lemma step_from:
  "t < length (sse_pcs s) \<Longrightarrow> sse_pcs s ! t = Opening \<Longrightarrow>
     rtranclp sse_step s (goto_pc t Keeping_Alive s)"
  "t < length (sse_pcs s) \<Longrightarrow> sse_pcs s ! t = Opening \<Longrightarrow>
     rtranclp sse_step s (goto_pc t Releasing s)"
  "t < length (sse_pcs s) \<Longrightarrow> sse_pcs s ! t = Releasing \<Longrightarrow>
     rtranclp sse_step s (fetch_sub_slot t Gone s)"
  "t < length (sse_pcs s) \<Longrightarrow> sse_pcs s ! t = Backing_Out \<Longrightarrow>
     rtranclp sse_step s (fetch_sub_slot t Refusing s)"
  "t < length (sse_pcs s) \<Longrightarrow> sse_pcs s ! t = Refusing \<Longrightarrow>
     rtranclp sse_step s ((goto_pc t Gone s)\<lparr>sse_refused := Suc (sse_refused s)\<rparr>)"
  by (blast intro: sse_step.intros)+

text \<open>
  The sequential \<open>send_sse\<close> is one thread of the interleaved model, run without interruption: with the
  same counter value at the start it leaves the same value, and its thread keeps the client alive
  exactly when the stream is still open.
\<close>

theorem sse_stream_is_a_thread:
  assumes "send_sse n (sse_clients s) c = (r, clients', c')"
    and t: "t < length (sse_pcs s)" "sse_pcs s ! t = Arriving"
  shows "\<exists>s'. rtranclp sse_step s s' \<and> sse_clients s' = clients' \<and>
    sse_pcs s' = (sse_pcs s)[t := (if r = Inr True then Keeping_Alive else Gone)]"
proof (cases "unat (sse_clients s) < 32")
  case True
  let ?o = "s\<lparr>sse_clients := sse_clients s + 1, sse_pcs := (sse_pcs s)[t := Opening]\<rparr>"
  have o: "rtranclp sse_step s ?o" using acquire_thread(1) [OF t True] .
  have k: "clients' = (if r = Inr True then sse_clients s + 1 else sse_clients s)"
    using sse_stream_facts [OF assms(1)] True by simp
  show ?thesis
  proof (cases "r = Inr True")
    case True
    from t have "rtranclp sse_step ?o (goto_pc t Keeping_Alive ?o)" by (intro step_from(1)) simp_all
    with o have "rtranclp sse_step s (goto_pc t Keeping_Alive ?o)" by (rule rtranclp_trans)
    with True k show ?thesis by (intro exI [of _ "goto_pc t Keeping_Alive ?o"]) (simp add: goto_pc_def)
  next
    case False
    let ?l = "goto_pc t Releasing ?o"
    have "rtranclp sse_step ?o ?l" using t by (intro step_from(2)) simp_all
    have "rtranclp sse_step ?l (fetch_sub_slot t Gone ?l)"
      using t by (intro step_from(3)) (simp_all add: goto_pc_def)
    have "rtranclp sse_step s ?l" using o \<open>rtranclp sse_step ?o ?l\<close> by (rule rtranclp_trans)
    then have "rtranclp sse_step s (fetch_sub_slot t Gone ?l)"
      using \<open>rtranclp sse_step ?l (fetch_sub_slot t Gone ?l)\<close> by (rule rtranclp_trans)
    with False k show ?thesis
      by (intro exI [of _ "fetch_sub_slot t Gone ?l"]) (simp add: goto_pc_def fetch_sub_slot_def)
  qed
next
  case False
  let ?b = "s\<lparr>sse_clients := sse_clients s + 1, sse_pcs := (sse_pcs s)[t := Backing_Out]\<rparr>"
  let ?f = "fetch_sub_slot t Refusing ?b"
  let ?g = "(goto_pc t Gone ?f)\<lparr>sse_refused := Suc (sse_refused ?f)\<rparr>"
  have "rtranclp sse_step s ?b" using acquire_thread(2) [OF t False] .
  moreover have "rtranclp sse_step ?b ?f" using t by (intro step_from(4)) simp_all
  ultimately have "rtranclp sse_step s ?f" by (rule rtranclp_trans)
  moreover have "rtranclp sse_step ?f ?g"
    using t by (intro step_from(5)) (simp_all add: fetch_sub_slot_def)
  ultimately have "rtranclp sse_step s ?g" by (rule rtranclp_trans)
  moreover have "clients' = sse_clients s" "r \<noteq> Inr True"
    using sse_stream_facts [OF assms(1)] False by simp_all
  ultimately show ?thesis
    by (intro exI [of _ ?g]) (simp add: goto_pc_def fetch_sub_slot_def)
qed

theorem sse_stream_is_a_thread_witness:
  "\<exists>s'. rtranclp sse_step (sse_start 1) s' \<and> sse_clients s' = 1 \<and> sse_pcs s' = [Keeping_Alive]"
proof -
  have "acquire_sse_slot 0 = (True, 1)" by (simp add: acquire_sse_slot_def max_sse_clients_def)
  then have "\<exists>c'. send_sse 0 (sse_clients (sse_start 1)) demo_conn = (Inr True, 1, c')"
    by (simp add: send_sse_def send_sse_inner_def sse_start_def sock_write_def sock_op_def act_bind_def
        demo_conn_def ret_def)
  then obtain c' where "send_sse 0 (sse_clients (sse_start 1)) demo_conn = (Inr True, 1, c')" by blast
  from sse_stream_is_a_thread [OF this, of 0] show ?thesis by (simp add: sse_start_def)
qed

end
