(* ===== verification/Network.thy ===== *)
theory Network
  imports Service Sse_Stream
begin

text \<open>
  The network process: \<open>main\<close> with an HTTP server, alone or beside the peer-to-peer thread, on one host.

  The main thread continues where \<open>run\<close> of \<open>Cli\<close> ends: with peer-to-peer it prints the pairing instructions while
  the peer-to-peer thread already runs, then it loads the credential, binds the address and accepts
  connections; an error of these ends the process, and every thread with it. The threads share the host's state and
  the slot counter. An event is what the scheduler lets happen next: a step of the main thread, a
  connection that the listener yields, a failed accept, or a round of the peer-to-peer thread (the first creates
  its manager). Each is followed to its end before the next (an event stream for \<open>n\<close> keep-alive rounds, after
  which it keeps its slot). A list of events is any such order.
\<close>

section \<open>State and events\<close>

datatype net_event = Main | Accept "io_error + conn" | Relay_Round

text \<open>Where the main thread is; an address \<open>Listening\<close> is bound, and the string is the server's bearer.\<close>

datatype main_pc =
    Printing "string list"
  | Loading_Credential
  | Binding string
  | Listening string
  | Failing run_error
  | Exited nat
  | On_Stdio

datatype relay_thread = No_Relay | Spawned string string | Running relay

text \<open>The server's settings, which no event changes.\<close>

record server =
  sv_verbose :: bool
  sv_table :: tool_table
  sv_port :: nat

record network =
  nt_world :: world
  nt_clients :: "32 word"
  nt_server :: "server option"
  nt_main :: main_pc
  nt_relay :: relay_thread
  nt_served :: "conn list"

section \<open>The main thread\<close>

text \<open>
  One step of \<open>run\<close>, \<open>run_http\<close> or \<open>main\<close>: \<open>listener\<close> says whether the address can be bound, \<open>display\<close> is the \<open>Display\<close> of
  an error, which \<open>main\<close> logs before it exits with status 1.
\<close>

fun main_step ::
  "host \<Rightarrow> (run_error \<Rightarrow> string) \<Rightarrow> (string \<times> nat \<Rightarrow> io_error + unit) \<Rightarrow> server \<Rightarrow> main_pc \<Rightarrow> world \<Rightarrow>
   main_pc \<times> world" where
  "main_step H display listener sv (Printing (line # rest)) w =
     (Printing rest, snd ((log_status H line :: (world, run_error, unit) act) w))"
| "main_step H display listener sv (Printing []) w = (Loading_Credential, w)"
| "main_step H display listener sv Loading_Credential w =
     (case load_or_create_http_bearer H w of
        (Inl e, w') \<Rightarrow> (Failing (Run_Config e), w')
      | (Inr bearer, w') \<Rightarrow> (Binding bearer, w'))"
| "main_step H display listener sv (Binding bearer) w =
     (case listener (http_bind_addr (sv_port sv)) of
        Inl e \<Rightarrow> (Failing (Run_Transport (Transport_Io e)), w)
      | Inr _ \<Rightarrow>
          (Listening bearer,
           snd ((say H (sv_verbose sv) (''HTTP listening on http://127.0.0.1:'' @ show_nat (sv_port sv) @ ''/'') ::
             (world, run_error, unit) act) w)))"
| "main_step H display listener sv (Failing e) w =
     (Exited 1, snd ((log_status H (display e) :: (world, run_error, unit) act) w))"
| "main_step H display listener sv pc w = (pc, w)"

section \<open>The peer-to-peer thread\<close>

definition new_relay :: "p2p_manager \<Rightarrow> world \<Rightarrow> relay" where
  "new_relay m w = \<lparr>r_manager = m, r_sent = [], r_sends = 0, r_connections = 0, r_world = w\<rparr>"

fun relay_step ::
  "host \<Rightarrow> relay_crates \<Rightarrow> (transport_error \<Rightarrow> string) \<Rightarrow> server \<Rightarrow> relay_thread \<Rightarrow> world \<Rightarrow>
   relay_thread \<times> world" where
  "relay_step H C show_error sv No_Relay w = (No_Relay, w)"
| "relay_step H C show_error sv (Spawned url chamber) w =
     (case (p2p_manager_new H C (sv_verbose sv) (sv_table sv) url chamber :: (world, unit, p2p_manager) act) w of
        (Inl _, w') \<Rightarrow> (Spawned url chamber, w')
      | (Inr m, w') \<Rightarrow> (Running (new_relay m w'), w'))"
| "relay_step H C show_error sv (Running r) w =
     (let r' = p2p_round H C show_error (r\<lparr>r_world := w\<rparr>) in (Running r', r_world r'))"

section \<open>The process\<close>

fun net_event_step ::
  "nat \<Rightarrow> host \<Rightarrow> relay_crates \<Rightarrow> (run_error \<Rightarrow> string) \<Rightarrow> (string \<times> nat \<Rightarrow> io_error + unit) \<Rightarrow>
   server \<Rightarrow> net_event \<Rightarrow> network \<Rightarrow> network" where
  "net_event_step n H C display listener sv Main s =
     (case main_step H display listener sv (nt_main s) (nt_world s) of
        (pc, w) \<Rightarrow> s\<lparr>nt_main := pc, nt_world := w\<rparr>)"
| "net_event_step n H C display listener sv Relay_Round s =
     (case relay_step H C (\<lambda>e. display (Run_Transport e)) sv (nt_relay s) (nt_world s) of
        (t, w) \<Rightarrow> s\<lparr>nt_relay := t, nt_world := w\<rparr>)"
| "net_event_step n H C display listener sv (Accept incoming) s =
     (case nt_main s of
        Listening bearer \<Rightarrow>
          (case incoming of
             Inr c \<Rightarrow>
               (case serve_connection n H (sv_verbose sv) (sv_table sv) bearer (nt_clients s)
                       (c\<lparr>c_world := nt_world s\<rparr>) of
                  (r, clients, c') \<Rightarrow>
                    s\<lparr>nt_world := c_world c', nt_clients := clients, nt_served := nt_served s @ [c']\<rparr>)
           | Inl err \<Rightarrow>
               s\<lparr>nt_world := snd ((say H (sv_verbose sv) (''HTTP accept error: '' @ io_msg err) ::
                  (world, transport_error, unit) act) (nt_world s))\<rparr>)
      | _ \<Rightarrow> s)"

text \<open>Nothing runs in a process that has exited, nor here in one that serves standard input.\<close>

definition net_step ::
  "nat \<Rightarrow> host \<Rightarrow> relay_crates \<Rightarrow> (run_error \<Rightarrow> string) \<Rightarrow> (string \<times> nat \<Rightarrow> io_error + unit) \<Rightarrow>
   net_event \<Rightarrow> network \<Rightarrow> network" where
  "net_step n H C display listener e s =
     (case nt_server s of
        None \<Rightarrow> s
      | Some sv \<Rightarrow>
          (case nt_main s of Exited status \<Rightarrow> s | _ \<Rightarrow> net_event_step n H C display listener sv e s))"

definition stopped :: "main_pc \<Rightarrow> world \<Rightarrow> network" where
  "stopped pc w =
     \<lparr>nt_world = w, nt_clients = 0, nt_server = None, nt_main = pc, nt_relay = No_Relay, nt_served = []\<rparr>"

text \<open>The process when the main thread of \<open>run\<close> ends in a launch.\<close>

definition net_start :: "host \<Rightarrow> (run_error \<Rightarrow> string) \<Rightarrow> (run_error + launch) \<times> world \<Rightarrow> network" where
  "net_start H display rw =
     (case rw of
        (Inl e, w) \<Rightarrow> stopped (Exited 1) (snd ((log_status H (display e) :: (world, run_error, unit) act) w))
      | (Inr (Launch_Http verbose table port), w) \<Rightarrow>
          \<lparr>nt_world = w, nt_clients = 0,
           nt_server = Some \<lparr>sv_verbose = verbose, sv_table = table, sv_port = port\<rparr>,
           nt_main = Loading_Credential, nt_relay = No_Relay, nt_served = []\<rparr>
      | (Inr (Launch_P2p verbose table url chamber port), w) \<Rightarrow>
          \<lparr>nt_world = w, nt_clients = 0,
           nt_server = Some \<lparr>sv_verbose = verbose, sv_table = table, sv_port = port\<rparr>,
           nt_main = Printing (pairing_instructions url chamber port), nt_relay = Spawned url chamber, nt_served = []\<rparr>
      | (Inr (Launch_Stdio verbose table), w) \<Rightarrow> stopped On_Stdio w
      | (Inr Invalid_Mode, w) \<Rightarrow> stopped (Exited 1) w
      | (Inr _, w) \<Rightarrow> stopped (Exited 0) w)"

definition main_network ::
  "nat \<Rightarrow> host \<Rightarrow> relay_crates \<Rightarrow> (run_error \<Rightarrow> string) \<Rightarrow> (string \<times> nat \<Rightarrow> io_error + unit) \<Rightarrow>
   string list \<Rightarrow> net_event list \<Rightarrow> world \<Rightarrow> network" where
  "main_network n H C display listener args events w =
     fold (net_step n H C display listener) events (net_start H display (run H args w))"

section \<open>What every event keeps\<close>

lemma send_sse_world: "send_sse n clients c = (r, clients', c') \<Longrightarrow> c_world c' = c_world c"
  using sse_stream_facts by blast

lemma serve_connection_calls:
  assumes "served_by H P table" and "serve_connection n H verbose table bearer clients c = (r, k, c')"
  shows "on_conn.carried P c c'"
proof -
  obtain q d where q: "handle_http_client H verbose table bearer c = (q, d)"
    by (cases "handle_http_client H verbose table bearer c")
  have "on_conn.carried P c d" using conn_calls_client [OF assms(1)] q by (rule keepsD)
  moreover have "c_world c' = c_world d"
    using assms(2) q send_sse_world
    by (auto simp: serve_connection_def split: sum.splits http_outcome.splits)
  ultimately show ?thesis by (simp add: on_conn.carried_def)
qed

text \<open>The relay of a network uses the server's table.\<close>

definition net_inv :: "tool_table \<Rightarrow> network \<Rightarrow> bool" where
  "net_inv table s \<longleftrightarrow>
     pred_option (\<lambda>sv. sv_table sv = table) (nt_server s) \<and>
     (\<forall>r. nt_relay s = Running r \<longrightarrow> pm_table (r_manager r) = table)"

lemma new_manager_table:
  "p2p_manager_new H C verbose table url chamber w = (Inr m, w') \<Longrightarrow> pm_table m = table"
  by (auto simp: p2p_manager_new_def act_bind_eq_Inr)

lemma new_manager_calls: "keeps (calls_within P) (p2p_manager_new H C verbose table url chamber)"
  unfolding p2p_manager_new_def by (intro calls.keeps_bind calls.keeps_ret call_intros)

lemma log_calls: "calls_within P w (snd ((log_status H s :: (world, 'e, unit) act) w))"
  by (rule keepsD [OF calls_log prod.collapse [symmetric]])

lemma say_calls: "calls_within P w (snd ((say H b s :: (world, 'e, unit) act) w))"
  by (rule keepsD [OF calls_say prod.collapse [symmetric]])

lemma main_step_calls: "calls_within P w (snd (main_step H display listener sv pc w))"
proof (cases pc)
  case (Printing lines)
  then show ?thesis by (cases lines) (simp_all add: log_calls calls.rel_refl)
next
  case Loading_Credential
  have "keeps (calls_within P) (load_or_create_http_bearer H)" by (rule call_intros)
  from keepsD [OF this] Loading_Credential show ?thesis by (auto split: prod.split sum.split)
qed (simp_all add: log_calls say_calls calls.rel_refl split: sum.split)

lemma relay_step_calls:
  assumes "served_by H P (sv_table sv)" and "\<And>r. t = Running r \<Longrightarrow> pm_table (r_manager r) = sv_table sv"
  shows "calls_within P w (snd (relay_step H C show_error sv t w)) \<and>
    (\<forall>r. fst (relay_step H C show_error sv t w) = Running r \<longrightarrow> pm_table (r_manager r) = sv_table sv)"
proof (cases t)
  case (Spawned url chamber)
  obtain v w' where m: "(p2p_manager_new H C (sv_verbose sv) (sv_table sv) url chamber ::
      (world, unit, p2p_manager) act) w = (v, w')" by (cases "(p2p_manager_new H C (sv_verbose sv) (sv_table sv) url
      chamber :: (world, unit, p2p_manager) act) w")
  have "calls_within P w w'" using keepsD [OF new_manager_calls m] .
  with m Spawned show ?thesis
    by (cases v) (auto simp: new_relay_def dest: new_manager_table)
next
  case (Running r)
  let ?r = "r\<lparr>r_world := w\<rparr>"
  have "wire H C P ?r (p2p_round H C show_error ?r)" by (rule wire_round)
  with assms(1) assms(2) [OF Running] Running show ?thesis
    by (simp add: wire_def on_relay.carried_def Let_def relay_grows_def manager_grows_def)
qed (simp add: calls.rel_refl)

lemma net_event_keeps:
  assumes served: "served_by H P (sv_table sv)" and inv: "net_inv (sv_table sv) s"
  shows "net_inv (sv_table sv) (net_event_step n H C display listener sv e s) \<and>
    calls_within P (nt_world s) (nt_world (net_event_step n H C display listener sv e s))"
proof (cases e)
  case Main
  with inv main_step_calls [where P = P and H = H and display = display and listener = listener and sv = sv
      and pc = "nt_main s" and w = "nt_world s"] show ?thesis
    by (auto simp: net_inv_def split: prod.split)
next
  case Relay_Round
  have "pm_table (r_manager r) = sv_table sv" if "nt_relay s = Running r" for r
    using inv that by (simp add: net_inv_def)
  from relay_step_calls [where t = "nt_relay s" and w = "nt_world s" and C = C
      and show_error = "\<lambda>e. display (Run_Transport e)", OF served this] inv Relay_Round
  show ?thesis by (auto simp: net_inv_def split: prod.split)
next
  case (Accept incoming)
  show ?thesis
  proof (cases "\<exists>bearer. nt_main s = Listening bearer")
    case False
    then have "net_event_step n H C display listener sv e s = s" using Accept by (auto split: main_pc.split)
    with inv show ?thesis by (simp add: calls.rel_refl)
  next
    case True
    then obtain bearer where b: "nt_main s = Listening bearer" by blast
    show ?thesis
    proof (cases incoming)
      case (Inl err)
      with Accept b inv show ?thesis by (simp add: net_inv_def say_calls)
    next
      case (Inr c)
      obtain r k c' where s: "serve_connection n H (sv_verbose sv) (sv_table sv) bearer
          (nt_clients s) (c\<lparr>c_world := nt_world s\<rparr>) = (r, k, c')"
        by (metis prod_cases3)
      from serve_connection_calls [OF served s] inv Accept Inr s b show ?thesis
        by (simp add: net_inv_def on_conn.carried_def)
    qed
  qed
qed

lemma net_step_keeps:
  assumes "served_by H P table" and inv: "net_inv table s"
  shows "net_inv table (net_step n H C display listener e s) \<and>
    calls_within P (nt_world s) (nt_world (net_step n H C display listener e s))"
proof (cases "nt_server s")
  case (Some sv)
  with inv have "sv_table sv = table" by (simp add: net_inv_def)
  with net_event_keeps [where P = P and H = H and sv = sv and s = s and n = n and C = C and display = display
      and listener = listener and e = e] assms Some show ?thesis
    by (auto simp: net_step_def calls.rel_refl split: main_pc.split)
qed (use inv in \<open>simp add: net_step_def calls.rel_refl\<close>)

lemma net_run_keeps:
  assumes "served_by H P table" and "net_inv table s"
  shows "calls_within P (nt_world s) (nt_world (fold (net_step n H C display listener) events s))"
  using assms(2)
proof (induction events arbitrary: s)
  case Nil
  then show ?case by (simp add: calls.rel_refl)
next
  case (Cons e events)
  from net_step_keeps [OF assms(1) Cons.prems] Cons.IH show ?case
    by (simp, blast intro: calls.rel_trans)
qed

lemma stopped_stays:
  "nt_server s = None \<Longrightarrow> fold (net_step n H C display listener) events s = s"
  by (induction events) (simp_all add: net_step_def)

lemma launch_table:
  assumes "run H args w = (Inr l, w')"
    and "l \<in> {Launch_Http verbose table port, Launch_P2p verbose table url chamber port}"
  obtains saved w1 mode c v where "load_config H w = (Inr saved, w1)"
    "access_mode_parse (choose_mode (parse_args_from args) saved) = Some mode"
    "table = tools_of H mode c v"
proof (rule run_serverD [OF assms(1)])
  show "l \<notin> {Show_Help, Show_Version, Invalid_Mode}" using assms(2) by auto
  fix saved w1 mode c v w2
  assume s: "load_config H w = (Inr saved, w1)"
    "access_mode_parse (choose_mode (parse_args_from args) saved) = Some mode"
    and l: "start_transport H (parse_args_from args) saved mode (tools_of H mode c v) w2 = (Inr l, w')"
  from l assms(2) have "table = tools_of H mode c v"
    by (auto simp: start_transport_def launch_p2p_def launch_http_def launch_stdio_def Let_def
        act_bind_eq_Inr split: prod.splits option.splits)
  with s that show thesis by blast
qed

lemma restricted_launch_served:
  assumes "cl_mode (parse_args_from args) = Some m" and "m \<noteq> ''full''"
    and "run H args w = (Inr l, w')"
    and "l \<in> {Launch_Http verbose table port, Launch_P2p verbose table url chamber port}"
  shows "served_by H boot_call table"
  using assms(3,4)
proof (rule launch_table)
  fix saved w1 mode c v
  assume "access_mode_parse (choose_mode (parse_args_from args) saved) = Some mode"
    and t: "table = tools_of H mode c v"
  then have "mode \<noteq> Full"
    using restricted_mode_parse [of m mode] assms(1,2) by (simp add: choose_mode_def or_else_def)
  from restricted_tools_served [OF this] show ?thesis unfolding t by (blast intro: calls_mono)
qed

lemma restricted_network:
  assumes "cl_mode (parse_args_from args) = Some m" and "m \<noteq> ''full''"
  shows "calls_within boot_call w (nt_world (main_network n H C display listener args events w))"
proof -
  obtain v w' where r: "run H args w = (v, w')" by (cases "run H args w")
  have "keeps (calls_within boot_call) (run H args)" using boot_calls by (rule calls_mono) simp
  from keepsD [OF this r] have b: "calls_within boot_call w w'" .
  note trans = calls.rel_trans [OF b]
  have gone: "calls_within boot_call w (nt_world (main_network n H C display listener args events w))"
    if "net_start H display (v, w') = stopped pc w''" and "calls_within boot_call w w''" for pc w''
    using that r by (simp add: main_network_def stopped_def stopped_stays)
  show ?thesis
  proof (cases v)
    case (Inl e)
    with trans [OF log_calls] show ?thesis by (intro gone) (simp_all add: net_start_def)
  next
    case (Inr l)
    have net: "calls_within boot_call w (nt_world (main_network n H C display listener args events w))"
      if l: "l \<in> {Launch_Http verbose table port, Launch_P2p verbose table url chamber port}"
      for verbose table port url chamber
    proof -
      have "served_by H boot_call table"
        using restricted_launch_served [OF assms r [unfolded Inr] l] .
      moreover have "net_inv table (net_start H display (v, w'))" "nt_world (net_start H display (v, w')) = w'"
        using l Inr by (auto simp: net_start_def net_inv_def)
      ultimately have "calls_within boot_call w' (nt_world (main_network n H C display listener args events w))"
        using net_run_keeps r by (metis main_network_def)
      then show ?thesis by (rule trans)
    qed
    show ?thesis
    proof (cases l)
      case (Launch_Http verbose table port)
      then show ?thesis by (intro net) simp
    next
      case (Launch_P2p verbose table url chamber port)
      then show ?thesis by (intro net) simp
    qed (use Inr b in \<open>simp_all add: gone net_start_def\<close>)
  qed
qed

text \<open>
  C13. A network process started with a restricted \<open>--mode\<close> stays restricted: from its start, while it prints
  the pairing instructions, loads its credential and binds its address, or fails to, through
  every connection it accepts and every round of its peer-to-peer thread, in whatever order the threads
  run (the peer-to-peer thread from its spawn on; each connection and each round is followed to its end before the
  next), the only host calls are the capability probe of the tool
  registration and those the restricted modes allow.
\<close>

theorem restricted_network_only_looks:
  assumes "cl_mode (parse_args_from args) = Some m" and "m \<noteq> ''full''"
  shows "\<exists>cs. trace (nt_world (main_network n H C display listener args events w)) = trace w @ cs \<and>
    list_all (\<lambda>c. c = Query_Capabilities \<or> safe_call c) cs"
  using restricted_network [OF assms] by (rule calls_withinD)

section \<open>The credential\<close>

lemma main_network_snoc:
  "main_network n H C display listener args (events @ [e]) w =
     net_step n H C display listener e (main_network n H C display listener args events w)"
  by (simp add: main_network_def)

text \<open>The main thread has a bearer from the moment that it loaded the credential.\<close>

fun has_bearer :: "main_pc \<Rightarrow> string \<Rightarrow> bool" where
  "has_bearer (Binding b) bearer \<longleftrightarrow> b = bearer"
| "has_bearer (Listening b) bearer \<longleftrightarrow> b = bearer"
| "has_bearer _ bearer \<longleftrightarrow> False"

lemma main_step_bearer:
  assumes "main_step H display listener sv pc w = (pc', w')" and "has_bearer pc' bearer"
  shows "has_bearer pc bearer \<or> load_or_create_http_bearer H w = (Inr bearer, w')"
  using assms
  by (cases "(H, display, listener, sv, pc, w)" rule: main_step.cases) (auto split: prod.splits sum.splits)

lemma net_step_bearer:
  assumes "has_bearer (nt_main (net_step n H C display listener e s)) bearer"
  shows "has_bearer (nt_main s) bearer \<or>
    load_or_create_http_bearer H (nt_world s) = (Inr bearer, nt_world (net_step n H C display listener e s))"
proof (cases "nt_server s = None \<or> (\<exists>k. nt_main s = Exited k)")
  case True
  then have "net_step n H C display listener e s = s" by (auto simp: net_step_def split: option.split)
  with assms show ?thesis by simp
next
  case False
  then obtain sv where "nt_server s = Some sv" by (cases "nt_server s") simp_all
  with False have st: "net_step n H C display listener e s = net_event_step n H C display listener sv e s"
    by (simp add: net_step_def split: main_pc.split)
  show ?thesis
  proof (cases e)
    case Main
    obtain pc w where "main_step H display listener sv (nt_main s) (nt_world s) = (pc, w)"
      by (cases "main_step H display listener sv (nt_main s) (nt_world s)")
    with main_step_bearer [OF this] assms st Main show ?thesis by auto
  next
    case Relay_Round
    with assms st show ?thesis by (simp split: prod.splits)
  next
    case (Accept incoming)
    with assms st show ?thesis by (auto split: main_pc.splits sum.splits prod.splits)
  qed
qed

lemma bearer_was_loaded:
  assumes "has_bearer (nt_main (main_network n H C display listener args events w)) bearer"
  shows "\<exists>before after w1. events = before @ after \<and>
    load_or_create_http_bearer H w1 = (Inr bearer, nt_world (main_network n H C display listener args before w))"
  using assms
proof (induction events rule: rev_induct)
  case Nil
  then show ?case
    by (auto simp: main_network_def net_start_def stopped_def split: prod.splits sum.splits launch.splits)
next
  case (snoc e events)
  let ?s = "main_network n H C display listener args events w"
  from net_step_bearer [OF snoc.prems [unfolded main_network_snoc]]
  consider "has_bearer (nt_main ?s) bearer"
    | "load_or_create_http_bearer H (nt_world ?s) = (Inr bearer, nt_world (net_step n H C display listener e ?s))"
    by blast
  then show ?case
  proof cases
    case 1
    from snoc.IH [OF this] obtain before after w1 where "events = before @ after"
      "load_or_create_http_bearer H w1 = (Inr bearer, nt_world (main_network n H C display listener args before w))" by blast
    then show ?thesis
      by (intro exI [of _ before] exI [of _ "after @ [e]"] exI [of _ w1]) simp
  next
    case 2
    then show ?thesis
      by (intro exI [of _ "events @ [e]"] exI [of _ "[]"] exI [of _ "nt_world ?s"]) (simp add: main_network_snoc)
  qed
qed

lemma net_event_server: "nt_server (net_event_step n H C display listener sv e s) = nt_server s"
proof (cases e)
  case (Accept incoming)
  show ?thesis
  proof (cases "nt_main s")
    case (Listening bearer)
    with Accept show ?thesis by (cases incoming) (simp_all split: prod.split)
  qed (simp_all add: Accept)
qed (simp_all split: prod.split)

lemma net_step_server: "nt_server (net_step n H C display listener e s) = nt_server s"
proof (cases "nt_server s")
  case (Some sv)
  then show ?thesis
    by (cases "nt_main s") (simp_all add: net_step_def net_event_server del: net_event_step.simps)
qed (simp add: net_step_def)

lemma net_run_server: "nt_server (fold (net_step n H C display listener) events s) = nt_server s"
  by (induction events arbitrary: s) (simp_all add: net_step_server)

lemma net_run_stopped:
  "nt_server s = None \<Longrightarrow> nt_main (fold (net_step n H C display listener) events s) = nt_main s"
  using stopped_stays by metis

lemma server_started:
  assumes "nt_server (main_network n H C display listener args events w) \<noteq> None"
  shows "\<not> cl_stdio (parse_args_from args)"
proof -
  obtain v w' where r: "run H args w = (v, w')" by (cases "run H args w")
  with assms have "nt_server (net_start H display (v, w')) \<noteq> None" by (simp add: main_network_def net_run_server)
  then obtain l verbose table port url chamber where "v = Inr l"
    "l \<in> {Launch_Http verbose table port, Launch_P2p verbose table url chamber port}"
    by (fastforce simp: net_start_def stopped_def split: sum.splits launch.splits)
  with r show ?thesis using network_launch by blast
qed

lemma listening_server:
  assumes "nt_main (main_network n H C display listener args events w) = Listening bearer"
  shows "nt_server (main_network n H C display listener args events w) \<noteq> None"
proof
  assume "nt_server (main_network n H C display listener args events w) = None"
  then have "nt_server (net_start H display (run H args w)) = None" by (simp add: main_network_def net_run_server)
  with assms net_run_stopped have "nt_main (net_start H display (run H args w)) = Listening bearer"
    by (simp add: main_network_def)
  then show False by (auto simp: net_start_def stopped_def split: prod.splits sum.splits launch.splits)
qed

text \<open>
  C8. No HTTP server without a credential: when the process has an HTTP server that accepts connections, alone or
  beside the peer-to-peer thread, \<open>--stdio\<close> was not given, and the bearer that the server asks for is 64 lower-case
  hexadecimal digits that an owner-only file held at the moment, before, when the process loaded it. (The
  peer-to-peer thread does not use the credential and runs before it is loaded.)
\<close>

theorem network_requires_private_credential:
  assumes "nt_main (main_network n H C display listener args events w) = Listening bearer"
  shows "\<not> cl_stdio (parse_args_from args) \<and> valid_http_bearer bearer \<and>
    (\<exists>before after d. events = before @ after \<and> config_dir H = Inr d \<and>
       files (nt_world (main_network n H C display listener args before w)) (path_join d ''http-token'') =
         Some (Regular 384 bearer))"
proof -
  have "has_bearer (nt_main (main_network n H C display listener args events w)) bearer" using assms by simp
  from bearer_was_loaded [OF this] obtain before after w1 where "events = before @ after"
    and l: "load_or_create_http_bearer H w1 = (Inr bearer, nt_world (main_network n H C display listener args before w))"
    by blast
  moreover obtain d where "config_dir H = Inr d" "valid_http_bearer bearer"
    "files (nt_world (main_network n H C display listener args before w)) (path_join d ''http-token'') =
       Some (Regular 384 bearer)"
    using load_or_create_okD [OF l] by metis
  moreover have "\<not> cl_stdio (parse_args_from args)"
    using server_started listening_server [OF assms] by blast
  ultimately show ?thesis by blast
qed

text \<open>
  C14. The network acts for the holder of the token only: when serving a connection changes anything on
  the host, the connection sent a complete POST to \<open>/message\<close> authorized by the bearer token that an
  owner-only file held at the moment when the process loaded it.
\<close>

theorem network_acts_for_the_token_holder:
  assumes s: "s = main_network n H C display listener args events w"
    and change: "nt_world (net_step n H C display listener (Accept (Inr c)) s) \<noteq> nt_world s"
  shows "\<exists>bearer. nt_main s = Listening bearer \<and> valid_http_bearer bearer \<and>
    (\<exists>before after d. events = before @ after \<and> config_dir H = Inr d \<and>
       files (nt_world (main_network n H C display listener args before w)) (path_join d ''http-token'') =
         Some (Regular 384 bearer)) \<and>
    (\<exists>buffer c1 c2. read_request [] None c1 = (Inr (Some buffer), c2) \<and> c_input c1 = c_input c \<and>
       may_dispatch bearer buffer)"
proof -
  obtain sv bearer where sv: "nt_server s = Some sv" and b: "nt_main s = Listening bearer"
    using change by (auto simp: net_step_def split: option.splits main_pc.splits)
  have "has_bearer (nt_main (main_network n H C display listener args events w)) bearer" using b s by simp
  from bearer_was_loaded [OF this] obtain before after w1 where e: "events = before @ after"
    and l: "load_or_create_http_bearer H w1 = (Inr bearer, nt_world (main_network n H C display listener args before w))"
    by blast
  let ?c = "c\<lparr>c_world := nt_world s\<rparr>"
  obtain r k c' where k: "serve_connection n H (sv_verbose sv) (sv_table sv) bearer (nt_clients s) ?c = (r, k, c')"
    by (metis prod_cases3)
  obtain q d where q: "handle_http_client H (sv_verbose sv) (sv_table sv) bearer ?c = (q, d)"
    by (cases "handle_http_client H (sv_verbose sv) (sv_table sv) bearer ?c")
  have "c_world c' = c_world d"
    using k q send_sse_world by (auto simp: serve_connection_def split: sum.splits http_outcome.splits)
  moreover have "c_world c' \<noteq> c_world ?c" using change k sv b by (auto simp: net_step_def)
  ultimately have "c_world d \<noteq> c_world ?c" by simp
  from http_client_dispatches [OF q this]
  have "\<exists>buffer c1 c2. read_request [] None c1 = (Inr (Some buffer), c2) \<and> c_input c1 = c_input c \<and>
       may_dispatch bearer buffer" by simp
  moreover obtain d where "config_dir H = Inr d" "valid_http_bearer bearer"
    "files (nt_world (main_network n H C display listener args before w)) (path_join d ''http-token'') =
       Some (Regular 384 bearer)"
    using load_or_create_okD [OF l] by metis
  ultimately show ?thesis using b e by blast
qed

section \<open>A concrete process\<close>

theorem restricted_network_only_looks_witness:
  "\<exists>cs. trace (nt_world (main_network 1 demo_host demo_crates (\<lambda>e. []) (\<lambda>a. Inr ())
       [''--http'', ''8080'', ''--mode'', ''sandbox''] [Main, Main, Accept (Inr demo_conn), Relay_Round] settled_home)) = cs \<and>
     list_all (\<lambda>c. c = Query_Capabilities \<or> safe_call c) cs"
proof -
  have "cl_mode (parse_args_from [''--http'', ''8080'', ''--mode'', ''sandbox'']) = Some ''sandbox''"
    by (simp add: parse_args_from_def read_flags_drop switch_of_def option_of_def cli_default_def)
  from restricted_network_only_looks [OF this, of 1 demo_host demo_crates "\<lambda>e. []" "\<lambda>a. Inr ()"
      "[Main, Main, Accept (Inr demo_conn), Relay_Round]" settled_home]
  moreover have "trace settled_home = []" by (simp add: settled_home_def home_world_def demo_world_def)
  ultimately show ?thesis by simp
qed

definition owner_request :: bytes where
  "owner_request =
     ''POST /message HTTP/1.1'' @ crlf @ ''Authorization: Bearer '' @ replicate 64 CHR ''a'' @ crlf @
     ''content-length: 2'' @ crlf @ crlf @ ''{}''"

lemma owner_request_facts:
  "header_end owner_request = Some (129, 4)" "first_words owner_request = (''POST'', ''/message'')"
  "has_header (take 129 owner_request) ''origin'' = False"
  "authorized (take 129 owner_request) (replicate 64 CHR ''a'') = True" "length owner_request = 135"
  by code_simp+

lemma owner_request_length: "content_length (take 129 owner_request) = 2"
proof -
  let ?auth = "''Authorization: Bearer '' @ replicate 64 CHR ''a''"
  have ls: "header_lines (take 129 owner_request) =
      [''POST /message HTTP/1.1'', ?auth, ''content-length: 2'']"
    by code_simp
  have "show_nat 2 = ''2''" by (simp add: show_nat.simps digit_char_def)
  then have p: "parse_unsigned usize_max ''2'' = Some 2"
    using parse_show_nat [of 2 usize_max] by (simp add: usize_max_def)
  have t: "trim '' 2'' = ''2''" by code_simp
  have "split_once CHR '':'' ''POST /message HTTP/1.1'' = None"
    "split_once CHR '':'' ?auth = Some (''Authorization'', '' Bearer '' @ replicate 64 CHR ''a'')"
    "split_once CHR '':'' ''content-length: 2'' = Some (''content-length'', '' 2'')"
    "\<not> eq_ignore_ascii_case ''Authorization'' ''content-length''"
    "eq_ignore_ascii_case ''content-length'' ''content-length''"
    by code_simp+
  then show ?thesis unfolding content_length_def ls by (simp add: p t)
qed

lemma owner_request_dispatch: "may_dispatch (replicate 64 CHR ''a'') owner_request"
  using owner_request_facts owner_request_length
  by (simp add: may_dispatch_def max_http_body_bytes_def)

definition owner_conn :: conn where
  "owner_conn = demo_conn\<lparr>c_input := [owner_request]\<rparr>"

lemma tick_changes: "w\<lparr>ticks := Suc (ticks w), stderr_lines := x\<rparr> \<noteq> w"
proof
  assume "w\<lparr>ticks := Suc (ticks w), stderr_lines := x\<rparr> = w"
  from arg_cong [OF this, of ticks] show False by simp
qed

lemma owner_served:
  "\<exists>r k c'. serve_connection n ping_host True table (replicate 64 CHR ''a'') clients (owner_conn\<lparr>c_world := w\<rparr>) =
     (r, k, c') \<and> c_world c' \<noteq> w"
proof -
  let ?c = "owner_conn\<lparr>c_world := w\<rparr>"
  obtain w' where m: "handle_message ping_host True table
      (Object [(''id'', jnat 1), (''method'', Str ''ping'')]) (c_world ?c) = (Inr (Some []), w')"
    and w: "w' \<noteq> w"
    by (simp add: handle_message_def obj_get_def say_def log_status_eq act_bind_def dispatch_method_def
        some_response_def json_response_def act_map_def lift_res_def ret_def ping_host_def demo_host_def tick_changes)
  have "\<forall>n. c_fault ?c n = None" "c_input ?c = [owner_request]" "length owner_request \<le> 4096"
    by (simp_all add: owner_conn_def demo_conn_def owner_request_facts)
  moreover have "h_json_parse ping_host (take (content_length (take 129 owner_request))
      (drop (129 + 4) owner_request)) = Inr (Object [(''id'', jnat 1), (''method'', Str ''ping'')])"
    by (simp add: ping_host_def)
  ultimately obtain c' where "handle_http_client ping_host True table (replicate 64 CHR ''a'') ?c =
      (Inr Finished, c')" "c_world c' = w'"
    using post_served [OF _ _ _ owner_request_dispatch owner_request_facts(1) _ m] by blast
  with w show ?thesis by (simp add: serve_connection_def)
qed

text \<open>The main thread of a network process prints its instructions and reaches the accept loop.\<close>

lemma main_thread_listens:
  assumes "nt_server s = Some sv" and "nt_main s = Printing lines" and "listener (http_bind_addr (sv_port sv)) = Inr ()"
    and "\<And>w. world_extends (nt_world s) w \<Longrightarrow> \<exists>w'. load_or_create_http_bearer H w = (Inr bearer, w')"
  shows "nt_main (fold (net_step n H C display listener) (replicate (length lines + 3) Main) s) = Listening bearer \<and>
    nt_server (fold (net_step n H C display listener) (replicate (length lines + 3) Main) s) = Some sv"
  using assms
proof (induction lines arbitrary: s)
  case Nil
  from Nil.prems(4) [OF growth.rel_refl] obtain w' where "load_or_create_http_bearer H (nt_world s) = (Inr bearer, w')"
    by blast
  with Nil.prems(1-3) show ?case by (simp add: net_step_def eval_nat_numeral)
next
  case (Cons line lines)
  let ?w = "snd ((log_status H line :: (world, run_error, unit) act) (nt_world s))"
  have x: "world_extends (nt_world s) ?w" by (simp add: log_status_eq world_extends_def)
  let ?s = "s\<lparr>nt_main := Printing lines, nt_world := ?w\<rparr>"
  have "net_step n H C display listener Main s = ?s" using Cons.prems by (simp add: net_step_def)
  moreover have "\<exists>w'. load_or_create_http_bearer H w = (Inr bearer, w')" if "world_extends (nt_world ?s) w" for w
    using Cons.prems(4) [OF growth.rel_trans [OF x]] that by simp
  moreover have "replicate (length (line # lines) + 3) Main = Main # replicate (length lines + 3) Main"
    unfolding list.size add_Suc_right add_Suc by (simp only: replicate_Suc add_0_right)
  ultimately show ?case using Cons.IH [of ?s] Cons.prems(1,3) by (simp only: fold_simps) simp
qed

definition owner_network :: network where
  "owner_network = main_network 1 ping_host demo_crates (\<lambda>e. []) (\<lambda>a. Inr ()) (p2p_den True) (replicate 7 Main) settled_home"

lemma owner_network_listens:
  "nt_main owner_network = Listening (replicate 64 CHR ''a'') \<and>
   (\<exists>table. nt_server owner_network = Some \<lparr>sv_verbose = True, sv_table = table, sv_port = 8080\<rparr>)"
proof -
  let ?f = "\<lambda>_. Inr (Object [(''id'', jnat 1), (''method'', Str ''ping'')]) :: string + json"
  have p: "parsing_host ?f = ping_host" by (simp add: parsing_host_def ping_host_def)
  obtain table w1 where r: "run ping_host (p2p_den True) settled_home =
     (Inr (Launch_P2p True table default_signal_url ''den'' 8080), w1)" and x: "world_extends settled_home w1"
    using parsing_p2p_start [of ?f True] p by auto
  let ?s = "net_start ping_host (\<lambda>e. []) (run ping_host (p2p_den True) settled_home)"
  let ?d = "Path True [''h'', ''.config'', ''folk-around'']"
  have "\<exists>w'. load_or_create_http_bearer ping_host w = (Inr (replicate 64 CHR ''a''), w')"
    if "world_extends (nt_world ?s) w" for w
  proof -
    have e: "world_extends settled_home w" using that r x growth.rel_trans by (simp add: net_start_def)
    from world_extends_regular [OF e settled_home_facts(4)] obtain m where
      "files w (path_join ?d ''http-token'') = Some (Regular m (replicate 64 CHR ''a''))" ..
    moreover have "dirs_ok (files w) (path_ancestors ?d)"
      using settled_home_facts(2) e unfolding world_extends_def by (rule dirs_ok_extends)
    ultimately show ?thesis
      using parsing_host_facts(1,3,4) [of ?f] p settled_home_facts(5) by (intro bearer_existing) auto
  qed
  moreover have "nt_server ?s = Some \<lparr>sv_verbose = True, sv_table = table, sv_port = 8080\<rparr>"
    "nt_main ?s = Printing (pairing_instructions default_signal_url ''den'' 8080)"
    using r by (simp_all add: net_start_def)
  moreover have "length (pairing_instructions default_signal_url ''den'' 8080) + 3 = 7"
    by (simp add: pairing_instructions_def)
  ultimately show ?thesis
    using main_thread_listens [where s = ?s and H = ping_host and n = 1 and C = demo_crates and display = "\<lambda>e. []"
        and listener = "\<lambda>a. Inr ()" and bearer = "replicate 64 CHR ''a''"]
    unfolding owner_network_def main_network_def by fastforce
qed

theorem network_requires_private_credential_witness:
  "valid_http_bearer (replicate 64 CHR ''a'') \<and>
   (\<exists>before after d. replicate 7 Main = before @ after \<and> config_dir ping_host = Inr d \<and>
      files (nt_world (main_network 1 ping_host demo_crates (\<lambda>e. []) (\<lambda>a. Inr ()) (p2p_den True) before settled_home))
        (path_join d ''http-token'') = Some (Regular 384 (replicate 64 CHR ''a'')))"
  using network_requires_private_credential [OF conjunct1 [OF owner_network_listens, unfolded owner_network_def]] by blast

theorem network_acts_for_the_token_holder_witness:
  "nt_world (net_step 1 ping_host demo_crates (\<lambda>e. []) (\<lambda>a. Inr ()) (Accept (Inr owner_conn)) owner_network) \<noteq>
     nt_world owner_network \<and>
   (\<exists>before after d. replicate 7 Main = before @ after \<and> config_dir ping_host = Inr d \<and>
      files (nt_world (main_network 1 ping_host demo_crates (\<lambda>e. []) (\<lambda>a. Inr ()) (p2p_den True) before settled_home))
        (path_join d ''http-token'') = Some (Regular 384 (replicate 64 CHR ''a'')))"
proof -
  obtain table where l: "nt_main owner_network = Listening (replicate 64 CHR ''a'')"
    "nt_server owner_network = Some \<lparr>sv_verbose = True, sv_table = table, sv_port = 8080\<rparr>"
    using owner_network_listens by blast
  obtain r k c' where "serve_connection 1 ping_host True table (replicate 64 CHR ''a'') (nt_clients owner_network)
      (owner_conn\<lparr>c_world := nt_world owner_network\<rparr>) = (r, k, c')" "c_world c' \<noteq> nt_world owner_network"
    using owner_served by blast
  with l have step: "nt_world (net_step 1 ping_host demo_crates (\<lambda>e. []) (\<lambda>a. Inr ()) (Accept (Inr owner_conn)) owner_network) \<noteq>
     nt_world owner_network"
    by (simp add: net_step_def)
  from network_acts_for_the_token_holder [OF owner_network_def step] l(1) step show ?thesis by auto
qed

end
