(* ===== verification/Credential_Race.thy ===== *)
theory Credential_Race
  imports Core_Files
begin

text \<open>
  The crate \<open>folk-core\<close>, the HTTP bearer credential under concurrency: several processes run
  \<open>load_or_create_http_bearer\<close> on one shared file system, their file operations interleaved in any
  order, while the rest of the system does anything that leaves \<open>http-token\<close> alone.

  A process is its program counter; each file operation of the code is one step, each \<open>write\<close> of
  \<open>write_all\<close> as well. The file's name is never unlinked by the program, so an open file is its path.
\<close>

section \<open>Processes and their moves\<close>

datatype race_pc =
    At_Open
  | At_Generate
  | At_Write string string
  | At_Sync string
  | At_Sync_Dir string
  | At_Stat
  | At_Restrict
  | At_Read
  | Returned "config_error + string"

record race =
  ra_world :: world
  ra_pcs :: "race_pc list"

definition token_path :: "path \<Rightarrow> path" where
  "token_path dir = path_join dir ''http-token''"

definition err_write_zero :: io_error where
  "err_write_zero = Io_Error (Other_Kind 0) ''failed to write whole buffer''"

text \<open>One \<open>write\<close> call that takes at most \<open>k\<close> bytes of the rest; the result is what is left of it.\<close>

definition fs_write_some :: "host \<Rightarrow> path \<Rightarrow> nat \<Rightarrow> bytes \<Rightarrow> (world, io_error, bytes) act" where
  "fs_write_some H p k rest =
     act_bind (io_step H) (\<lambda>_.
     act_bind get_files (\<lambda>fs.
       if k = 0 then fail err_write_zero
       else
         (case fs p of
            Some (Regular m old) \<Rightarrow>
              act_bind (put_node p (Some (Regular m (old @ take k rest)))) (\<lambda>_. ret (drop k rest))
          | _ \<Rightarrow> ret (drop k rest))))"

text \<open>The program counter after an operation: the next one, or the error that \<open>?\<close> returns.\<close>

definition go :: "(io_error + 'a) \<times> world \<Rightarrow> ('a \<Rightarrow> race_pc) \<Rightarrow> race_pc \<times> world" where
  "go result next =
     (case result of
        (Inl e, w) \<Rightarrow> (Returned (Inl (Config_Io e)), w)
      | (Inr x, w) \<Rightarrow> (next x, w))"

fun advance :: "host \<Rightarrow> path \<Rightarrow> nat \<Rightarrow> race_pc \<Rightarrow> world \<Rightarrow> race_pc \<times> world" where
  "advance H dir k At_Open w =
     (case open_new_private_file H (token_path dir) w of
        (Inr _, w') \<Rightarrow> (At_Generate, w')
      | (Inl err, w') \<Rightarrow>
          ((if io_kind err = Already_Exists then At_Stat else Returned (Inl (Config_Io err))), w'))"
| "advance H dir k At_Generate w = go (generate_http_bearer H w) (\<lambda>token. At_Write token token)"
| "advance H dir k (At_Write token rest) w =
     go (fs_write_some H (token_path dir) k rest w)
       (\<lambda>rest'. if rest' = [] then At_Sync token else At_Write token rest')"
| "advance H dir k (At_Sync token) w = go (sync_all H w) (\<lambda>_. At_Sync_Dir token)"
| "advance H dir k (At_Sync_Dir token) w = go (sync_dir H dir w) (\<lambda>_. Returned (Inr token))"
| "advance H dir k At_Stat w =
     go (fs_symlink_metadata H (token_path dir) w)
       (\<lambda>metadata. case metadata of
          Regular m bs \<Rightarrow>
            if length bs \<noteq> http_bearer_hex_len then Returned (Inl Invalid_Http_Bearer) else At_Restrict
        | _ \<Rightarrow> Returned (Inl Invalid_Http_Bearer))"
| "advance H dir k At_Restrict w = go (restrict_file_permissions H (token_path dir) w) (\<lambda>_. At_Read)"
| "advance H dir k At_Read w =
     go (fs_read H (token_path dir) w)
       (\<lambda>bs. Returned (case from_utf8 (take (http_bearer_hex_len + 1) bs) of
          None \<Rightarrow> Inl (Config_Io err_utf8)
        | Some token \<Rightarrow> if valid_http_bearer token then Inr token else Inl Invalid_Http_Bearer))"
| "advance H dir k (Returned r) w = (Returned r, w)"

text \<open>Process \<open>i\<close> makes a move.\<close>

definition race_move :: "host \<Rightarrow> path \<Rightarrow> nat \<Rightarrow> nat \<Rightarrow> race \<Rightarrow> race" where
  "race_move H dir i k s =
     (case advance H dir k (ra_pcs s ! i) (ra_world s) of
        (pc, w) \<Rightarrow> s\<lparr>ra_world := w, ra_pcs := (ra_pcs s)[i := pc]\<rparr>)"

inductive race_step :: "host \<Rightarrow> path \<Rightarrow> race \<Rightarrow> race \<Rightarrow> bool" for H dir where
  process: "i < length (ra_pcs s) \<Longrightarrow> race_step H dir s (race_move H dir i k s)"
| environment: "files w (token_path dir) = files (ra_world s) (token_path dir) \<Longrightarrow>
    race_step H dir s (s\<lparr>ra_world := w\<rparr>)"

definition race_start :: "nat \<Rightarrow> world \<Rightarrow> race" where
  "race_start n w = \<lparr>ra_world = w, ra_pcs = replicate n At_Open\<rparr>"

inductive race_reachable :: "host \<Rightarrow> path \<Rightarrow> nat \<Rightarrow> race \<Rightarrow> bool" for H dir n where
  start: "race_reachable H dir n (race_start n w)"
| step: "race_reachable H dir n s \<Longrightarrow> race_step H dir s s' \<Longrightarrow> race_reachable H dir n s'"

text \<open>A schedule names the process of each move and the bytes its \<open>write\<close> takes.\<close>

definition race_run :: "host \<Rightarrow> path \<Rightarrow> (nat \<times> nat) list \<Rightarrow> race \<Rightarrow> race" where
  "race_run H dir schedule s = fold (\<lambda>(i, k). race_move H dir i k) schedule s"

section \<open>The invariant\<close>

text \<open>What a program counter says about the file.\<close>

fun pc_ok :: "node option \<Rightarrow> race_pc \<Rightarrow> bool" where
  "pc_ok f At_Generate \<longleftrightarrow> f = Some (Regular 384 [])"
| "pc_ok f (At_Write t rest) \<longleftrightarrow> valid_http_bearer t \<and> rest \<noteq> [] \<and>
     (\<exists>written. t = written @ rest \<and> f = Some (Regular 384 written))"
| "pc_ok f (At_Sync t) \<longleftrightarrow> valid_http_bearer t \<and> f = Some (Regular 384 t)"
| "pc_ok f (At_Sync_Dir t) \<longleftrightarrow> valid_http_bearer t \<and> f = Some (Regular 384 t)"
| "pc_ok f At_Restrict \<longleftrightarrow> (\<exists>m bs. f = Some (Regular m bs) \<and> length bs = http_bearer_hex_len)"
| "pc_ok f At_Read \<longleftrightarrow> (\<exists>bs. f = Some (Regular 384 bs) \<and> length bs = http_bearer_hex_len)"
| "pc_ok f (Returned (Inr t)) \<longleftrightarrow> valid_http_bearer t \<and> f = Some (Regular 384 t)"
| "pc_ok f pc \<longleftrightarrow> True"

text \<open>The process that created the file and has not written all of the token.\<close>

fun is_writer :: "race_pc \<Rightarrow> bool" where
  "is_writer At_Generate \<longleftrightarrow> True"
| "is_writer (At_Write t rest) \<longleftrightarrow> True"
| "is_writer pc \<longleftrightarrow> False"

definition race_inv :: "path \<Rightarrow> race \<Rightarrow> bool" where
  "race_inv dir s \<longleftrightarrow>
     (\<forall>i < length (ra_pcs s). pc_ok (files (ra_world s) (token_path dir)) (ra_pcs s ! i)) \<and>
     (\<forall>i < length (ra_pcs s). \<forall>j < length (ra_pcs s).
        is_writer (ra_pcs s ! i) \<longrightarrow> is_writer (ra_pcs s ! j) \<longrightarrow> i = j)"

lemma bearer_hex_len_pos: "0 < http_bearer_hex_len"
  by (simp add: http_bearer_hex_len_def http_bearer_bytes_def)

lemma valid_length: "valid_http_bearer t \<Longrightarrow> length t = http_bearer_hex_len"
  by (simp add: valid_http_bearer_def)

text \<open>How a move of one process changes the file: not at all, by creating, writing or restricting it.\<close>

inductive file_change :: "race_pc \<Rightarrow> race_pc \<Rightarrow> node option \<Rightarrow> node option \<Rightarrow> bool" where
  quiet: "is_writer pc' \<longrightarrow> is_writer pc \<Longrightarrow> file_change pc pc' f f"
| created: "file_change pc pc' None (Some (Regular 384 []))"
| wrote: "is_writer pc \<Longrightarrow> length old < http_bearer_hex_len \<Longrightarrow> file_change pc pc' (Some (Regular 384 old)) f'"
| restricted: "\<not> is_writer pc' \<Longrightarrow> length bs = http_bearer_hex_len \<Longrightarrow>
    file_change pc pc' (Some (Regular m bs)) (Some (Regular 384 bs))"

lemma go_eq:
  "go (r, w) next = (pc, w') \<longleftrightarrow>
     w' = w \<and> pc = (case r of Inl e \<Rightarrow> Returned (Inl (Config_Io e)) | Inr x \<Rightarrow> next x)"
  by (auto simp: go_def split: sum.splits)

lemma stat_files: "fs_symlink_metadata H p w = (r, w') \<Longrightarrow>
    files w' = files w \<and> (\<forall>nd. r = Inr nd \<longrightarrow> files w p = Some nd)"
  by (auto simp: fs_symlink_metadata_def act_bind_def lift_res_def ok_or_eq_Inr split: prod.splits sum.splits)

lemma read_files:
  assumes "fs_read H p w = (r, w')"
  shows "files w' = files w" "r = Inr all \<Longrightarrow> files w p = Some (Regular m bs) \<Longrightarrow> all = bs"
proof -
  show "files w' = files w"
    using assms
    by (cases "h_fault H (io_ops w)")
       (auto simp: fs_read_def act_simps fail_def split: option.splits node.splits)
  show "r = Inr all \<Longrightarrow> files w p = Some (Regular m bs) \<Longrightarrow> all = bs"
    using assms by (auto simp: fs_read_def act_bind_eq_Inr io_step_Inr simp del: io_step_eq)
qed

lemma restrict_files:
  assumes "restrict_file_permissions H p w = (r, w')" and "files w p = Some (Regular m bs)" and "h_unix H"
  shows "(r = Inr () \<and> files w' = (files w)(p \<mapsto> Regular 384 bs)) \<or> (\<exists>e. r = Inl e \<and> files w' = files w)"
  using assms
  by (cases "h_fault H (io_ops w)")
     (auto simp: restrict_file_permissions_def fs_set_permissions_def bind_io_step_ok bind_io_step_fault)

lemma write_some_files:
  assumes "fs_write_some H p k rest w = (r, w')" and "files w p = Some (Regular m old)"
  shows "(r = Inr (drop k rest) \<and> k \<noteq> 0 \<and> files w' = (files w)(p \<mapsto> Regular m (old @ take k rest))) \<or>
    (\<exists>e. r = Inl e \<and> files w' = files w)"
  using assms
  by (cases "h_fault H (io_ops w)")
     (auto simp: fs_write_some_def act_simps fail_def split: if_splits)

text \<open>A move keeps what its program counter says, and changes the file in one of the four ways.\<close>

lemma unchanged: "f' = f \<Longrightarrow> (is_writer pc' \<Longrightarrow> is_writer pc) \<Longrightarrow> file_change pc pc' f f'"
  using quiet [of pc' pc f] by blast

lemma advance_open:
  assumes "advance H dir k At_Open w = (pc, w')" and "h_unix H"
  shows "pc_ok (files w' (token_path dir)) pc \<and>
    file_change At_Open pc (files w (token_path dir)) (files w' (token_path dir))"
proof -
  obtain r where o: "open_new_private_file H (token_path dir) w = (r, w')"
    using assms(1) by (auto split: prod.splits sum.splits)
  show ?thesis
  proof (cases r)
    case (Inl e)
    with open_new_errD [of H "token_path dir" w e w'] o have "files w' = files w" by simp
    with assms(1) o Inl show ?thesis by (auto intro: unchanged split: if_splits)
  next
    case (Inr u)
    with o have "open_new_private_file H (token_path dir) w = (Inr u, w')" by simp
    from open_new_okD [OF this assms(2)] assms(1) o Inr show ?thesis by (auto intro: created)
  qed
qed

lemma advance_write:
  assumes "advance H dir k (At_Write t rest) w = (pc, w')"
    and "pc_ok (files w (token_path dir)) (At_Write t rest)"
  shows "pc_ok (files w' (token_path dir)) pc \<and>
    file_change (At_Write t rest) pc (files w (token_path dir)) (files w' (token_path dir))"
proof -
  obtain written where t: "t = written @ rest" "valid_http_bearer t" "rest \<noteq> []"
    and f: "files w (token_path dir) = Some (Regular 384 written)"
    using assms(2) by auto
  have "length written < http_bearer_hex_len" using t valid_length [of t] by (cases rest) auto
  then have change: "file_change (At_Write t rest) pc (files w (token_path dir)) f'" for f'
    unfolding f by (intro wrote) simp_all
  obtain r where r: "fs_write_some H (token_path dir) k rest w = (r, w')"
    "pc = (case r of Inl e \<Rightarrow> Returned (Inl (Config_Io e))
      | Inr rest' \<Rightarrow> if rest' = [] then At_Sync t else At_Write t rest')"
    using assms(1) by (cases "fs_write_some H (token_path dir) k rest w") (auto simp: go_eq)
  from write_some_files [OF r(1) f] have "pc_ok (files w' (token_path dir)) pc"
  proof (elim disjE conjE exE)
    assume "r = Inr (drop k rest)" and "files w' = (files w)(token_path dir \<mapsto> Regular 384 (written @ take k rest))"
    with r(2) t show ?thesis by auto
  next
    fix e
    assume "r = Inl e" then show ?thesis using r(2) by simp
  qed
  with change show ?thesis by blast
qed

lemma advance_restrict:
  assumes "advance H dir k At_Restrict w = (pc, w')" and "pc_ok (files w (token_path dir)) At_Restrict"
    and "h_unix H"
  shows "pc_ok (files w' (token_path dir)) pc \<and>
    file_change At_Restrict pc (files w (token_path dir)) (files w' (token_path dir))"
proof -
  obtain m bs where f: "files w (token_path dir) = Some (Regular m bs)" "length bs = http_bearer_hex_len"
    using assms(2) by auto
  obtain r where r: "restrict_file_permissions H (token_path dir) w = (r, w')"
    "pc = (case r of Inl e \<Rightarrow> Returned (Inl (Config_Io e)) | Inr _ \<Rightarrow> At_Read)"
    using assms(1) by (cases "restrict_file_permissions H (token_path dir) w") (auto simp: go_eq)
  from restrict_files [OF r(1) f(1) assms(3)] show ?thesis
  proof (elim disjE conjE exE)
    assume "r = Inr ()" and "files w' = (files w)(token_path dir \<mapsto> Regular 384 bs)"
    with r(2) f show ?thesis by (auto intro: restricted)
  next
    fix e
    assume "r = Inl e" and "files w' = files w"
    then show ?thesis using r(2) by (auto intro: unchanged)
  qed
qed

lemma advance_quiet:
  assumes "advance H dir k pc w = (pc', w')" and "pc_ok (files w (token_path dir)) pc"
    and "pc \<noteq> At_Open" "\<And>t rest. pc \<noteq> At_Write t rest" "pc \<noteq> At_Restrict"
  shows "pc_ok (files w' (token_path dir)) pc' \<and>
    file_change pc pc' (files w (token_path dir)) (files w' (token_path dir))"
proof (cases pc)
  case At_Generate
  have "random_id H p http_bearer_bytes \<noteq> []" for p
  proof
    assume "random_id H p http_bearer_bytes = []"
    then have "length (random_id H p http_bearer_bytes) = 0" by simp
    then show False unfolding length_random_id by (simp add: http_bearer_bytes_def)
  qed
  with assms At_Generate random_id_valid_bearer show ?thesis
    by (auto simp: generate_http_bearer_def generate_hex_eq go_eq intro: unchanged)
next
  case (At_Sync t)
  with assms show ?thesis
    by (cases "sync_all H w") (auto simp: go_eq dest!: sync_files intro: unchanged split: sum.splits)
next
  case (At_Sync_Dir t)
  with assms show ?thesis
    by (cases "sync_dir H dir w") (auto simp: go_eq dest!: sync_files intro: unchanged split: sum.splits)
next
  case At_Stat
  with assms show ?thesis
    by (cases "fs_symlink_metadata H (token_path dir) w")
       (auto simp: go_eq dest!: stat_files intro!: unchanged split: sum.splits node.splits)
next
  case At_Read
  obtain bs where f: "files w (token_path dir) = Some (Regular 384 bs)" "length bs = http_bearer_hex_len"
    using assms(2) At_Read by auto
  obtain r where r: "fs_read H (token_path dir) w = (r, w')" and pc': "go (r, w') (\<lambda>bs. Returned (case from_utf8 (take (http_bearer_hex_len + 1) bs) of
          None \<Rightarrow> Inl (Config_Io err_utf8)
        | Some token \<Rightarrow> if valid_http_bearer token then Inr token else Inl Invalid_Http_Bearer)) = (pc', w')"
    using assms(1) At_Read by (cases "fs_read H (token_path dir) w") (simp add: go_eq)
  note rf = read_files(1) [OF r(1)] read_files(2) [OF r(1) _ f(1)]
  with f rf pc' At_Read show ?thesis
    by (auto simp: go_eq from_utf8_def intro!: unchanged split: sum.splits)
next
  case (Returned r)
  with assms show ?thesis by (auto intro: unchanged)
qed (use assms in auto)

lemma advance_ok:
  assumes "advance H dir k pc w = (pc', w')" and "pc_ok (files w (token_path dir)) pc" and "h_unix H"
  shows "pc_ok (files w' (token_path dir)) pc' \<and>
    file_change pc pc' (files w (token_path dir)) (files w' (token_path dir))"
proof (cases pc)
  case At_Open
  from advance_open [OF assms(1,3) [unfolded At_Open]] show ?thesis unfolding At_Open .
next
  case (At_Write t rest)
  from advance_write [OF assms(1,2) [unfolded At_Write]] show ?thesis unfolding At_Write .
next
  case At_Restrict
  from advance_restrict [OF assms(1,2) [unfolded At_Restrict] assms(3)] show ?thesis
    unfolding At_Restrict .
qed (rule advance_quiet [OF assms(1,2)]; simp)+

text \<open>What the other processes know survives the change.\<close>

lemma others_keep:
  assumes "file_change pc pc' f f'" and "pc_ok f other" and "is_writer pc \<Longrightarrow> \<not> is_writer other"
  shows "pc_ok f' other \<and> (is_writer pc' \<and> is_writer other \<longrightarrow> is_writer pc)"
  using assms
proof (cases rule: file_change.cases)
  case created
  with assms(2) show ?thesis by (cases "(f', other)" rule: pc_ok.cases) auto
next
  case (wrote old)
  with assms(2,3) show ?thesis
    by (cases "(f', other)" rule: pc_ok.cases) (auto dest: valid_length)
next
  case (restricted bs m)
  have "\<not> is_writer other"
    using assms(2) restricted bearer_hex_len_pos by (cases other rule: is_writer.cases)
      (auto dest!: valid_length simp del: length_greater_0_conv)
  with restricted assms(2) show ?thesis
    by (cases "(f', other)" rule: pc_ok.cases) auto
qed auto

lemma race_inv_move:
  assumes inv: "race_inv dir s" and i: "i < length (ra_pcs s)" and u: "h_unix H"
  shows "race_inv dir (race_move H dir i k s)"
proof -
  obtain pc w where a: "advance H dir k (ra_pcs s ! i) (ra_world s) = (pc, w)"
    by (cases "advance H dir k (ra_pcs s ! i) (ra_world s)")
  have ok: "pc_ok (files w (token_path dir)) pc"
    and ch: "file_change (ra_pcs s ! i) pc (files (ra_world s) (token_path dir)) (files w (token_path dir))"
    using advance_ok [OF a _ u] inv i by (auto simp: race_inv_def)
  have others: "pc_ok (files w (token_path dir)) (ra_pcs s ! j) \<and>
      (is_writer pc \<and> is_writer (ra_pcs s ! j) \<longrightarrow> is_writer (ra_pcs s ! i))"
    if "j < length (ra_pcs s)" "j \<noteq> i" for j
    using inv i that by (intro others_keep [OF ch]) (auto simp: race_inv_def)
  with ok inv i show ?thesis
    by (auto simp: race_inv_def race_move_def a nth_list_update)
qed

lemma race_inv_reachable:
  assumes "race_reachable H dir n s" and "h_unix H"
  shows "race_inv dir s"
  using assms(1)
proof (induction rule: race_reachable.induct)
  case (start w)
  show ?case by (simp add: race_inv_def race_start_def)
next
  case (step s s')
  from step(2) show ?case
  proof (cases rule: race_step.cases)
    case (process i k)
    with race_inv_move [OF step.IH _ assms(2)] show ?thesis by simp
  next
    case (environment w)
    with step.IH show ?thesis by (simp add: race_inv_def)
  qed
qed

section \<open>Every process gets the same credential\<close>

lemma race_returned:
  assumes "race_reachable H dir n s" and "h_unix H" and "Returned (Inr t) \<in> set (ra_pcs s)"
  shows "valid_http_bearer t" "files (ra_world s) (token_path dir) = Some (Regular 384 t)"
  using race_inv_reachable [OF assms(1,2)] assms(3) by (auto simp: race_inv_def in_set_conv_nth)

text \<open>
  C12. Processes that race for the credential agree: whatever the file was at first and however the
  processes interleave, every token that any of them returned is the same 64 lower-case hexadecimal
  digits, and it is what the owner-only file holds.
\<close>

theorem racing_processes_agree:
  assumes "race_reachable H dir n s" and "h_unix H"
    and "Returned (Inr t) \<in> set (ra_pcs s)" and "Returned (Inr t') \<in> set (ra_pcs s)"
  shows "t = t' \<and> length t = 64 \<and> list_all is_lower_hex t \<and>
    files (ra_world s) (path_join dir ''http-token'') = Some (Regular 384 t)"
  using race_returned [OF assms(1,2,3)] race_returned [OF assms(1,2,4)]
  by (simp add: token_path_def valid_http_bearer_def http_bearer_hex_len_def http_bearer_bytes_def)

text \<open>A schedule is a sequence of steps.\<close>

lemma race_move_length [simp]: "length (ra_pcs (race_move H dir i k s)) = length (ra_pcs s)"
  by (simp add: race_move_def split: prod.split)

lemma race_run_simps [simp]:
  "race_run H dir [] s = s"
  "race_run H dir ((i, k) # schedule) s = race_run H dir schedule (race_move H dir i k s)"
  by (simp_all add: race_run_def)

lemma race_run_append: "race_run H dir (a @ b) s = race_run H dir b (race_run H dir a s)"
  by (simp add: race_run_def)

lemma race_run_length [simp]: "length (ra_pcs (race_run H dir schedule s)) = length (ra_pcs s)"
  by (induction schedule arbitrary: s) auto

lemma race_run_reachable:
  assumes "race_reachable H dir n s" and "list_all (\<lambda>(i, k). i < length (ra_pcs s)) schedule"
  shows "race_reachable H dir n (race_run H dir schedule s)"
  using assms
proof (induction schedule arbitrary: s)
  case (Cons m schedule)
  obtain i k where m: "m = (i, k)" by (cases m)
  have "race_reachable H dir n (race_move H dir i k s)"
    using Cons.prems m by (auto intro: race_reachable.step race_step.process)
  with Cons m show ?case by simp
qed simp

section \<open>No process waits for another\<close>

fun moves_left :: "race_pc \<Rightarrow> nat" where
  "moves_left At_Open = 69"
| "moves_left At_Generate = 68"
| "moves_left (At_Write t rest) = 3 + length rest"
| "moves_left (At_Sync t) = 2"
| "moves_left (At_Sync_Dir t) = 1"
| "moves_left At_Stat = 3"
| "moves_left At_Restrict = 2"
| "moves_left At_Read = 1"
| "moves_left (Returned r) = 0"

lemma go_moves_left: "(\<And>x. moves_left (next x) \<le> n) \<Longrightarrow> moves_left (fst (go r next)) \<le> n"
  by (cases r) (auto simp: go_def split: sum.split)

lemma write_some_left:
  "fs_write_some H p k rest w = (Inr rest', w') \<Longrightarrow> rest' = drop k rest \<and> k \<noteq> 0"
  by (auto simp: fs_write_some_def act_bind_eq_Inr simp del: io_step_eq
      split: if_splits option.splits node.splits)

lemma advance_moves: "moves_left (fst (advance H dir k pc w)) \<le> moves_left pc - 1"
proof (cases pc)
  case At_Open
  then show ?thesis by (simp split: prod.split sum.split)
next
  case At_Generate
  then show ?thesis
    by (simp add: generate_http_bearer_def generate_hex_eq go_def http_bearer_bytes_def)
next
  case (At_Write t rest)
  obtain r w' where r: "fs_write_some H (token_path dir) k rest w = (r, w')"
    by (cases "fs_write_some H (token_path dir) k rest w")
  with At_Write write_some_left [of H "token_path dir" k rest w] show ?thesis
    by (cases r) (auto simp: go_def)
next
  case At_Stat
  then show ?thesis by (auto intro!: go_moves_left split: node.split)
qed (auto simp: go_def split: prod.split sum.split)

lemma race_move_left:
  "i < length (ra_pcs s) \<Longrightarrow> moves_left (ra_pcs (race_move H dir i k s) ! i) \<le> moves_left (ra_pcs s ! i) - 1"
  "i \<noteq> j \<Longrightarrow> ra_pcs (race_move H dir j k s) ! i = ra_pcs s ! i"
  using advance_moves [of H dir k "ra_pcs s ! i" "ra_world s"]
  by (auto simp: race_move_def split: prod.split)

lemma race_run_left:
  assumes "i < length (ra_pcs s)"
  shows "moves_left (ra_pcs (race_run H dir schedule s) ! i) \<le>
    moves_left (ra_pcs s ! i) - length (filter (\<lambda>m. fst m = i) schedule)"
  using assms
proof (induction schedule arbitrary: s)
  case (Cons m schedule)
  obtain j k where m: "m = (j, k)" by (cases m)
  let ?s = "race_move H dir j k s"
  have "moves_left (ra_pcs (race_run H dir schedule ?s) ! i) \<le>
      moves_left (ra_pcs ?s ! i) - length (filter (\<lambda>m. fst m = i) schedule)"
    using Cons by simp
  moreover have "moves_left (ra_pcs ?s ! i) \<le> moves_left (ra_pcs s ! i) - (if j = i then 1 else 0)"
    using race_move_left(1) [of i s H dir k] race_move_left(2) [of i j H dir k s] Cons.prems by auto
  ultimately show ?case by (auto simp: m)
qed simp

lemma no_moves_left: "moves_left pc = 0 \<Longrightarrow> \<exists>r. pc = Returned r"
  by (cases pc) auto

text \<open>
  C16. Loading or creating the credential never waits for another process: a process that gets 69
  moves has returned, whatever the other processes do in between, short writes included.
\<close>

theorem credential_is_wait_free:
  assumes "i < n" and "69 \<le> length (filter (\<lambda>m. fst m = i) schedule)"
  shows "\<exists>r. ra_pcs (race_run H dir schedule (race_start n w)) ! i = Returned r"
  using race_run_left [of i "race_start n w" H dir schedule] assms
  by (intro no_moves_left) (simp add: race_start_def)

section \<open>One process alone\<close>

lemma alone_simps:
  "race_move H dir 0 k \<lparr>ra_world = w, ra_pcs = [pc]\<rparr> =
     (case advance H dir k pc w of (pc', w') \<Rightarrow> \<lparr>ra_world = w', ra_pcs = [pc']\<rparr>)"
  by (simp add: race_move_def split: prod.split)

lemma alone_returned:
  "race_run H dir (replicate n (0, k)) \<lparr>ra_world = w, ra_pcs = [Returned r]\<rparr> =
     \<lparr>ra_world = w, ra_pcs = [Returned r]\<rparr>"
  by (induction n) (simp_all add: alone_simps)

lemma alone_Suc:
  assumes "advance H dir k pc w = (pc', w')"
    and "race_run H dir (replicate n (0, k)) \<lparr>ra_world = w', ra_pcs = [pc']\<rparr> = s"
  shows "race_run H dir (replicate (Suc n) (0, k)) \<lparr>ra_world = w, ra_pcs = [pc]\<rparr> = s"
  using assms by (simp add: alone_simps)

lemma alone_write:
  assumes "files w p = Some (Regular m [])" and "length t \<le> k" and "k \<noteq> 0"
  shows "fs_write_some H p k t w = (case fs_write_all H p t w of (r, w') \<Rightarrow> (map_sum id (\<lambda>_. []) r, w'))"
  using assms
  by (cases "h_fault H (io_ops w)")
     (simp_all add: fs_write_some_def fs_write_all_def act_simps)

lemma alone_create:
  assumes f: "files w (token_path dir) = Some (Regular m [])" and k: "http_bearer_hex_len \<le> k"
    and c: "create_http_bearer H dir (token_path dir) w = (r, w')"
  shows "race_run H dir (replicate 4 (0, k)) \<lparr>ra_world = w, ra_pcs = [At_Generate]\<rparr> =
    \<lparr>ra_world = w', ra_pcs = [Returned r]\<rparr>"
proof -
  let ?t = "random_id H (rng_pos w) http_bearer_bytes"
  let ?w = "w\<lparr>rng_pos := rng_pos w + http_bearer_bytes\<rparr>"
  have four: "replicate 4 x = replicate (Suc (Suc (Suc (Suc 0)))) x" for x :: "nat \<times> nat"
    by (simp add: numeral_eq_Suc)
  obtain v w2 where wr: "fs_write_all H (token_path dir) ?t ?w = (v, w2)"
    by (cases "fs_write_all H (token_path dir) ?t ?w")
  have "fs_write_some H (token_path dir) k ?t ?w = (map_sum id (\<lambda>_. []) v, w2)"
    using alone_write [of ?w "token_path dir" m ?t k H] f k valid_length [OF random_id_valid_bearer]
      bearer_hex_len_pos wr by simp
  note w = this wr
  have g: "advance H dir k At_Generate w = (At_Write ?t ?t, ?w)"
    by (simp add: generate_http_bearer_def generate_hex_eq go_def)
  show ?thesis
    unfolding four
  proof (rule alone_Suc [OF g])
    show "race_run H dir (replicate (Suc (Suc (Suc 0))) (0, k)) \<lparr>ra_world = ?w, ra_pcs = [At_Write ?t ?t]\<rparr> =
        \<lparr>ra_world = w', ra_pcs = [Returned r]\<rparr>"
      using c w
      by (auto simp: create_http_bearer_def generate_http_bearer_def generate_hex_eq alone_simps go_def
          act_bind_def act_map_err_def ret_def alone_returned split: prod.splits sum.splits)
  qed
qed

lemma alone_load:
  assumes "load_http_bearer H (token_path dir) w = (r, w')"
  shows "race_run H dir (replicate 4 (0, k)) \<lparr>ra_world = w, ra_pcs = [At_Stat]\<rparr> =
    \<lparr>ra_world = w', ra_pcs = [Returned r]\<rparr>"
proof -
  have four: "replicate 4 x = replicate (Suc (Suc (Suc (Suc 0)))) x" for x :: "nat \<times> nat"
    by (simp add: numeral_eq_Suc)
  show ?thesis
    unfolding four using assms
    by (auto simp: load_http_bearer_def alone_simps go_def act_bind_def act_map_err_def ret_def fail_def
        lift_res_def alone_returned split: prod.splits sum.splits node.splits if_splits option.splits)
qed

text \<open>
  C17. The interleaved model refines the sequential one: a process that runs alone, from the point where
  the private directory is there, ends in at most five moves with the result and the world of
  \<open>load_or_create_http_bearer\<close>, on every path, I/O faults included.
\<close>

theorem alone_is_sequential:
  assumes u: "h_unix H" and d: "config_dir H = Inr dir"
    and e: "(ensure_private_dir H dir :: (world, io_error, unit) act) w = (Inr (), w1)"
    and k: "64 \<le> k" and l: "load_or_create_http_bearer H w = (r, w')"
  shows "race_run H dir (replicate 5 (0, k)) (race_start 1 w1) = \<lparr>ra_world = w', ra_pcs = [Returned r]\<rparr>"
proof -
  let ?p = "token_path dir"
  have five: "replicate 5 x = replicate (Suc 4) x" for x :: "nat \<times> nat" by (simp add: numeral_eq_Suc)
  have start: "race_start 1 w1 = \<lparr>ra_world = w1, ra_pcs = [At_Open]\<rparr>" by (simp add: race_start_def)
  have k: "http_bearer_hex_len \<le> k" using k by (simp add: http_bearer_hex_len_def http_bearer_bytes_def)
  obtain v w2 where o: "open_new_private_file H ?p w1 = (v, w2)" by (cases "open_new_private_file H ?p w1")
  have m: "act_match (open_new_private_file H ?p) (\<lambda>_. create_http_bearer H dir ?p)
      (\<lambda>err. if io_kind err = Already_Exists then load_http_bearer H ?p else fail (Config_Io err)) w1 = (r, w')"
    using l u d e unfolding token_path_def
    by (simp add: load_or_create_http_bearer_def act_bind_def act_map_err_def lift_res_def Let_def)
  show ?thesis
  proof (cases v)
    case (Inr x)
    with o have o': "open_new_private_file H ?p w1 = (Inr x, w2)" by simp
    have "files w2 ?p = Some (Regular 384 [])" using open_new_okD [OF o' u] by simp
    moreover have "create_http_bearer H dir ?p w2 = (r, w')" using m o' by (simp add: act_match_def)
    ultimately have "race_run H dir (replicate 4 (0, k)) \<lparr>ra_world = w2, ra_pcs = [At_Generate]\<rparr> =
        \<lparr>ra_world = w', ra_pcs = [Returned r]\<rparr>" using k by (intro alone_create)
    moreover have "advance H dir k At_Open w1 = (At_Generate, w2)" using o' by simp
    ultimately show ?thesis unfolding five start by (intro alone_Suc)
  next
    case (Inl err)
    show ?thesis
    proof (cases "io_kind err = Already_Exists")
      case True
      with Inl m o have "load_http_bearer H ?p w2 = (r, w')" by (simp add: act_match_def)
      from alone_load [OF this] have "race_run H dir (replicate 4 (0, k)) \<lparr>ra_world = w2, ra_pcs = [At_Stat]\<rparr> =
          \<lparr>ra_world = w', ra_pcs = [Returned r]\<rparr>" .
      moreover have "advance H dir k At_Open w1 = (At_Stat, w2)" using o Inl True by simp
      ultimately show ?thesis unfolding five start by (intro alone_Suc)
    next
      case False
      with Inl m o have "r = Inl (Config_Io err)" "w' = w2" by (auto simp: act_match_def fail_def)
      with o Inl False alone_returned [of H dir 4 k w2 r] show ?thesis
        unfolding five start by (intro alone_Suc) simp_all
    qed
  qed
qed

section \<open>Somebody gets the credential\<close>

text \<open>The process that created the file, as long as it has not failed.\<close>

fun is_creator :: "race_pc \<Rightarrow> bool" where
  "is_creator (At_Sync t) \<longleftrightarrow> True"
| "is_creator (At_Sync_Dir t) \<longleftrightarrow> True"
| "is_creator (Returned (Inr t)) \<longleftrightarrow> True"
| "is_creator pc \<longleftrightarrow> is_writer pc"

fun only_refused :: "race_pc \<Rightarrow> bool" where
  "only_refused (Returned (Inl e)) \<longleftrightarrow> e = Invalid_Http_Bearer"
| "only_refused pc \<longleftrightarrow> True"

lemma creator_file:
  assumes "is_creator pc" and "pc_ok f pc"
  shows "\<exists>bs. f = Some (Regular 384 bs) \<and> (length bs = http_bearer_hex_len \<longrightarrow> valid_http_bearer bs)"
  using assms bearer_hex_len_pos
  by (cases "(f, pc)" rule: pc_ok.cases) (auto dest!: valid_length)

lemma advance_creator:
  assumes "\<forall>n. h_fault H n = None" and "k \<noteq> 0" and "is_creator pc" and "pc_ok (files w (token_path dir)) pc"
  shows "is_creator (fst (advance H dir k pc w))"
proof (cases pc)
  case (At_Write t rest)
  with assms obtain written where "files w (token_path dir) = Some (Regular 384 written)" by auto
  with assms(1,2) At_Write show ?thesis
    by (simp add: go_def fs_write_some_def act_simps)
next
  case At_Generate
  then show ?thesis by (simp add: generate_http_bearer_def generate_hex_eq go_def)
next
  case (At_Sync t)
  with assms(1) show ?thesis by (simp add: go_def sync_all_def io_step_def)
next
  case (At_Sync_Dir t)
  with assms(1) show ?thesis by (simp add: go_def sync_dir_def bind_io_step_ok io_step_def ret_def)
qed (use assms(3) in auto)

lemma advance_other:
  assumes nf: "\<forall>n. h_fault H n = None" and u: "h_unix H" and nc: "\<not> is_creator pc" and k: "only_refused pc"
    and ok: "pc_ok (files w (token_path dir)) pc" and f: "files w (token_path dir) = Some (Regular 384 bs)"
    and v: "length bs = http_bearer_hex_len \<Longrightarrow> valid_http_bearer bs"
  shows "only_refused (fst (advance H dir k pc w))"
proof (cases pc)
  case At_Open
  with nf f show ?thesis
    by (simp add: open_new_private_file_def fs_create_new_def act_simps fail_def err_exists_def)
next
  case At_Stat
  with nf f show ?thesis by (simp add: go_def fs_symlink_metadata_def act_simps lift_res_def)
next
  case At_Restrict
  with nf f u show ?thesis
    by (simp add: go_def restrict_file_permissions_def fs_set_permissions_def act_simps max_symlinks_def numeral_eq_Suc)
next
  case At_Read
  then have "length bs = http_bearer_hex_len" using ok f by auto
  with At_Read nf f v valid_bearer_utf8 [of bs] show ?thesis
    by (simp add: go_def fs_read_def act_simps max_symlinks_def numeral_eq_Suc from_utf8_def)
qed (use nc k in \<open>auto elim: only_refused.elims\<close>)

text \<open>Either nothing has happened yet, or some process is the creator; nobody else meets an I/O error.\<close>

definition race_alive :: "path \<Rightarrow> race \<Rightarrow> bool" where
  "race_alive dir s \<longleftrightarrow> list_all only_refused (ra_pcs s) \<and>
     ((\<forall>pc \<in> set (ra_pcs s). pc = At_Open) \<and> files (ra_world s) (token_path dir) = None \<and>
        check_parent (files (ra_world s)) (token_path dir) = Inr ()
      \<or> (\<exists>pc \<in> set (ra_pcs s). is_creator pc))"

lemma open_first:
  assumes "\<forall>n. h_fault H n = None" and "files w p = None" and "check_parent (files w) p = Inr ()"
  shows "\<exists>w'. open_new_private_file H p w = (Inr (), w')"
  using assms by (simp add: open_new_private_file_def fs_create_new_def act_simps)

lemma race_alive_move:
  assumes inv: "race_inv dir s" and al: "race_alive dir s" and i: "i < length (ra_pcs s)"
    and u: "h_unix H" and nf: "\<forall>n. h_fault H n = None" and k: "k \<noteq> 0"
  shows "race_alive dir (race_move H dir i k s)"
proof -
  let ?pc = "ra_pcs s ! i"
  let ?f = "files (ra_world s) (token_path dir)"
  obtain pc w where a: "advance H dir k ?pc (ra_world s) = (pc, w)"
    by (cases "advance H dir k ?pc (ra_world s)")
  have mv: "race_move H dir i k s = s\<lparr>ra_world := w, ra_pcs := (ra_pcs s)[i := pc]\<rparr>"
    by (simp add: race_move_def a)
  have ok: "pc_ok ?f (ra_pcs s ! j)" if "j < length (ra_pcs s)" for j
    using inv that by (simp add: race_inv_def)
  have oth: "list_all only_refused (ra_pcs s)" using al by (simp add: race_alive_def)
  then have refused: "list_all only_refused ((ra_pcs s)[i := pc])" if "only_refused pc"
    using that set_update_subset_insert [of "ra_pcs s" i pc] by (auto simp: list_all_iff)
  have here: "pc \<in> set ((ra_pcs s)[i := pc])" using i by (rule set_update_memI)
  show ?thesis
  proof (cases "\<exists>j < length (ra_pcs s). is_creator (ra_pcs s ! j)")
    case True
    then obtain j where j: "j < length (ra_pcs s)" "is_creator (ra_pcs s ! j)" by blast
    obtain bs where f: "?f = Some (Regular 384 bs)"
      "length bs = http_bearer_hex_len \<Longrightarrow> valid_http_bearer bs"
      using creator_file [OF j(2) ok [OF j(1)]] by blast
    show ?thesis
    proof (cases "is_creator ?pc")
      case True
      have "is_creator pc" using advance_creator [OF nf k True ok [OF i]] a by simp
      moreover from this have "only_refused pc" by (cases pc rule: only_refused.cases) auto
      ultimately show ?thesis using refused here by (auto simp: race_alive_def mv)
    next
      case False
      have "only_refused ?pc" using oth i by (simp add: list_all_length)
      from advance_other [OF nf u False this ok [OF i] f, of k] a have "only_refused pc" by simp
      moreover have "(ra_pcs s)[i := pc] ! j = ra_pcs s ! j" using False j(2) by (cases "i = j") auto
      then have "ra_pcs s ! j \<in> set ((ra_pcs s)[i := pc])" using j(1) by (metis length_list_update nth_mem)
      ultimately show ?thesis using refused j(2) by (auto simp: race_alive_def mv)
    qed
  next
    case False
    with al have o: "\<forall>pc \<in> set (ra_pcs s). pc = At_Open" "?f = None"
      "check_parent (files (ra_world s)) (token_path dir) = Inr ()"
      by (auto simp: race_alive_def in_set_conv_nth)
    have "?pc = At_Open" using o(1) i by simp
    with open_first [OF nf o(2,3)] a have "pc = At_Generate" by auto
    with refused here have "list_all only_refused ((ra_pcs s)[i := pc])"
      "\<exists>pc \<in> set ((ra_pcs s)[i := pc]). is_creator pc" by (auto intro!: bexI)
    then show ?thesis by (simp add: race_alive_def mv)
  qed
qed

lemma race_alive_run:
  assumes "race_inv dir s" and "race_alive dir s" and "h_unix H" and "\<forall>n. h_fault H n = None"
    and "list_all (\<lambda>(i, k). i < length (ra_pcs s) \<and> k \<noteq> 0) schedule"
  shows "race_alive dir (race_run H dir schedule s)"
  using assms
proof (induction schedule arbitrary: s)
  case (Cons m schedule)
  obtain i k where m: "m = (i, k)" by (cases m)
  with Cons.prems race_inv_move [of dir s i H k] race_alive_move [of dir s i H k] have
    "race_alive dir (race_run H dir schedule (race_move H dir i k s))"
    by (intro Cons.IH) auto
  with m show ?case by simp
qed simp

text \<open>
  C15. With no I/O fault and no credential yet, a race has a result: once every process has had 69 moves,
  some process returned a token, and the only error that the others can have met is
  \<open>InvalidHttpBearer\<close>.
\<close>

theorem some_process_gets_a_credential:
  assumes u: "h_unix H" and nf: "\<forall>m. h_fault H m = None" and n: "0 < n"
    and f: "files w (path_join dir ''http-token'') = None"
    and p: "check_parent (files w) (path_join dir ''http-token'') = Inr ()"
    and sch: "list_all (\<lambda>(i, k). i < n \<and> k \<noteq> 0) schedule"
    and fair: "\<forall>i < n. 69 \<le> length (filter (\<lambda>m. fst m = i) schedule)"
  shows "(\<exists>t. Returned (Inr t) \<in> set (ra_pcs (race_run H dir schedule (race_start n w)))) \<and>
    (\<forall>pc \<in> set (ra_pcs (race_run H dir schedule (race_start n w))).
       (\<exists>t. pc = Returned (Inr t)) \<or> pc = Returned (Inl Invalid_Http_Bearer))"
proof -
  let ?s = "race_run H dir schedule (race_start n w)"
  have len: "length (ra_pcs ?s) = n" by (simp add: race_start_def)
  have ret: "\<exists>r. pc = Returned r" if mem: "pc \<in> set (ra_pcs ?s)" for pc
  proof -
    obtain i where i': "i < length (ra_pcs ?s)" and i2: "pc = ra_pcs ?s ! i"
      using mem unfolding in_set_conv_nth by blast
    from i' have i1: "i < n" unfolding len .
    have "moves_left (ra_pcs ?s ! i) = 0"
      using race_run_left [of i "race_start n w" H dir schedule] fair i1 by (simp add: race_start_def)
    with i2 show ?thesis by (auto dest: no_moves_left)
  qed
  have "race_inv dir (race_start n w)" by (simp add: race_inv_def race_start_def)
  moreover have "race_alive dir (race_start n w)"
    using f p by (simp add: race_alive_def race_start_def token_path_def list_all_iff)
  ultimately have al: "race_alive dir ?s"
    using u nf sch by (intro race_alive_run) (simp_all add: race_start_def)
  have "ra_pcs ?s \<noteq> []" using len n by (metis length_0_conv less_numeral_extra(3))
  then have "hd (ra_pcs ?s) \<in> set (ra_pcs ?s)" by (rule hd_in_set)
  moreover from ret [OF this] have "hd (ra_pcs ?s) \<noteq> At_Open" by auto
  ultimately have "\<not> (\<forall>pc \<in> set (ra_pcs ?s). pc = At_Open)" by blast
  with al obtain pc where pc: "pc \<in> set (ra_pcs ?s)" "is_creator pc"
    unfolding race_alive_def by blast
  with ret obtain r where "pc = Returned r" by blast
  with pc have "\<exists>t. Returned (Inr t) \<in> set (ra_pcs ?s)" by (cases r) auto
  moreover have "(\<exists>t. pc = Returned (Inr t)) \<or> pc = Returned (Inl Invalid_Http_Bearer)"
    if mem: "pc \<in> set (ra_pcs ?s)" for pc
  proof -
    from ret [OF mem] obtain r where "pc = Returned r" by blast
    moreover have "only_refused pc" using al mem by (simp add: race_alive_def list_all_iff)
    ultimately show ?thesis by (cases r) auto
  qed
  ultimately show ?thesis by blast
qed

section \<open>Concrete races\<close>

definition race_dir :: path where
  "race_dir = Path True [''h'', ''.config'', ''folk-around'']"

definition race_home :: world where
  "race_home = demo_world\<lparr>files := map_of (map (\<lambda>p. (p, Dir 448)) (path_ancestors race_dir))\<rparr>"

definition race_token :: string where
  "race_token = concat (replicate 32 ''5a'')"

text \<open>The second process comes after the first has finished.\<close>

lemma race_after:
  "ra_pcs (race_run demo_host race_dir (replicate 5 (0, 64) @ replicate 4 (1, 64)) (race_start 2 race_home)) =
     [Returned (Inr race_token), Returned (Inr race_token)]"
  by code_simp

text \<open>
  The second process comes between the first one's creation of the file and its \<open>write\<close>: it is
  refused with \<open>InvalidHttpBearer\<close> although nothing is wrong, and the first one goes on to succeed.
\<close>

lemma concurrent_start_is_refused:
  "ra_pcs (race_run demo_host race_dir ([(0, 64), (1, 64), (1, 64)] @ replicate 4 (0, 64)) (race_start 2 race_home)) =
     [Returned (Inr race_token), Returned (Inl Invalid_Http_Bearer)]"
  by code_simp

theorem racing_processes_agree_witness:
  "\<exists>s. race_reachable demo_host race_dir 2 s \<and>
     ra_pcs s = [Returned (Inr race_token), Returned (Inr race_token)] \<and> length race_token = 64 \<and>
     files (ra_world s) (path_join race_dir ''http-token'') = Some (Regular 384 race_token)"
proof -
  let ?s = "race_run demo_host race_dir (replicate 5 (0, 64) @ replicate 4 (1, 64)) (race_start 2 race_home)"
  have r: "race_reachable demo_host race_dir 2 ?s"
    by (intro race_run_reachable race_reachable.start) (simp add: race_start_def list_all_iff)
  have "h_unix demo_host" by (simp add: demo_host_def)
  from racing_processes_agree [OF r this, of race_token race_token] race_after r show ?thesis by fastforce
qed

theorem credential_is_wait_free_witness:
  "\<exists>r. ra_pcs (race_run demo_host race_dir (replicate 69 (1, 1)) (race_start 2 race_home)) ! 1 = Returned r"
  by (rule credential_is_wait_free) simp_all

theorem some_process_gets_a_credential_witness:
  "\<exists>t. Returned (Inr t) \<in>
     set (ra_pcs (race_run demo_host race_dir (replicate 69 (0, 1) @ replicate 69 (1, 2)) (race_start 2 race_home)))"
proof -
  let ?a = "replicate 69 (0 :: nat, 1 :: nat) @ replicate 69 (1, 2)"
  have u: "h_unix demo_host" "\<forall>m. h_fault demo_host m = None" by (simp_all add: demo_host_def)
  have f: "files race_home (path_join race_dir ''http-token'') = None"
    "check_parent (files race_home) (path_join race_dir ''http-token'') = Inr ()" by code_simp+
  have s: "list_all (\<lambda>(i, k). i < 2 \<and> k \<noteq> 0) ?a" by (simp add: list_all_iff)
  have "\<forall>i < 2. 69 \<le> length (filter (\<lambda>m. fst m = i) ?a)" by (auto simp: less_2_cases_iff)
  from some_process_gets_a_credential [OF u _ f s this] show ?thesis by simp
qed

theorem alone_is_sequential_witness:
  "\<exists>w1 w'. race_run demo_host race_dir (replicate 5 (0, 64)) (race_start 1 w1) =
     \<lparr>ra_world = w', ra_pcs = [Returned (fst (load_or_create_http_bearer demo_host race_home))]\<rparr>"
proof -
  have "\<not> isl (fst ((ensure_private_dir demo_host race_dir :: (world, io_error, unit) act) race_home))"
    by code_simp
  from outcome_Inr [OF this] obtain u w1 where
    "(ensure_private_dir demo_host race_dir :: (world, io_error, unit) act) race_home = (Inr u, w1)" by blast
  then have e: "(ensure_private_dir demo_host race_dir :: (world, io_error, unit) act) race_home = (Inr (), w1)"
    by simp
  have c: "h_unix demo_host" "config_dir demo_host = Inr race_dir" by code_simp+
  obtain r w' where l: "load_or_create_http_bearer demo_host race_home = (r, w')"
    by (cases "load_or_create_http_bearer demo_host race_home")
  from alone_is_sequential [OF c e order.refl l] l show ?thesis by fastforce
qed

end
