(* ===== verification/Connections.thy ===== *)
theory Connections
  imports Sse_Stream
begin

text \<open>
  The crate \<open>folk-transport\<close>, the threads of the HTTP server: every accepted connection is served by a thread of
  its own, which runs \<open>handle_http_client\<close> (with \<open>send_sse\<close>) on a connection of its own. The threads share
  the host, which they use in \<open>handle_message\<close> without a lock, and the counter of streaming clients.

  A thread is its program counter and its connection. Each socket operation, the choice of the route and each
  atomic operation on the counter is one step, and the steps of the threads are interleaved in any order. A call of
  \<open>handle_message\<close> is entered in one event and left in another, with any answer: what the other threads do to the host
  in between is not restricted in any way.
\<close>

section \<open>Threads and their steps\<close>

datatype http_pc =
    Set_Read_Timeout
  | Set_Write_Timeout
  | Reading bytes "nat option"
  | Routing bytes
  | Calling json
  | Send_Head http_response
  | Send_Body http_response
  | Send_Flush
  | Acquire_Slot
  | Undo_Slot
  | Stream_Head
  | Stream_Endpoint
  | Stream_Flush
  | Keep_Write
  | Keep_Flush
  | Release_Slot "transport_error + unit"
  | Ended "transport_error + unit"

text \<open>
  The last three fields only record what happened: the answer of the thread's call of \<open>handle_message\<close>, the value of
  the counter that its \<open>fetch_add\<close> returned, and the number of keep-alive messages that it sent.
\<close>

record http_thread =
  th_pc :: http_pc
  th_conn :: conn
  th_call :: "(json \<times> (string + string option)) option"
  th_slot :: "32 word option"
  th_rounds :: nat

record http_server =
  hs_clients :: "32 word"
  hs_accepted :: "conn list"
  hs_threads :: "http_thread list"

text \<open>The program counter after an operation: the one for its error, or the next.\<close>

definition goto ::
  "(transport_error + 'a) \<times> conn \<Rightarrow> (transport_error \<Rightarrow> http_pc) \<Rightarrow> ('a \<Rightarrow> http_pc) \<Rightarrow> http_pc \<times> conn" where
  "goto result on_error next =
     (case result of
        (Inl e, c) \<Rightarrow> (on_error e, c)
      | (Inr x, c) \<Rightarrow> (next x, c))"

text \<open>The question mark operator, outside the stream and inside it, where \<open>send_sse\<close> still releases the slot.\<close>

definition failed :: "transport_error \<Rightarrow> http_pc" where
  "failed e = Ended (Inl e)"

definition stream_failed :: "transport_error \<Rightarrow> http_pc" where
  "stream_failed e = Release_Slot (Inl e)"

text \<open>What \<open>handle_http_post\<close> does with the request before it calls \<open>handle_message\<close>, and the answer it sends after.\<close>

definition post_decision :: "host \<Rightarrow> bytes \<Rightarrow> http_pc" where
  "post_decision H request =
     (case header_end request of
        None \<Rightarrow> Send_Head (bad_request ''missing headers'')
      | Some (offset, len) \<Rightarrow>
          (let body_start = offset + len; body_len = content_length (take offset request) in
           if body_len > max_http_body_bytes then Send_Head payload_too_large
           else if body_len = 0 \<or> body_start + body_len > length request
           then Send_Head (bad_request ''missing body'')
           else
             (case h_json_parse H (take body_len (drop body_start request)) of
                Inl e \<Rightarrow> Send_Head (bad_request ''invalid json'')
              | Inr msg \<Rightarrow> Calling msg)))"

definition post_answer :: "string option \<Rightarrow> http_response" where
  "post_answer answer =
     (case answer of Some out \<Rightarrow> ok_json out | None \<Rightarrow> plain 202 ''Accepted'' ''accepted'')"

text \<open>What \<open>handle_http_client\<close> does with the received bytes.\<close>

definition route_decision :: "host \<Rightarrow> string \<Rightarrow> bytes \<Rightarrow> http_pc" where
  "route_decision H bearer buffer =
     (case first_words buffer of (method, path) \<Rightarrow>
        (case header_end buffer of
           None \<Rightarrow> Send_Head (bad_request ''missing headers'')
         | Some (header_offset, _) \<Rightarrow>
             (let headers = take header_offset buffer in
              if has_header headers ''origin'' then Send_Head forbidden
              else if ((method = ''GET'' \<and> path = ''/sse'') \<or> (method = ''POST'' \<and> path = ''/message'')) \<and>
                \<not> authorized headers bearer
              then Send_Head unauthorized
              else if method = ''OPTIONS'' then Send_Head forbidden
              else if method = ''GET'' \<and> path = ''/health'' then Send_Head (plain 200 ''OK'' ''ok'')
              else if method = ''GET'' \<and> path = ''/sse'' then Acquire_Slot
              else if method = ''POST'' \<and> path = ''/message'' then post_decision H buffer
              else Send_Head (plain 404 ''Not Found'' ''not found''))))"

text \<open>After the call of \<open>handle_message\<close>.\<close>

definition after_call :: "string + string option \<Rightarrow> http_pc" where
  "after_call answer =
     (case answer of
        Inl e \<Rightarrow> failed (Transport_Json e)
      | Inr out \<Rightarrow> Send_Head (post_answer out))"

text \<open>A step of a thread that does not touch the shared counter.\<close>

fun serve_step :: "host \<Rightarrow> string \<Rightarrow> http_pc \<Rightarrow> conn \<Rightarrow> http_pc \<times> conn" where
  "serve_step H bearer Set_Read_Timeout c = goto (sock_op c) failed (\<lambda>_. Set_Write_Timeout)"
| "serve_step H bearer Set_Write_Timeout c = goto (sock_op c) failed (\<lambda>_. Reading [] None)"
| "serve_step H bearer (Reading buffer expected) c =
     goto (sock_read c) failed (\<lambda>chunk.
       if chunk = [] then Routing buffer
       else
         (case read_step (buffer @ chunk) expected of
            Read_Reject r \<Rightarrow> Send_Head r
          | Read_Done \<Rightarrow> Routing (buffer @ chunk)
          | Read_More expected' \<Rightarrow> Reading (buffer @ chunk) expected'))"
| "serve_step H bearer (Routing buffer) c = (route_decision H bearer buffer, c)"
| "serve_step H bearer (Send_Head r) c = goto (sock_write (response_bytes r) c) failed (\<lambda>_. Send_Body r)"
| "serve_step H bearer (Send_Body r) c = goto (sock_write (rs_body r) c) failed (\<lambda>_. Send_Flush)"
| "serve_step H bearer Send_Flush c = goto (sock_op c) failed (\<lambda>_. Ended (Inr ()))"
| "serve_step H bearer Stream_Head c = goto (sock_write sse_head c) stream_failed (\<lambda>_. Stream_Endpoint)"
| "serve_step H bearer Stream_Endpoint c = goto (sock_write sse_endpoint c) stream_failed (\<lambda>_. Stream_Flush)"
| "serve_step H bearer Stream_Flush c = goto (sock_op c) stream_failed (\<lambda>_. Keep_Write)"
| "serve_step H bearer Keep_Write c =
     goto (sock_write sse_keepalive c) (\<lambda>_. Release_Slot (Inr ())) (\<lambda>_. Keep_Flush)"
| "serve_step H bearer Keep_Flush c = goto (sock_op c) (\<lambda>_. Release_Slot (Inr ())) (\<lambda>_. Keep_Write)"
| "serve_step H bearer pc c = (pc, c)"

text \<open>
  A turn of a thread: the thread and the counter after it. \<open>fetch_add\<close> and \<open>fetch_sub\<close> are steps of their own. A
  thread inside \<open>handle_message\<close>, and one that has ended, stay as they are.
\<close>

definition thread_turn :: "host \<Rightarrow> string \<Rightarrow> http_thread \<Rightarrow> 32 word \<Rightarrow> http_thread \<times> 32 word" where
  "thread_turn H bearer t clients =
     (case th_pc t of
        Acquire_Slot \<Rightarrow>
          (t\<lparr>th_pc := if unat clients \<ge> max_sse_clients then Undo_Slot else Stream_Head, th_slot := Some clients\<rparr>,
           clients + 1)
      | Undo_Slot \<Rightarrow> (t\<lparr>th_pc := Send_Head too_many_clients\<rparr>, clients - 1)
      | Release_Slot r \<Rightarrow> (t\<lparr>th_pc := Ended r\<rparr>, clients - 1)
      | pc \<Rightarrow>
          (case serve_step H bearer pc (th_conn t) of
             (pc', c) \<Rightarrow>
               (t\<lparr>th_pc := pc', th_conn := c,
                  th_rounds := (if pc = Keep_Flush \<and> pc' = Keep_Write then Suc (th_rounds t) else th_rounds t)\<rparr>,
                clients)))"

text \<open>The call of \<open>handle_message\<close> returns.\<close>

definition thread_return :: "string + string option \<Rightarrow> http_thread \<Rightarrow> http_thread" where
  "thread_return answer t =
     (case th_pc t of
        Calling msg \<Rightarrow> t\<lparr>th_pc := after_call answer, th_call := Some (msg, answer)\<rparr>
      | _ \<Rightarrow> t)"

text \<open>A new connection is accepted, and served by a thread of its own.\<close>

definition new_thread :: "conn \<Rightarrow> http_thread" where
  "new_thread c =
     \<lparr>th_pc = Set_Read_Timeout, th_conn = c, th_call = None, th_slot = None, th_rounds = 0\<rparr>"

definition idle_server :: http_server where
  "idle_server = \<lparr>hs_clients = 0, hs_accepted = [], hs_threads = []\<rparr>"

text \<open>What the scheduler lets happen next; a list of events is any order of them.\<close>

datatype http_event = Connect conn | Turn nat | Return nat "string + string option"

fun http_event_step :: "host \<Rightarrow> string \<Rightarrow> http_event \<Rightarrow> http_server \<Rightarrow> http_server" where
  "http_event_step H bearer (Connect c) s =
     s\<lparr>hs_accepted := hs_accepted s @ [c], hs_threads := hs_threads s @ [new_thread c]\<rparr>"
| "http_event_step H bearer (Turn i) s =
     (if i < length (hs_threads s)
      then (case thread_turn H bearer (hs_threads s ! i) (hs_clients s) of
              (t, clients) \<Rightarrow> s\<lparr>hs_clients := clients, hs_threads := (hs_threads s)[i := t]\<rparr>)
      else s)"
| "http_event_step H bearer (Return i answer) s =
     (if i < length (hs_threads s)
      then s\<lparr>hs_threads := (hs_threads s)[i := thread_return answer (hs_threads s ! i)]\<rparr> else s)"

definition http_run :: "host \<Rightarrow> string \<Rightarrow> http_event list \<Rightarrow> http_server \<Rightarrow> http_server" where
  "http_run H bearer events s = fold (http_event_step H bearer) events s"

text \<open>What the operations and the run keep of every thread.\<close>

lemma thread_turn_other:
  assumes pc: "\<forall>r. th_pc t \<notin> {Acquire_Slot, Undo_Slot, Release_Slot r}"
    and s: "serve_step H bearer (th_pc t) (th_conn t) = (pc', c')"
  shows "thread_turn H bearer t clients =
    (t\<lparr>th_pc := pc', th_conn := c',
       th_rounds := (if th_pc t = Keep_Flush \<and> pc' = Keep_Write then Suc (th_rounds t) else th_rounds t)\<rparr>, clients)"
proof -
  have "thread_turn H bearer t clients =
      (case serve_step H bearer (th_pc t) (th_conn t) of
         (pc', c) \<Rightarrow>
           (t\<lparr>th_pc := pc', th_conn := c,
              th_rounds := (if th_pc t = Keep_Flush \<and> pc' = Keep_Write then Suc (th_rounds t) else th_rounds t)\<rparr>,
            clients))"
    using pc unfolding thread_turn_def by (cases "th_pc t") (simp_all del: serve_step.simps)
  then show ?thesis by (simp add: s del: serve_step.simps)
qed

text \<open>A property of connections and their threads that holds at the start and that every event keeps.\<close>

definition all_threads :: "(conn \<Rightarrow> http_thread \<Rightarrow> bool) \<Rightarrow> http_server \<Rightarrow> bool" where
  "all_threads P s \<longleftrightarrow> list_all2 P (hs_accepted s) (hs_threads s)"

lemma all_threads_run:
  assumes new: "\<And>c. P c (new_thread c)"
    and turn: "\<And>c t clients. P c t \<Longrightarrow> P c (fst (thread_turn H bearer t clients))"
    and return: "\<And>c t answer. P c t \<Longrightarrow> P c (thread_return answer t)"
  shows "all_threads P (http_run H bearer events idle_server)"
proof -
  have step: "all_threads P (http_event_step H bearer e s)" if "all_threads P s" for e s
  proof (cases e)
    case (Turn i)
    have "P (hs_accepted s ! i) (fst (thread_turn H bearer (hs_threads s ! i) (hs_clients s)))"
      if "i < length (hs_threads s)"
      using \<open>all_threads P s\<close> that turn by (simp add: all_threads_def list_all2_conv_all_nth)
    with that Turn show ?thesis
      by (auto simp: all_threads_def list_all2_conv_all_nth nth_list_update split: prod.split)
  next
    case (Return i answer)
    with that return show ?thesis
      by (auto simp: all_threads_def list_all2_conv_all_nth nth_list_update)
  qed (use that new in \<open>simp add: all_threads_def list_all2_appendI\<close>)
  have "all_threads P s \<Longrightarrow> all_threads P (fold (http_event_step H bearer) events s)" for s
    by (induction events arbitrary: s) (simp_all add: step)
  then show ?thesis by (simp add: http_run_def all_threads_def idle_server_def)
qed

lemma all_threads_nth:
  "all_threads P s \<Longrightarrow> i < length (hs_threads s) \<Longrightarrow> P (hs_accepted s ! i) (hs_threads s ! i)"
  by (simp add: all_threads_def list_all2_conv_all_nth)

section \<open>What is left of a thread, in one piece\<close>

text \<open>\<open>send_sse\<close> with the counter at \<open>clients\<close>, and the end of a connection that came to an outcome of \<open>handle_http_client\<close>.\<close>

definition stream_from :: "nat \<Rightarrow> 32 word \<Rightarrow> bool conn_act" where
  "stream_from n clients c = (case send_sse n clients c of (r, _, c') \<Rightarrow> (r, c'))"

definition finish :: "nat \<Rightarrow> 32 word \<Rightarrow> http_outcome \<Rightarrow> bool conn_act" where
  "finish n clients result = (case result of Finished \<Rightarrow> ret False | Streaming \<Rightarrow> stream_from n clients)"

definition received_rest ::
  "host \<Rightarrow> bool \<Rightarrow> tool_table \<Rightarrow> string \<Rightarrow> bytes option \<Rightarrow> http_outcome conn_act" where
  "received_rest H verbose table bearer received =
     (case received of None \<Rightarrow> ret Finished | Some buffer \<Rightarrow> route H verbose table bearer buffer)"

definition ended :: "transport_error + unit \<Rightarrow> transport_error + bool" where
  "ended r = (case r of Inl e \<Rightarrow> Inl e | Inr _ \<Rightarrow> Inr False)"

definition respond :: "http_response \<Rightarrow> bool conn_act" where
  "respond r = act_bind (send_response r) (\<lambda>_. ret False)"

fun rest_of :: "nat \<Rightarrow> host \<Rightarrow> bool \<Rightarrow> tool_table \<Rightarrow> string \<Rightarrow> 32 word \<Rightarrow> http_pc \<Rightarrow> bool conn_act" where
  "rest_of n H verbose table bearer k Set_Read_Timeout =
     act_bind (handle_http_client H verbose table bearer) (finish n k)"
| "rest_of n H verbose table bearer k Set_Write_Timeout =
     act_bind sock_op (\<lambda>_. act_bind (read_request [] None) (\<lambda>r.
     act_bind (received_rest H verbose table bearer r) (finish n k)))"
| "rest_of n H verbose table bearer k (Reading buffer expected) =
     act_bind (read_request buffer expected) (\<lambda>r.
     act_bind (received_rest H verbose table bearer r) (finish n k))"
| "rest_of n H verbose table bearer k (Routing buffer) =
     act_bind (route H verbose table bearer buffer) (finish n k)"
| "rest_of n H verbose table bearer k (Calling msg) =
     act_bind (act_map_err Transport_Json (in_world (handle_message H verbose table msg)))
       (\<lambda>answer. respond (post_answer answer))"
| "rest_of n H verbose table bearer k (Send_Head r) = respond r"
| "rest_of n H verbose table bearer k (Send_Body r) =
     act_bind (sock_write (rs_body r)) (\<lambda>_. act_bind sock_op (\<lambda>_. ret False))"
| "rest_of n H verbose table bearer k Send_Flush = act_bind sock_op (\<lambda>_. ret False)"
| "rest_of n H verbose table bearer k Acquire_Slot = stream_from n k"
| "rest_of n H verbose table bearer k Undo_Slot = respond too_many_clients"
| "rest_of n H verbose table bearer k Stream_Head = send_sse_inner n"
| "rest_of n H verbose table bearer k Stream_Endpoint =
     act_bind (sock_write sse_endpoint) (\<lambda>_. act_bind sock_op (\<lambda>_. sse_keepalives n))"
| "rest_of n H verbose table bearer k Stream_Flush = act_bind sock_op (\<lambda>_. sse_keepalives n)"
| "rest_of n H verbose table bearer k Keep_Write = sse_keepalives n"
| "rest_of n H verbose table bearer k Keep_Flush =
     act_match sock_op (\<lambda>_. sse_keepalives (n - 1)) (\<lambda>_. ret False)"
| "rest_of n H verbose table bearer k (Release_Slot r) = (\<lambda>c. (ended r, c))"
| "rest_of n H verbose table bearer k (Ended r) = (\<lambda>c. (ended r, c))"

lemma rest_of_start:
  "rest_of n H verbose table bearer k Set_Read_Timeout c =
     (case serve_connection n H verbose table bearer k c of (r, _, c') \<Rightarrow> (r, c'))"
  by (simp add: serve_connection_def finish_def stream_from_def act_bind_def ret_def
      split: prod.split sum.split http_outcome.split)

lemma respond_finish: "act_bind (done_with r) (finish n k) = respond r"
  by (simp add: done_with_def respond_def act_bind_assoc finish_def)

lemma route_in_two_steps:
  "act_bind (route H verbose table bearer buffer) (finish n k) =
     rest_of n H verbose table bearer k (route_decision H bearer buffer)"
proof -
  let ?rest = "rest_of n H verbose table bearer k"
  have answer: "(case answer of Some out \<Rightarrow> done_with (ok_json out) | None \<Rightarrow> done_with (plain 202 ''Accepted'' ''accepted'')) =
      done_with (post_answer answer)" for answer by (cases answer) (simp_all add: post_answer_def)
  have post: "act_bind (handle_http_post H verbose table buffer) (finish n k) = ?rest (post_decision H buffer)"
    by (simp add: post_decision_def handle_http_post_def answer Let_def respond_finish act_bind_assoc
        split: option.split sum.split)
  have stream: "act_bind (ret Streaming) (finish n k) = ?rest Acquire_Slot"
    by (simp add: finish_def)
  show ?thesis
    by (cases "first_words buffer"; cases "header_end buffer")
      (simp_all only: route_def route_decision_def prod.case option.case Let_def stream post rest_of.simps(6) respond_finish
        if_distrib [of ?rest] if_distrib [of "\<lambda>m. act_bind m (finish n k)"] split_paired_all)
qed

text \<open>One step of a thread leaves the rest of it as it was.\<close>

lemma goto_bind:
  assumes "goto (m c) on_error next = (pc, c')" and "\<And>x. f x = rest_of n H verbose table bearer k (next x)"
    and "\<And>e d. rest_of n H verbose table bearer k (on_error e) d = (Inl e, d)"
  shows "rest_of n H verbose table bearer k pc c' = act_bind m f c"
  using assms by (auto simp: goto_def act_bind_def split: prod.splits sum.splits)

lemma error_rest:
  "rest_of n H verbose table bearer k (failed e) d = (Inl e, d)"
  "rest_of n H verbose table bearer k (stream_failed e) d = (Inl e, d)"
  by (simp_all add: failed_def stream_failed_def ended_def)

lemma step_rest:
  assumes s: "serve_step H bearer pc c = (pc', c')" and "pc \<noteq> Keep_Flush"
  shows "rest_of (Suc m) H verbose table bearer k pc' c' = rest_of (Suc m) H verbose table bearer k pc c"
proof (cases pc)
  case (Reading buffer expected)
  obtain v c1 where v: "sock_read c = (v, c1)" by (cases "sock_read c")
  with s Reading show ?thesis
    by (cases v) (auto simp: goto_def act_bind_def received_rest_def respond_def error_rest act_match_def
        ret_def finish_def read_request.simps [of buffer expected c]
        split: read_outcome.splits prod.splits sum.splits)
next
  case (Routing buffer)
  with s show ?thesis by (simp add: route_in_two_steps)
next
  case Set_Read_Timeout
  with s show ?thesis
    by (auto simp: handle_http_client_def received_rest_def [abs_def] act_bind_assoc error_rest intro!: goto_bind)
next
  case (Send_Head r)
  with s show ?thesis
    by (auto simp: respond_def send_response_def act_bind_assoc error_rest intro!: goto_bind)
next
  case Keep_Write
  with s show ?thesis
    by (auto simp: goto_def act_match_def ended_def ret_def split: prod.splits sum.splits)
next
  case Stream_Head
  with s show ?thesis by (auto simp: send_sse_inner_def error_rest intro!: goto_bind)
qed (use assms in \<open>auto simp: error_rest ended_def ret_def intro!: goto_bind\<close>)

lemma flush_rest:
  assumes "serve_step H bearer Keep_Flush c = (pc', c')"
  shows "rest_of (if pc' = Keep_Write then m else Suc m) H verbose table bearer k pc' c' =
    rest_of (Suc m) H verbose table bearer k Keep_Flush c"
  using assms by (auto simp: goto_def act_match_def ended_def ret_def split: prod.splits sum.splits)

lemma sock_ops_in_world:
  "sock_op (c\<lparr>c_world := v\<rparr>) = (case sock_op c of (r, c') \<Rightarrow> (r, c'\<lparr>c_world := v\<rparr>))"
  "sock_write bs (c\<lparr>c_world := v\<rparr>) = (case sock_write bs c of (r, c') \<Rightarrow> (r, c'\<lparr>c_world := v\<rparr>))"
  "sock_read (c\<lparr>c_world := v\<rparr>) = (case sock_read c of (r, c') \<Rightarrow> (r, c'\<lparr>c_world := v\<rparr>))"
  by (simp_all add: sock_op_def sock_write_def sock_read_def act_bind_def split: option.split prod.split)

lemma goto_in_world:
  "goto (case x of (r, c) \<Rightarrow> (r, c\<lparr>c_world := v\<rparr>)) on_error next =
     (case goto x on_error next of (pc, c) \<Rightarrow> (pc, c\<lparr>c_world := v\<rparr>))"
  by (simp add: goto_def split: prod.split sum.split)

lemma step_in_world:
  "serve_step H bearer pc (c\<lparr>c_world := v\<rparr>) =
     (case serve_step H bearer pc c of (pc', c') \<Rightarrow> (pc', c'\<lparr>c_world := v\<rparr>))"
  by (cases pc) (simp_all add: sock_ops_in_world goto_in_world)

section \<open>A thread alone\<close>

text \<open>What a client sees of its connection: the result and the bytes sent.\<close>

definition outcome :: "(transport_error + bool) \<times> conn \<Rightarrow> (transport_error + bool) \<times> bytes" where
  "outcome x = (fst x, c_sent (snd x))"

definition alone ::
  "nat \<Rightarrow> host \<Rightarrow> bool \<Rightarrow> tool_table \<Rightarrow> string \<Rightarrow> 32 word \<Rightarrow> conn \<Rightarrow> (transport_error + bool) \<times> bytes" where
  "alone n H verbose table bearer clients c =
     (case serve_connection n H verbose table bearer clients c of (r, _, c') \<Rightarrow> outcome (r, c'))"

text \<open>The host \<open>w\<close> and the counter \<open>clients\<close> give the answers that the thread was given.\<close>

definition agrees :: "host \<Rightarrow> bool \<Rightarrow> tool_table \<Rightarrow> world \<Rightarrow> 32 word \<Rightarrow> http_thread \<Rightarrow> bool" where
  "agrees H verbose table w clients t \<longleftrightarrow>
     pred_option (\<lambda>(msg, answer). fst (handle_message H verbose table msg w) = answer) (th_call t) \<and>
     pred_option (\<lambda>k. clients = k) (th_slot t)"

fun before_slot :: "http_pc \<Rightarrow> bool" where
  "before_slot Set_Read_Timeout = True"
| "before_slot Set_Write_Timeout = True"
| "before_slot (Reading buffer expected) = True"
| "before_slot (Routing buffer) = True"
| "before_slot (Calling msg) = True"
| "before_slot Acquire_Slot = True"
| "before_slot _ = False"

text \<open>Whatever host and counter agree with the thread: what is left of it completes what the whole would be alone.\<close>

definition on_course :: "host \<Rightarrow> string \<Rightarrow> conn \<Rightarrow> http_thread \<Rightarrow> bool" where
  "on_course H bearer c t \<longleftrightarrow>
     (before_slot (th_pc t) \<longrightarrow> th_call t = None \<and> th_slot t = None) \<and>
     (\<forall>verbose table w clients n. agrees H verbose table w clients t \<longrightarrow> th_rounds t < n \<longrightarrow>
        outcome (rest_of (n - th_rounds t) H verbose table bearer clients (th_pc t) ((th_conn t)\<lparr>c_world := w\<rparr>)) =
          alone n H verbose table bearer clients (c\<lparr>c_world := w\<rparr>))"

lemma on_courseI:
  assumes "before_slot (th_pc t) \<Longrightarrow> th_call t = None \<and> th_slot t = None"
    and "\<And>verbose table w clients n. agrees H verbose table w clients t \<Longrightarrow> th_rounds t < n \<Longrightarrow>
      outcome (rest_of (n - th_rounds t) H verbose table bearer clients (th_pc t) ((th_conn t)\<lparr>c_world := w\<rparr>)) =
        alone n H verbose table bearer clients (c\<lparr>c_world := w\<rparr>)"
  shows "on_course H bearer c t"
  using assms by (simp add: on_course_def)

lemma on_courseD:
  assumes "on_course H bearer c t" and "agrees H verbose table w clients t" and "th_rounds t < n"
  shows "outcome (rest_of (n - th_rounds t) H verbose table bearer clients (th_pc t) ((th_conn t)\<lparr>c_world := w\<rparr>)) =
    alone n H verbose table bearer clients (c\<lparr>c_world := w\<rparr>)"
  using assms by (simp add: on_course_def)

lemma new_on_course: "on_course H bearer c (new_thread c)"
  by (rule on_courseI) (simp_all add: new_thread_def rest_of_start alone_def split: prod.split del: rest_of.simps)

lemma stays_before_slot:
  "serve_step H bearer pc c = (pc', c') \<Longrightarrow> before_slot pc' \<Longrightarrow> before_slot pc"
  by (cases pc) (auto simp: goto_def failed_def stream_failed_def split: sum.splits prod.splits)

lemma step_on_course:
  assumes inv: "on_course H bearer c t" and s: "serve_step H bearer (th_pc t) (th_conn t) = (pc', c')"
    and r: "r = (if th_pc t = Keep_Flush \<and> pc' = Keep_Write then Suc (th_rounds t) else th_rounds t)"
  shows "on_course H bearer c (t\<lparr>th_pc := pc', th_conn := c', th_rounds := r\<rparr>)"
proof (rule on_courseI)
  show "th_call (t\<lparr>th_pc := pc', th_conn := c', th_rounds := r\<rparr>) = None \<and>
      th_slot (t\<lparr>th_pc := pc', th_conn := c', th_rounds := r\<rparr>) = None"
    if "before_slot (th_pc (t\<lparr>th_pc := pc', th_conn := c', th_rounds := r\<rparr>))"
    using that inv stays_before_slot [OF s] by (simp add: on_course_def)
  fix verbose table w clients n
  let ?t = "t\<lparr>th_pc := pc', th_conn := c', th_rounds := r\<rparr>"
  let ?rest = "\<lambda>n. rest_of n H verbose table bearer clients"
  assume "agrees H verbose table w clients ?t" and n: "th_rounds ?t < n"
  then have a: "agrees H verbose table w clients t" by (simp add: agrees_def)
  obtain m where m: "n - th_rounds t = Suc m" using n r by (cases "n - th_rounds t") (auto split: if_splits)
  have s': "serve_step H bearer (th_pc t) ((th_conn t)\<lparr>c_world := w\<rparr>) = (pc', c'\<lparr>c_world := w\<rparr>)"
    by (simp add: step_in_world s)
  have "?rest (n - r) pc' (c'\<lparr>c_world := w\<rparr>) = ?rest (Suc m) (th_pc t) ((th_conn t)\<lparr>c_world := w\<rparr>)"
  proof (cases "th_pc t = Keep_Flush")
    case True
    have "n - Suc (th_rounds t) = m" using m by simp
    with flush_rest [OF s' [unfolded True], of m] m r True show ?thesis by (auto split: if_splits)
  next
    case False
    from step_rest [OF s' False] m r False show ?thesis by simp
  qed
  moreover have "th_rounds t < n" using n r by (simp split: if_splits)
  from on_courseD [OF inv a this] have "outcome (?rest (Suc m) (th_pc t) ((th_conn t)\<lparr>c_world := w\<rparr>)) =
      alone n H verbose table bearer clients (c\<lparr>c_world := w\<rparr>)" by (simp only: m)
  ultimately show "outcome (?rest (n - th_rounds ?t) (th_pc ?t) ((th_conn ?t)\<lparr>c_world := w\<rparr>)) =
      alone n H verbose table bearer clients (c\<lparr>c_world := w\<rparr>)" by simp
qed

lemma slot_on_course:
  assumes inv: "on_course H bearer c t" and pc: "\<not> before_slot pc"
    and a: "\<And>verbose table w clients. agrees H verbose table w clients (t\<lparr>th_pc := pc, th_slot := slot\<rparr>) \<Longrightarrow>
      agrees H verbose table w clients t"
    and rest: "\<And>verbose table clients n. pred_option (\<lambda>k. clients = k) slot \<Longrightarrow>
      rest_of n H verbose table bearer clients pc = rest_of n H verbose table bearer clients (th_pc t)"
  shows "on_course H bearer c (t\<lparr>th_pc := pc, th_slot := slot\<rparr>)"
  using pc rest on_courseD [OF inv a] by (intro on_courseI) (simp_all add: agrees_def)

lemma acquire_rest:
  "rest_of n H verbose table bearer k (if unat k \<ge> max_sse_clients then Undo_Slot else Stream_Head) =
   rest_of n H verbose table bearer k Acquire_Slot"
  by (rule ext) (simp add: stream_from_def send_sse_def acquire_sse_slot_def respond_def act_map_def split: prod.split sum.split bool.split)

lemma turn_on_course:
  assumes inv: "on_course H bearer c t"
  shows "on_course H bearer c (fst (thread_turn H bearer t clients))"
proof (cases "\<exists>r. th_pc t \<in> {Acquire_Slot, Undo_Slot, Release_Slot r}")
  case False
  obtain pc' c' where s: "serve_step H bearer (th_pc t) (th_conn t) = (pc', c')"
    by (cases "serve_step H bearer (th_pc t) (th_conn t)")
  from False have "\<forall>r. th_pc t \<notin> {Acquire_Slot, Undo_Slot, Release_Slot r}" by blast
  from thread_turn_other [OF this s, of clients] step_on_course [OF inv s refl] show ?thesis by simp
next
  case True
  then consider (acquire) "th_pc t = Acquire_Slot" | (undo) "th_pc t = Undo_Slot"
    | (release) r where "th_pc t = Release_Slot r" by blast
  then show ?thesis
  proof cases
    case acquire
    let ?pc = "if unat clients \<ge> max_sse_clients then Undo_Slot else Stream_Head"
    have "th_slot t = None" using inv acquire by (simp add: on_course_def)
    then have "on_course H bearer c (t\<lparr>th_pc := ?pc, th_slot := Some clients\<rparr>)"
      using acquire_rest [where k = clients] unfolding acquire [symmetric]
      by (intro slot_on_course [OF inv]) (auto simp: agrees_def acquire)
    then show ?thesis by (simp add: thread_turn_def acquire)
  next
    case undo
    have "on_course H bearer c (t\<lparr>th_pc := Send_Head too_many_clients, th_slot := th_slot t\<rparr>)"
      by (intro slot_on_course [OF inv]) (auto simp: agrees_def undo)
    then show ?thesis by (simp add: thread_turn_def undo)
  next
    case release
    have "on_course H bearer c (t\<lparr>th_pc := Ended r, th_slot := th_slot t\<rparr>)"
      by (intro slot_on_course [OF inv]) (auto simp: agrees_def release)
    then show ?thesis by (simp add: thread_turn_def release)
  qed
qed

lemma sock_in_world [simp]:
  "outcome (respond r (c\<lparr>c_world := v\<rparr>)) = outcome (respond r c)"
  by (simp add: outcome_def respond_def send_response_def act_bind_def ret_def sock_ops_in_world
      split: prod.split sum.split)

lemma call_rest:
  assumes "fst (handle_message H verbose table msg w) = answer"
  shows "outcome (rest_of n H verbose table bearer k (after_call answer) (c\<lparr>c_world := w\<rparr>)) =
    outcome (rest_of n H verbose table bearer k (Calling msg) (c\<lparr>c_world := w\<rparr>))"
proof -
  obtain w' where m: "handle_message H verbose table msg w = (answer, w')"
    using assms by (cases "handle_message H verbose table msg w") simp
  have d: "c\<lparr>c_world := w'\<rparr> = (c\<lparr>c_world := w\<rparr>)\<lparr>c_world := w'\<rparr>" by simp
  show ?thesis
  proof (cases answer)
    case (Inl e)
    with m show ?thesis
      by (simp add: after_call_def error_rest act_bind_def act_map_err_def in_world_def outcome_def)
  next
    case (Inr out)
    with m show ?thesis
      by (simp add: after_call_def act_bind_def act_map_err_def in_world_def)
  qed
qed

lemma return_on_course:
  assumes inv: "on_course H bearer c t"
  shows "on_course H bearer c (thread_return answer t)"
proof (cases "\<exists>msg. th_pc t = Calling msg")
  case True
  then obtain msg where msg: "th_pc t = Calling msg" by blast
  let ?t = "t\<lparr>th_pc := after_call answer, th_call := Some (msg, answer)\<rparr>"
  have none: "th_call t = None" using inv msg by (simp add: on_course_def)
  have "on_course H bearer c ?t"
  proof (rule on_courseI)
    assume "before_slot (th_pc ?t)"
    then show "th_call ?t = None \<and> th_slot ?t = None"
      by (simp add: after_call_def failed_def split: sum.splits)
  next
    fix verbose table w clients n
    assume a: "agrees H verbose table w clients ?t" and n: "th_rounds ?t < n"
    from a have m: "fst (handle_message H verbose table msg w) = answer" by (simp add: agrees_def)
    from a none have "agrees H verbose table w clients t" by (simp add: agrees_def)
    with on_courseD [OF inv this] n call_rest [OF m] msg
    show "outcome (rest_of (n - th_rounds ?t) H verbose table bearer clients (th_pc ?t) ((th_conn ?t)\<lparr>c_world := w\<rparr>)) =
        alone n H verbose table bearer clients (c\<lparr>c_world := w\<rparr>)" by simp
  qed
  then show ?thesis by (simp add: thread_return_def msg)
qed (use inv in \<open>simp add: thread_return_def split: http_pc.split\<close>)

text \<open>
  C18. The threads of the HTTP server do not disturb each other but through the host and the counter: take any
  connections, accepted at any time, and any interleaving of the steps of their threads, with any answers of the host
  to the calls of \<open>handle_message\<close>. When a thread has ended, its result and the bytes that it sent are those of its
  connection served alone, in one piece, on any host that answers its call as it was answered and with
  the counter at the value that it found. (The alone service of an event stream is followed for more rounds than the
  client took.)
\<close>

theorem threads_are_isolated:
  assumes "s = http_run H bearer events idle_server" and "i < length (hs_threads s)"
    and "t = hs_threads s ! i" and "th_pc t = Ended r"
    and "\<And>msg answer. th_call t = Some (msg, answer) \<Longrightarrow> fst (handle_message H verbose table msg w) = answer"
    and "\<And>k. th_slot t = Some k \<Longrightarrow> clients = k" and "th_rounds t < n"
  shows "\<exists>clients' c'. serve_connection n H verbose table bearer clients ((hs_accepted s ! i)\<lparr>c_world := w\<rparr>) =
      ((case r of Inl e \<Rightarrow> Inl e | Inr _ \<Rightarrow> Inr False), clients', c') \<and> c_sent c' = c_sent (th_conn t)"
proof -
  have "all_threads (on_course H bearer) s"
    unfolding assms(1) by (rule all_threads_run) (auto intro: new_on_course turn_on_course return_on_course)
  from all_threads_nth [OF this assms(2)] have inv: "on_course H bearer (hs_accepted s ! i) t" by (simp add: assms(3))
  have "agrees H verbose table w clients t"
    using assms(5,6) unfolding agrees_def by (auto simp: option.pred_set)
  from on_courseD [OF inv this assms(7)] assms(4) show ?thesis
    by (auto simp: alone_def outcome_def ended_def split: prod.splits)
qed

text \<open>Two clients, a silent one and the holder of the token, whose call the host answers.\<close>

definition silent_conn :: conn where
  "silent_conn = \<lparr>c_input = [], c_sent = [], c_ops = 0, c_fault = (\<lambda>_. None), c_world = demo_world\<rparr>"

definition ping_json :: json where
  "ping_json = Object [(''id'', jnat 1), (''method'', Str ''ping'')]"

definition two_clients :: http_server where
  "two_clients = http_run ping_host ''tok''
     [Connect demo_conn, Turn 0, Connect silent_conn, Turn 1, Turn 0, Turn 0, Turn 1, Turn 0,
      Return 0 (Inr (Some [])), Turn 0, Turn 1, Turn 0, Turn 0] idle_server"

lemma demo_route: "route_decision ping_host ''tok'' demo_request = Calling ping_json"
  using demo_request_dispatch demo_request_facts demo_request_length demo_conn_facts(4)
  by (simp add: route_decision_def post_decision_def ping_json_def may_dispatch_def Let_def max_http_body_bytes_def)

lemma demo_read: "read_step demo_request None = Read_Done"
  using demo_request_facts demo_request_length
  by (simp add: read_step_def expected_length_def max_http_header_bytes_def max_http_body_bytes_def Let_def)

lemma demo_request_nonempty: "demo_request \<noteq> []" "take 4096 demo_request = demo_request" "drop 4096 demo_request = []"
  using demo_request_facts(5) by auto

lemmas sock_defs = sock_read_def sock_write_def sock_op_def act_bind_def

lemma two_clients_state:
  "length (hs_threads two_clients) = 2" "hs_accepted two_clients ! 0 = demo_conn"
  "th_pc (hs_threads two_clients ! 0) = Ended (Inr ())" "th_slot (hs_threads two_clients ! 0) = None"
  "th_call (hs_threads two_clients ! 0) = Some (ping_json, Inr (Some []))" "th_rounds (hs_threads two_clients ! 0) = 0"
  by (simp_all add: two_clients_def http_run_def idle_server_def new_thread_def thread_turn_def thread_return_def after_call_def
      goto_def sock_defs demo_conn_def demo_route demo_read demo_request_nonempty silent_conn_def)

theorem threads_are_isolated_witness:
  "\<exists>clients' c'. serve_connection 1 ping_host True (table_new Full) ''tok'' 0 (demo_conn\<lparr>c_world := demo_world\<rparr>) =
     (Inr False, clients', c') \<and> c_sent c' = c_sent (th_conn (hs_threads two_clients ! 0))"
proof -
  have "fst (handle_message ping_host True (table_new Full) ping_json demo_world) = Inr (Some [])"
    using Http.ping_message by (auto simp: ping_json_def)
  then show ?thesis
    using threads_are_isolated [OF two_clients_def _ refl two_clients_state(3), of True "table_new Full" demo_world 0 1]
      two_clients_state by auto
qed

section \<open>Who calls\<close>

text \<open>The message is the body of a complete request that the client sent, authorized for \<open>/message\<close>.\<close>

definition asked_for :: "host \<Rightarrow> string \<Rightarrow> conn \<Rightarrow> json \<Rightarrow> bool" where
  "asked_for H bearer c msg \<longleftrightarrow>
     (\<exists>buffer offset len. prefix buffer (concat (c_input c)) \<and> may_dispatch bearer buffer \<and>
        header_end buffer = Some (offset, len) \<and>
        h_json_parse H (take (content_length (take offset buffer)) (drop (offset + len) buffer)) = Inr msg)"

text \<open>What a thread has of its client's bytes, and what is still to come.\<close>

fun has_read :: "host \<Rightarrow> string \<Rightarrow> conn \<Rightarrow> http_pc \<Rightarrow> bytes \<Rightarrow> bool" where
  "has_read H bearer c Set_Read_Timeout input \<longleftrightarrow> input = concat (c_input c)"
| "has_read H bearer c Set_Write_Timeout input \<longleftrightarrow> input = concat (c_input c)"
| "has_read H bearer c (Reading buffer expected) input \<longleftrightarrow> buffer @ input = concat (c_input c)"
| "has_read H bearer c (Routing buffer) input \<longleftrightarrow> buffer @ input = concat (c_input c)"
| "has_read H bearer c (Calling msg) input \<longleftrightarrow> asked_for H bearer c msg"
| "has_read H bearer c pc input \<longleftrightarrow> True"

definition thread_read :: "host \<Rightarrow> string \<Rightarrow> conn \<Rightarrow> http_thread \<Rightarrow> bool" where
  "thread_read H bearer c t \<longleftrightarrow>
     has_read H bearer c (th_pc t) (concat (c_input (th_conn t))) \<and>
     pred_option (\<lambda>(msg, answer). asked_for H bearer c msg) (th_call t)"

lemma route_calls:
  assumes "route_decision H bearer buffer = Calling msg"
  shows "may_dispatch bearer buffer \<and> (\<exists>offset len. header_end buffer = Some (offset, len) \<and>
    h_json_parse H (take (content_length (take offset buffer)) (drop (offset + len) buffer)) = Inr msg)"
  using assms
  by (auto simp: route_decision_def post_decision_def may_dispatch_def Let_def
      split: prod.splits option.splits if_splits sum.splits)

lemma has_read_other:
  "\<not> before_slot pc \<or> pc = Acquire_Slot \<Longrightarrow> has_read H bearer c pc input"
  by (cases pc) auto

lemma route_has_read:
  assumes "buffer @ input = concat (c_input c)"
  shows "has_read H bearer c (route_decision H bearer buffer) input"
proof (cases "\<exists>msg. route_decision H bearer buffer = Calling msg")
  case True
  then obtain msg where m: "route_decision H bearer buffer = Calling msg" by blast
  have "prefix buffer (concat (c_input c))" using assms by (metis prefixI)
  with route_calls [OF m] m show ?thesis by (auto simp: asked_for_def)
next
  case False
  then have "\<not> before_slot (route_decision H bearer buffer) \<or> route_decision H bearer buffer = Acquire_Slot"
    by (auto simp: route_decision_def post_decision_def Let_def split: prod.splits option.splits sum.splits)
  then show ?thesis by (rule has_read_other)
qed

lemma step_has_read:
  assumes "has_read H bearer c pc (concat (c_input d))" and s: "serve_step H bearer pc d = (pc', d')"
  shows "has_read H bearer c pc' (concat (c_input d'))"
proof (cases pc)
  case (Reading buffer expected)
  obtain v e where v: "sock_read d = (v, e)" by (cases "sock_read d")
  show ?thesis
  proof (cases v)
    case (Inl err)
    with s v Reading show ?thesis by (auto simp: goto_def failed_def)
  next
    case (Inr chunk)
    with sock_read_chunk(1) [of d chunk e] v assms(1) Reading
    have "(buffer @ chunk) @ concat (c_input e) = concat (c_input c)" by simp
    with s v Inr Reading show ?thesis by (auto simp: goto_def split: read_outcome.splits if_splits)
  qed
next
  case (Routing buffer)
  with assms route_has_read show ?thesis by auto
qed (use assms in \<open>auto simp: goto_def failed_def stream_failed_def sock_op_def split: sum.splits prod.splits option.splits\<close>)

lemma new_thread_read: "thread_read H bearer c (new_thread c)"
  by (simp add: thread_read_def new_thread_def)

lemma turn_thread_read:
  assumes "thread_read H bearer c t"
  shows "thread_read H bearer c (fst (thread_turn H bearer t clients))"
proof (cases "\<exists>r. th_pc t \<in> {Acquire_Slot, Undo_Slot, Release_Slot r}")
  case True
  with assms show ?thesis by (auto simp: thread_turn_def thread_read_def)
next
  case False
  obtain pc' c' where s: "serve_step H bearer (th_pc t) (th_conn t) = (pc', c')"
    by (cases "serve_step H bearer (th_pc t) (th_conn t)")
  from False have "\<forall>r. th_pc t \<notin> {Acquire_Slot, Undo_Slot, Release_Slot r}" by blast
  from thread_turn_other [OF this s, of clients] assms step_has_read [OF _ s] show ?thesis
    by (simp add: thread_read_def)
qed

lemma return_thread_read:
  "thread_read H bearer c t \<Longrightarrow> thread_read H bearer c (thread_return answer t)"
  by (cases "th_pc t")
    (auto simp: thread_return_def thread_read_def after_call_def failed_def split: sum.split)

text \<open>
  C28. Every call is the token holder's own: in any interleaving of the threads, a message that a thread is
  handling, or that it has handled, is the parsed body of a complete POST to \<open>/message\<close> at the start of the bytes that its
  own client sent, with the bearer token and without an \<open>Origin\<close> header.
\<close>

theorem every_call_is_authorized:
  assumes "s = http_run H bearer events idle_server" and "i < length (hs_threads s)" and "t = hs_threads s ! i"
    and "th_pc t = Calling msg \<or> th_call t = Some (msg, answer)"
  shows "\<exists>buffer offset len. prefix buffer (concat (c_input (hs_accepted s ! i))) \<and> may_dispatch bearer buffer \<and>
    header_end buffer = Some (offset, len) \<and>
    h_json_parse H (take (content_length (take offset buffer)) (drop (offset + len) buffer)) = Inr msg"
proof -
  have "all_threads (thread_read H bearer) s"
    unfolding assms(1) by (rule all_threads_run) (auto intro: new_thread_read turn_thread_read return_thread_read)
  from all_threads_nth [OF this assms(2)] assms(3,4) have "asked_for H bearer (hs_accepted s ! i) msg"
    by (auto simp: thread_read_def)
  then show ?thesis by (simp add: asked_for_def)
qed

theorem every_call_is_authorized_witness:
  "\<exists>buffer offset len. prefix buffer demo_request \<and> may_dispatch ''tok'' buffer \<and> header_end buffer = Some (offset, len) \<and>
     h_json_parse ping_host (take (content_length (take offset buffer)) (drop (offset + len) buffer)) = Inr ping_json"
proof -
  have "concat (c_input demo_conn) = demo_request" by (simp add: demo_conn_def)
  with every_call_is_authorized [OF two_clients_def _ refl disjI2 [OF two_clients_state(5)]] two_clients_state(1,2)
  show ?thesis by simp
qed

section \<open>No thread waits for another\<close>

text \<open>
  A thread has come to rest when it has ended, when it waits for its own call of \<open>handle_message\<close>, and when it
  serves an event stream. How many turns it may need until then, counting one byte for every read:
\<close>

fun turns_needed :: "http_pc \<Rightarrow> nat \<Rightarrow> nat" where
  "turns_needed Set_Read_Timeout input = input + 9"
| "turns_needed Set_Write_Timeout input = input + 8"
| "turns_needed (Reading buffer expected) input = input + 7"
| "turns_needed (Routing buffer) input = 6"
| "turns_needed Acquire_Slot input = 5"
| "turns_needed Undo_Slot input = 4"
| "turns_needed (Send_Head r) input = 3"
| "turns_needed (Send_Body r) input = 2"
| "turns_needed Send_Flush input = 1"
| "turns_needed Stream_Head input = 4"
| "turns_needed Stream_Endpoint input = 3"
| "turns_needed Stream_Flush input = 2"
| "turns_needed (Release_Slot r) input = 1"
| "turns_needed _ input = 0"

definition at_rest :: "http_pc \<Rightarrow> bool" where
  "at_rest pc \<longleftrightarrow> pc \<in> {Keep_Write, Keep_Flush} \<or> (\<exists>msg. pc = Calling msg) \<or> (\<exists>r. pc = Ended r)"

definition thread_turns_needed :: "http_thread \<Rightarrow> nat" where
  "thread_turns_needed t = turns_needed (th_pc t) (input_size (th_conn t))"

lemma at_rest_iff: "at_rest (th_pc t) \<longleftrightarrow> thread_turns_needed t = 0"
  by (cases "th_pc t") (simp_all add: at_rest_def thread_turns_needed_def)

lemma sock_op_input: "sock_op c = (r, c') \<Longrightarrow> input_size c' = input_size c"
  by (auto simp: sock_op_def input_size_def)

lemma route_decision_turns: "turns_needed (route_decision H bearer buffer) input \<le> 5"
  by (simp add: route_decision_def post_decision_def Let_def split: prod.split option.split sum.split)

lemma step_turns:
  assumes "serve_step H bearer pc c = (pc', c')" and "turns_needed pc (input_size c) \<noteq> 0"
    and "\<forall>r. pc \<notin> {Acquire_Slot, Undo_Slot, Release_Slot r}"
  shows "turns_needed pc' (input_size c') < turns_needed pc (input_size c)"
proof (cases pc)
  case (Reading buffer expected)
  obtain v c1 where v: "sock_read c = (v, c1)" by (cases "sock_read c")
  show ?thesis
    using assms(1) Reading v sock_read_smaller [of c _ c1]
    by (cases v) (auto simp: goto_def failed_def split: read_outcome.split)
next
  case (Routing buffer)
  with assms(1) route_decision_turns [of H bearer buffer "input_size c"] show ?thesis by simp
qed (use assms sock_op_input [of c] in
    \<open>auto simp: goto_def failed_def stream_failed_def split: sum.splits prod.splits\<close>)

lemma turn_turns:
  assumes "thread_turns_needed t \<noteq> 0"
  shows "thread_turns_needed (fst (thread_turn H bearer t clients)) < thread_turns_needed t"
proof (cases "\<exists>r. th_pc t \<in> {Acquire_Slot, Undo_Slot, Release_Slot r}")
  case True
  then show ?thesis by (auto simp: thread_turn_def thread_turns_needed_def)
next
  case False
  obtain pc' c' where s: "serve_step H bearer (th_pc t) (th_conn t) = (pc', c')"
    by (cases "serve_step H bearer (th_pc t) (th_conn t)")
  from False have n: "\<forall>r. th_pc t \<notin> {Acquire_Slot, Undo_Slot, Release_Slot r}" by blast
  from thread_turn_other [OF n s, of clients] assms step_turns [OF s _ n] show ?thesis
    by (simp add: thread_turns_needed_def)
qed

lemma event_turns:
  assumes i: "i < length (hs_threads s)" and t: "\<not> at_rest (th_pc (hs_threads s ! i))"
  shows "i < length (hs_threads (http_event_step H bearer e s)) \<and>
    thread_turns_needed (hs_threads (http_event_step H bearer e s) ! i) + (if e = Turn i then 1 else 0)
      \<le> thread_turns_needed (hs_threads s ! i)"
proof (cases e)
  case (Turn j)
  have "thread_turns_needed (fst (thread_turn H bearer (hs_threads s ! i) (hs_clients s))) < thread_turns_needed (hs_threads s ! i)"
    using t by (intro turn_turns) (simp add: at_rest_iff)
  with i Turn show ?thesis by (cases "i = j") (auto split: prod.split)
next
  case (Return j answer)
  have "thread_return answer (hs_threads s ! i) = hs_threads s ! i"
    using t by (simp add: thread_return_def at_rest_def split: http_pc.split)
  with i Return show ?thesis by (cases "i = j") auto
qed (use i in \<open>simp add: nth_append\<close>)

text \<open>
  C19. No connection waits for another: whatever else happens, a thread comes to rest within a number of
  its own turns that depends only on where it is and on the bytes that its client sends, nine more than these for a new
  connection, three after its call: it ends, or waits for its own call of \<open>handle_message\<close>, or serves
  an event stream.
\<close>

theorem connections_are_wait_free:
  assumes "i < length (hs_threads s)"
    and "turns_needed (th_pc (hs_threads s ! i)) (input_size (th_conn (hs_threads s ! i))) \<le> count_list events (Turn i)"
  shows "\<exists>before after. events = before @ after \<and>
    (let pc = th_pc (hs_threads (http_run H bearer before s) ! i)
     in pc = Keep_Write \<or> pc = Keep_Flush \<or> (\<exists>msg. pc = Calling msg) \<or> (\<exists>r. pc = Ended r))"
proof -
  have "\<exists>before after. events = before @ after \<and> at_rest (th_pc (hs_threads (http_run H bearer before s) ! i))"
    using assms unfolding thread_turns_needed_def [symmetric]
  proof (induction events arbitrary: s)
    case Nil
    then show ?case by (simp add: http_run_def at_rest_iff)
  next
    case (Cons e events)
    show ?case
    proof (cases "at_rest (th_pc (hs_threads s ! i))")
      case True
      then show ?thesis by (intro exI [of _ "[]"] exI [of _ "e # events"]) (simp add: http_run_def)
    next
      case False
      let ?s = "http_event_step H bearer e s"
      have "i < length (hs_threads ?s)" "thread_turns_needed (hs_threads ?s ! i) \<le> count_list events (Turn i)"
        using event_turns [OF Cons.prems(1) False, of H bearer e] Cons.prems(2) by (auto split: if_splits)
      from Cons.IH [OF this] obtain before after where "events = before @ after"
        "at_rest (th_pc (hs_threads (http_run H bearer before ?s) ! i))" by blast
      then show ?thesis by (intro exI [of _ "e # before"] exI [of _ after]) (simp add: http_run_def)
    qed
  qed
  then show ?thesis by (auto simp: at_rest_def Let_def)
qed

theorem connections_are_wait_free_witness:
  "\<exists>before after. concat (replicate 9 [Turn 0, Connect demo_conn, Turn 1]) = before @ after \<and>
     (let pc = th_pc (hs_threads (http_run ping_host ''tok'' before (http_event_step ping_host ''tok'' (Connect silent_conn) idle_server)) ! 0)
      in pc = Keep_Write \<or> pc = Keep_Flush \<or> (\<exists>msg. pc = Calling msg) \<or> (\<exists>r. pc = Ended r))"
  by (rule connections_are_wait_free)
    (simp_all add: idle_server_def new_thread_def silent_conn_def input_size_def eval_nat_numeral)

section \<open>The streams and their slots\<close>

text \<open>
  Where a thread is in the slot protocol of the theory \<open>Sse\<close>: \<open>Arriving\<close> until its \<open>fetch_add\<close>, so a thread that serves
  no stream stays there.
\<close>

definition slot_pc :: "http_thread \<Rightarrow> sse_pc" where
  "slot_pc t =
     (if th_slot t = None then Arriving
      else case th_pc t of
             Undo_Slot \<Rightarrow> Backing_Out
           | Stream_Head \<Rightarrow> Opening
           | Stream_Endpoint \<Rightarrow> Opening
           | Stream_Flush \<Rightarrow> Opening
           | Keep_Write \<Rightarrow> Keeping_Alive
           | Keep_Flush \<Rightarrow> Keeping_Alive
           | Release_Slot r \<Rightarrow> Releasing
           | Ended r \<Rightarrow> Gone
           | _ \<Rightarrow> Refusing)"

fun in_stream :: "http_pc \<Rightarrow> bool" where
  "in_stream Undo_Slot = True"
| "in_stream Stream_Head = True"
| "in_stream Stream_Endpoint = True"
| "in_stream Stream_Flush = True"
| "in_stream Keep_Write = True"
| "in_stream Keep_Flush = True"
| "in_stream (Release_Slot r) = True"
| "in_stream _ = False"

definition slot_known :: "http_thread \<Rightarrow> bool" where
  "slot_known t \<longleftrightarrow>
     (before_slot (th_pc t) \<longrightarrow> th_slot t = None) \<and> (in_stream (th_pc t) \<longrightarrow> th_slot t \<noteq> None)"

text \<open>A turn in the slot protocol: nothing, or one of its steps.\<close>

inductive slot_turn :: "sse_pc \<Rightarrow> 32 word \<Rightarrow> sse_pc \<Rightarrow> 32 word \<Rightarrow> bool" where
  stay: "slot_turn pc k pc k"
| taken: "slot_turn Arriving k (if unat k \<ge> max_sse_clients then Backing_Out else Opening) (k + 1)"
| undo: "slot_turn Backing_Out k Refusing (k - 1)"
| refused: "slot_turn Refusing k Gone k"
| opened: "slot_turn Opening k Keeping_Alive k"
| open_failed: "slot_turn Opening k Releasing k"
| left: "slot_turn Keeping_Alive k Releasing k"
| release: "slot_turn Releasing k Gone (k - 1)"

lemma step_slot_turn:
  assumes s: "serve_step H bearer pc c = (pc', c')"
    and pc: "\<forall>r. pc \<notin> {Acquire_Slot, Undo_Slot, Release_Slot r}" and k: "slot_known t" "th_pc t = pc"
  shows "slot_known (t\<lparr>th_pc := pc', th_conn := c', th_rounds := n\<rparr>) \<and>
    slot_turn (slot_pc t) k (slot_pc (t\<lparr>th_pc := pc', th_conn := c', th_rounds := n\<rparr>)) k"
proof (cases "th_slot t")
  case None
  with s k show ?thesis
    by (cases pc) (auto simp: slot_known_def slot_pc_def goto_def failed_def route_decision_def post_decision_def Let_def
        intro: slot_turn.intros split: sum.splits prod.splits option.splits read_outcome.splits if_splits)
next
  case (Some j)
  with s k pc show ?thesis
    by (cases pc) (auto simp: slot_known_def slot_pc_def goto_def failed_def stream_failed_def
        intro: slot_turn.intros split: sum.splits prod.splits)
qed

lemma thread_slot_turn:
  assumes "slot_known t" and "thread_turn H bearer t k = (t', k')"
  shows "slot_known t' \<and> slot_turn (slot_pc t) k (slot_pc t') k'"
proof (cases "\<exists>r. th_pc t \<in> {Acquire_Slot, Undo_Slot, Release_Slot r}")
  case True
  then consider (acquire) "th_pc t = Acquire_Slot" | (undo) "th_pc t = Undo_Slot"
    | (release) r where "th_pc t = Release_Slot r" by blast
  then show ?thesis
  proof cases
    case acquire
    with assms slot_turn.taken [of k] show ?thesis
      by (auto simp: thread_turn_def slot_known_def slot_pc_def split: if_splits)
  next
    case undo
    with assms slot_turn.undo [of k] show ?thesis by (auto simp: thread_turn_def slot_known_def slot_pc_def)
  next
    case release
    with assms slot_turn.release [of k] show ?thesis by (auto simp: thread_turn_def slot_known_def slot_pc_def)
  qed
next
  case False
  obtain pc' c' where s: "serve_step H bearer (th_pc t) (th_conn t) = (pc', c')"
    by (cases "serve_step H bearer (th_pc t) (th_conn t)")
  from False have n: "\<forall>r. th_pc t \<notin> {Acquire_Slot, Undo_Slot, Release_Slot r}" by blast
  from thread_turn_other [OF n s, of k] assms(2) step_slot_turn [OF s n assms(1) refl] show ?thesis by auto
qed

lemma return_slot:
  assumes "slot_known t"
  shows "slot_known (thread_return answer t) \<and> slot_pc (thread_return answer t) = slot_pc t"
  using assms by (cases "th_pc t")
    (auto simp: thread_return_def slot_known_def slot_pc_def after_call_def failed_def split: sum.split)

lemma slot_turn_step:
  assumes "slot_turn pc k pc' k'" and i: "i < length (sse_pcs q)" "sse_pcs q ! i = pc" and k: "sse_clients q = k"
  shows "\<exists>q'. rtranclp sse_step q q' \<and> sse_clients q' = k' \<and> sse_pcs q' = (sse_pcs q)[i := pc']"
proof -
  note facts = fetch_add_slot_def fetch_sub_slot_def goto_pc_def
  have one: ?thesis if "sse_step q q'" "sse_clients q' = k'" "sse_pcs q' = (sse_pcs q)[i := pc']" for q'
    using that by (intro exI [of _ q']) (simp add: r_into_rtranclp)
  from assms(1) show ?thesis
  proof cases
    case stay
    with i k show ?thesis by (metis list_update_id rtranclp.rtrancl_refl)
  next
    case taken
    with i k show ?thesis by (intro one [OF sse_step.acquire [of i q]]) (simp_all add: facts)
  next
    case undo
    with i k show ?thesis by (intro one [OF sse_step.back_out [of i q]]) (simp_all add: facts)
  next
    case refused
    with i k show ?thesis by (intro one [OF sse_step.refuse [of i q]]) (simp_all add: facts)
  next
    case opened
    with i k show ?thesis by (intro one [OF sse_step.opened [of i q]]) (simp_all add: facts)
  next
    case open_failed
    with i k show ?thesis by (intro one [OF sse_step.open_failed [of i q]]) (simp_all add: facts)
  next
    case left
    with i k show ?thesis by (intro one [OF sse_step.client_left [of i q]]) (simp_all add: facts)
  next
    case release
    with i k show ?thesis by (intro one [OF sse_step.release [of i q]]) (simp_all add: facts)
  qed
qed

lemma reachable_steps: "rtranclp sse_step q q' \<Longrightarrow> sse_reachable n q \<Longrightarrow> sse_reachable n q'"
  by (induction rule: rtranclp_induct) (auto intro: sse_reachable.step)

text \<open>One more thread that has not arrived yet makes no difference to the others.\<close>

definition with_arrival :: "sse_state \<Rightarrow> sse_state" where
  "with_arrival q = q\<lparr>sse_pcs := sse_pcs q @ [Arriving]\<rparr>"

lemma step_with_arrival:
  assumes "sse_step q q'"
  shows "sse_step (with_arrival q) (with_arrival q')"
proof -
  have n: "t < length (sse_pcs (with_arrival q)) \<and> sse_pcs (with_arrival q) ! t = pc"
    if "t < length (sse_pcs q)" "sse_pcs q ! t = pc" for t pc
    using that by (simp add: with_arrival_def nth_append)
  have u: "with_arrival (fetch_add_slot t q) = fetch_add_slot t (with_arrival q)"
    "with_arrival (fetch_sub_slot t pc q) = fetch_sub_slot t pc (with_arrival q)"
    "with_arrival (goto_pc t pc q) = goto_pc t pc (with_arrival q)"
    "with_arrival (r\<lparr>sse_refused := m\<rparr>) = (with_arrival r)\<lparr>sse_refused := m\<rparr>"
    "sse_refused (with_arrival q) = sse_refused q"
    if "t < length (sse_pcs q)" for t pc r m
    using that
    by (simp_all add: with_arrival_def fetch_add_slot_def fetch_sub_slot_def goto_pc_def list_update_append1)
  from assms show ?thesis
  proof cases
    case (acquire t)
    with n [OF acquire(2,3)] u [OF acquire(2)] show ?thesis by (auto intro: sse_step.intros)
  next
    case (back_out t)
    with n [OF back_out(2,3)] u [OF back_out(2)] show ?thesis by (auto intro: sse_step.intros)
  next
    case (refuse t)
    with n [OF refuse(2,3)] u [OF refuse(2)] sse_step.refuse [of t "with_arrival q"] show ?thesis by simp
  next
    case (opened t)
    with n [OF opened(2,3)] u [OF opened(2)] show ?thesis by (auto intro: sse_step.intros)
  next
    case (open_failed t)
    with n [OF open_failed(2,3)] u [OF open_failed(2)] show ?thesis by (auto intro: sse_step.intros)
  next
    case (keep_alive t)
    with n [OF keep_alive(2,3)] show ?thesis by (auto intro: sse_step.intros)
  next
    case (client_left t)
    with n [OF client_left(2,3)] u [OF client_left(2)] show ?thesis by (auto intro: sse_step.intros)
  next
    case (release t)
    with n [OF release(2,3)] u [OF release(2)] show ?thesis by (auto intro: sse_step.intros)
  qed
qed

lemma reachable_with_arrival: "sse_reachable n q \<Longrightarrow> sse_reachable (Suc n) (with_arrival q)"
proof (induction rule: sse_reachable.induct)
  case start
  have "with_arrival (sse_start n) = sse_start (Suc n)"
    by (simp add: with_arrival_def sse_start_def replicate_append_same)
  then show ?case using sse_reachable.start [of "Suc n"] by simp
next
  case (step s s')
  then show ?case by (blast intro: sse_reachable.step step_with_arrival)
qed

definition follows_slots :: "http_server \<Rightarrow> bool" where
  "follows_slots s \<longleftrightarrow> list_all slot_known (hs_threads s) \<and>
     (\<exists>q. sse_reachable (length (hs_threads s)) q \<and> sse_clients q = hs_clients s \<and>
        sse_pcs q = map slot_pc (hs_threads s))"

lemma event_follows_slots:
  assumes "follows_slots s"
  shows "follows_slots (http_event_step H bearer e s)"
proof -
  from assms obtain q where known: "list_all slot_known (hs_threads s)"
    and q: "sse_reachable (length (hs_threads s)) q" "sse_clients q = hs_clients s"
      "sse_pcs q = map slot_pc (hs_threads s)"
    unfolding follows_slots_def by blast
  show ?thesis
  proof (cases e)
    case (Connect c)
    have "slot_pc (new_thread c) = Arriving" "slot_known (new_thread c)"
      by (simp_all add: slot_pc_def slot_known_def new_thread_def)
    with reachable_with_arrival [OF q(1)] q known Connect show ?thesis
      unfolding follows_slots_def by (intro conjI exI [of _ "with_arrival q"]) (simp_all add: with_arrival_def)
  next
    case (Turn i)
    show ?thesis
    proof (cases "i < length (hs_threads s)")
      case True
      obtain t k where t: "thread_turn H bearer (hs_threads s ! i) (hs_clients s) = (t, k)"
        by (cases "thread_turn H bearer (hs_threads s ! i) (hs_clients s)")
      have "slot_known (hs_threads s ! i)" using known True by (simp add: list_all_length)
      from thread_slot_turn [OF this t] have k: "slot_known t"
        and turn: "slot_turn (slot_pc (hs_threads s ! i)) (hs_clients s) (slot_pc t) k" by simp_all
      from slot_turn_step [OF turn, of i q] True q obtain q' where "rtranclp sse_step q q'" "sse_clients q' = k"
        "sse_pcs q' = (sse_pcs q)[i := slot_pc t]" by auto
      with reachable_steps [OF _ q(1)] q(3) k known True Turn t show ?thesis
        unfolding follows_slots_def
        by (intro conjI exI [of _ q']) (auto simp: map_update list_all_length nth_list_update)
    qed (use assms Turn in simp)
  next
    case (Return i answer)
    show ?thesis
    proof (cases "i < length (hs_threads s)")
      case True
      then have "slot_known (hs_threads s ! i)" using known by (simp add: list_all_length)
      note r = return_slot [OF this, of answer]
      then have "map slot_pc ((hs_threads s)[i := thread_return answer (hs_threads s ! i)]) = map slot_pc (hs_threads s)"
        using True by (simp add: map_update list_update_same_conv)
      with r known True q Return show ?thesis
        unfolding follows_slots_def
        by (intro conjI exI [of _ q]) (auto simp: list_all_length nth_list_update)
    qed (use assms Return in simp)
  qed
qed

lemma run_follows_slots: "follows_slots (http_run H bearer events idle_server)"
proof -
  have "follows_slots s \<Longrightarrow> follows_slots (fold (http_event_step H bearer) events s)" for s
    by (induction events arbitrary: s) (simp_all add: event_follows_slots)
  moreover have "follows_slots idle_server"
    using sse_reachable.start [of 0]
    by (auto simp: follows_slots_def idle_server_def sse_start_def)
  ultimately show ?thesis by (simp add: http_run_def)
qed

text \<open>
  C39. The connection threads follow the slot protocol: in every run of the server, however its threads are
  interleaved, the counter and the threads are in a reachable state of the protocol of \<open>Sse\<close>. So at most 32
  connections are between taking a slot and giving it back, whatever the others do and however each ends, and
  the counter is the number of these and of the threads that must still undo a refused attempt.
\<close>

theorem streams_follow_the_slot_protocol:
  assumes "s = http_run H bearer events idle_server" and "length (hs_threads s) < 2 ^ 32"
  shows "(\<exists>q. sse_reachable (length (hs_threads s)) q \<and> sse_clients q = hs_clients s \<and>
       sse_pcs q = map slot_pc (hs_threads s)) \<and>
    length (filter (\<lambda>t. in_stream (th_pc t) \<and> th_pc t \<noteq> Undo_Slot) (hs_threads s)) \<le> 32 \<and>
    unat (hs_clients s) = length (filter (\<lambda>t. in_stream (th_pc t)) (hs_threads s))"
proof -
  from run_follows_slots obtain q where known: "list_all slot_known (hs_threads s)"
    and q: "sse_reachable (length (hs_threads s)) q" "sse_clients q = hs_clients s"
      "sse_pcs q = map slot_pc (hs_threads s)"
    unfolding assms(1) follows_slots_def by blast
  have i: "sse_inv (length (hs_threads s)) q" using q(1) assms(2) by (rule sse_inv_reachable)
  have "holds_slot (slot_pc t) \<longleftrightarrow> in_stream (th_pc t) \<and> th_pc t \<noteq> Undo_Slot"
    "counted_pc (slot_pc t) \<longleftrightarrow> in_stream (th_pc t)" if "t \<in> set (hs_threads s)" for t
    using known that
    by (cases "th_pc t"; auto simp: list_all_iff slot_known_def slot_pc_def holds_slot_def counted_pc_def)+
  then have "filter (\<lambda>t. holds_slot (slot_pc t)) (hs_threads s) =
      filter (\<lambda>t. in_stream (th_pc t) \<and> th_pc t \<noteq> Undo_Slot) (hs_threads s)"
    "filter (\<lambda>t. counted_pc (slot_pc t)) (hs_threads s) = filter (\<lambda>t. in_stream (th_pc t)) (hs_threads s)"
    by (auto intro: filter_cong)
  then have "holders q = length (filter (\<lambda>t. in_stream (th_pc t) \<and> th_pc t \<noteq> Undo_Slot) (hs_threads s))"
    "counted q = length (filter (\<lambda>t. in_stream (th_pc t)) (hs_threads s))"
    by (simp_all add: holders_def counted_def q(3) filter_map comp_def)
  with i q show ?thesis by (auto simp: sse_inv_def max_sse_clients_def)
qed

theorem streams_follow_the_slot_protocol_witness:
  "unat (hs_clients two_clients) = length (filter (\<lambda>t. in_stream (th_pc t)) (hs_threads two_clients))"
  using streams_follow_the_slot_protocol [OF two_clients_def] two_clients_state(1) by simp

end
