(* ===== verification/Repo_Tests.thy ===== *)
theory Repo_Tests
  imports Service Sse_Stream
begin

text \<open>
  The unit tests of the repository, first part: those of \<open>folk-core\<close>, \<open>folk-mcp\<close>, \<open>folk-transport\<close>
  and \<open>folk-around\<close>. Each \<open>#[test]\<close> function is a definition of the same name after \<open>test_\<close>: the same
  calls, the same assertions, on the model. A test that \<open>unwrap\<close>s an error, or asserts something
  false, has the value \<open>False\<close>. Tests that do not depend on the machine are proved for every host
  and every state of it; the others on a concrete machine.
\<close>

section \<open>What the tests use of the standard library\<close>

text \<open>An action that must succeed, with an assertion on its value.\<close>

definition passes :: "('s, 'e, 'a) act \<Rightarrow> ('a \<Rightarrow> bool) \<Rightarrow> 's \<Rightarrow> bool" where
  "passes m check s \<longleftrightarrow> (case m s of (Inr x, _) \<Rightarrow> check x | (Inl _, _) \<Rightarrow> False)"

lemma passes_ret [simp]: "passes (ret x) P s \<longleftrightarrow> P x"
  by (simp add: passes_def ret_def)

text \<open>\<open>str::contains\<close> and \<open>value[key]\<close>, which is \<open>null\<close> when there is no such member.\<close>

fun contains :: "string \<Rightarrow> string \<Rightarrow> bool" where
  "contains [] pat \<longleftrightarrow> pat = []"
| "contains (c # s) pat \<longleftrightarrow> starts_with pat (c # s) \<or> contains s pat"

definition at_key :: "json \<Rightarrow> string \<Rightarrow> json" where
  "at_key v key = (case jget v key of Some x \<Rightarrow> x | None \<Rightarrow> Null)"

fun at_index :: "json \<Rightarrow> nat \<Rightarrow> json" where
  "at_index (Array vs) i = (if i < length vs then vs ! i else Null)"
| "at_index _ i = Null"

definition temp_dir :: "host \<Rightarrow> path" where
  "temp_dir H = path_from (case h_env H ''TMPDIR'' of Some d \<Rightarrow> d | None \<Rightarrow> ''/tmp'')"

text \<open>\<open>fs::metadata(p)?.permissions().mode() & 0o777\<close>.\<close>

definition fs_mode :: "host \<Rightarrow> path \<Rightarrow> (world, io_error, nat) act" where
  "fs_mode H p =
     act_bind (fs_open H p) (\<lambda>q.
     act_bind get_files (\<lambda>fs.
       (case fs q of
          Some (Dir m) \<Rightarrow> ret m
        | Some (Regular m bs) \<Rightarrow> ret m
        | _ \<Rightarrow> fail err_not_found)))"

text \<open>\<open>fs::remove_dir\<close>: an empty directory.\<close>

definition err_not_empty :: io_error where
  "err_not_empty = Io_Error (Other_Kind 39) ''Directory not empty (os error 39)''"

definition fs_remove_dir :: "host \<Rightarrow> path \<Rightarrow> (world, io_error, unit) act" where
  "fs_remove_dir H p =
     act_bind (io_step H) (\<lambda>_.
     act_bind get_files (\<lambda>fs.
       (case fs p of
          Some (Dir m) \<Rightarrow>
            if \<forall>q. q \<noteq> p \<longrightarrow> path_parent q = p \<longrightarrow> fs q = None then put_node p None else fail err_not_empty
        | Some _ \<Rightarrow> fail err_not_dir
        | None \<Rightarrow> fail err_not_found)))"

section \<open>folk-core\<close>

definition test_access_mode_should_parse_known_modes :: bool where
  "test_access_mode_should_parse_known_modes \<longleftrightarrow>
     access_mode_parse ''full'' = Some Full \<and> access_mode_parse ''limited'' = Some Limited \<and>
     access_mode_parse ''sandbox'' = Some Sandbox \<and> access_mode_parse ''bad'' = None"

definition is_ascii_hexdigit :: "char \<Rightarrow> bool" where
  "is_ascii_hexdigit c \<longleftrightarrow> is_ascii_digit c \<or> 97 \<le> byte_val c \<and> byte_val c \<le> 102 \<or>
     65 \<le> byte_val c \<and> byte_val c \<le> 70"

definition test_pairing_code_should_be_hex_16_chars :: "host \<Rightarrow> world \<Rightarrow> bool" where
  "test_pairing_code_should_be_hex_16_chars H =
     passes (generate_pairing_code H :: (world, io_error, string) act)
       (\<lambda>code. length code = 16 \<and> list_all is_ascii_hexdigit code)"

definition test_http_bearer_should_be_bounded_lowercase_hex :: "host \<Rightarrow> world \<Rightarrow> bool" where
  "test_http_bearer_should_be_bounded_lowercase_hex H =
     passes (generate_http_bearer H :: (world, io_error, string) act)
       (\<lambda>token. valid_http_bearer token \<and> \<not> valid_http_bearer (token @ ''0'') \<and>
          \<not> valid_http_bearer (replicate http_bearer_hex_len CHR ''A''))"

definition test_credential_paths_should_be_owner_only :: "host \<Rightarrow> world \<Rightarrow> bool" where
  "test_credential_paths_should_be_owner_only H =
     passes
       (act_bind (fill_bytes H 8) (\<lambda>random.
        let dir = path_join (temp_dir H) (''folk-around-http-token-'' @ hex_digits 16 (be_val random)) in
        act_bind (ensure_private_dir H dir) (\<lambda>_.
        let p = path_join dir ''token'' in
        act_bind (open_new_private_file H p) (\<lambda>_.
        act_bind (fs_mode H dir) (\<lambda>dir_mode.
        act_bind (fs_mode H p) (\<lambda>file_mode.
        act_bind (fs_remove_file H p) (\<lambda>_.
        act_bind (fs_remove_dir H dir) (\<lambda>_.
        ret (dir_mode, file_mode)))))))))
       (\<lambda>(dir_mode, file_mode). dir_mode mod 512 = 448 \<and> file_mode mod 512 = 384)"

section \<open>folk-mcp\<close>

definition test_initialize_should_match_protocol_shape :: "host \<Rightarrow> world \<Rightarrow> bool" where
  "test_initialize_should_match_protocol_shape H =
     passes
       (handle_message H False (table_new Full)
          (jobj [(''jsonrpc'', Str ''2.0''), (''id'', jnat 1), (''method'', Str ''initialize'')]))
       (\<lambda>response.
          case response of
            None \<Rightarrow> False
          | Some out \<Rightarrow>
              (case h_json_parse H out of
                 Inl _ \<Rightarrow> False
               | Inr v \<Rightarrow>
                   at_key (at_key v ''result'') ''protocolVersion'' = Str ''2024-11-05'' \<and>
                   (case as_str (at_key (at_key (at_key v ''result'') ''serverInfo'') ''name'') of
                      None \<Rightarrow> False
                    | Some name \<Rightarrow> starts_with ''folk-around'' name)))"

definition test_notification_should_not_respond :: "host \<Rightarrow> world \<Rightarrow> bool" where
  "test_notification_should_not_respond H =
     passes
       (handle_message H False (table_new Full)
          (jobj [(''jsonrpc'', Str ''2.0''), (''method'', Str ''notifications/initialized'')]))
       (\<lambda>response. response = None)"

definition test_tool_logs_exclude_arguments_and_results :: bool where
  "test_tool_logs_exclude_arguments_and_results \<longleftrightarrow>
     (let message = tool_log ''finished''
      in message = ''tool finished'' \<and> \<not> contains message ''private-text'')"

section \<open>folk-around\<close>

definition test_version_flag_should_parse :: bool where
  "test_version_flag_should_parse \<longleftrightarrow>
     (let c = parse_args_from [''--version''] in cl_version c \<and> \<not> cl_help c)"

definition test_short_version_flag_should_parse :: bool where
  "test_short_version_flag_should_parse \<longleftrightarrow> cl_version (parse_args_from [''-V''])"

section \<open>folk-transport\<close>

definition test_websocket_url_should_match_legacy_shape :: "relay_crates \<Rightarrow> bool" where
  "test_websocket_url_should_match_legacy_shape C \<longleftrightarrow>
     signal_websocket_url C ''https://folkaround.undivisible.dev'' ''room'' =
       Inr ''wss://folkaround.undivisible.dev/signal/room''"

definition test_http_bind_addr_should_be_loopback_only :: bool where
  "test_http_bind_addr_should_be_loopback_only \<longleftrightarrow> http_bind_addr 8080 = (''127.0.0.1'', 8080)"

definition test_relay_sender_should_match_established_peer :: "host \<Rightarrow> relay_crates \<Rightarrow> world \<Rightarrow> bool" where
  "test_relay_sender_should_match_established_peer H C w \<longleftrightarrow>
     (let peer = replicate 64 CHR ''a'' in
      passes
        (p2p_manager_new H C False (table_new Full) ''https://example.com'' ''room'' :: (world, io_error, p2p_manager) act)
        (\<lambda>m. passes (act_bind (establish_session C peer) (\<lambda>_. get_manager))
           (\<lambda>m'. ensure_relay_sender m' peer = Inr () \<and>
              isl (ensure_relay_sender m' (replicate 64 CHR ''b'')))
           \<lparr>r_manager = m, r_sent = [], r_sends = 0, r_connections = 0, r_world = w\<rparr>)
        w)"

definition test_stdio_reader_should_accept_raw_json_line :: "pipe \<Rightarrow> bool" where
  "test_stdio_reader_should_accept_raw_json_line p =
     (let line = [CHR 0x7B, CHR 0x22] @ ''jsonrpc'' @ [CHR 0x22, CHR 0x3A, CHR 0x22] @ ''2.0'' @ [CHR 0x22, CHR 0x7D]
      in passes read_stdio_message (\<lambda>body. body = Some line) (p\<lparr>p_input := line\<rparr>))"

text \<open>
  A request over a fresh connection, which delivers it in one segment, to a server whose bearer
  token is 64 times \<open>a\<close>: the response, if the server's thread ends without an error.
\<close>

definition test_conn :: "string \<Rightarrow> world \<Rightarrow> conn" where
  "test_conn request w =
     \<lparr>c_input = [request], c_sent = [], c_ops = 0, c_fault = (\<lambda>_. None), c_world = w\<rparr>"

definition send_test_http_request :: "host \<Rightarrow> string \<Rightarrow> world \<Rightarrow> string option" where
  "send_test_http_request H request w =
     (case handle_http_client H False (table_new Full) (replicate 64 CHR ''a'') (test_conn request w) of
        (Inr _, c) \<Rightarrow> Some (c_sent c)
      | (Inl _, _) \<Rightarrow> None)"

definition response_starts :: "string \<Rightarrow> string option \<Rightarrow> bool" where
  "response_starts head response \<longleftrightarrow> (case response of None \<Rightarrow> False | Some r \<Rightarrow> starts_with head r)"

definition test_http_should_reject_oversized_body_before_reading_it :: "host \<Rightarrow> world \<Rightarrow> bool" where
  "test_http_should_reject_oversized_body_before_reading_it H w \<longleftrightarrow>
     response_starts ''HTTP/1.1 413 Payload Too Large''
       (send_test_http_request H
          (''POST /message HTTP/1.1'' @ crlf @ ''host: localhost'' @ crlf @
           ''content-length: '' @ show_nat (max_http_body_bytes + 1) @ crlf @ crlf) w)"

definition test_http_should_require_bearer_before_message_dispatch :: "host \<Rightarrow> world \<Rightarrow> bool" where
  "test_http_should_require_bearer_before_message_dispatch H w \<longleftrightarrow>
     response_starts ''HTTP/1.1 401 Unauthorized''
       (send_test_http_request H
          (''POST /message HTTP/1.1'' @ crlf @ ''host: localhost'' @ crlf @
           ''content-length: 2'' @ crlf @ crlf @ [CHR 0x7B, CHR 0x7D]) w)"

definition test_http_should_require_bearer_before_sse_dispatch :: "host \<Rightarrow> world \<Rightarrow> bool" where
  "test_http_should_require_bearer_before_sse_dispatch H w \<longleftrightarrow>
     response_starts ''HTTP/1.1 401 Unauthorized''
       (send_test_http_request H
          (''GET /sse HTTP/1.1'' @ crlf @ ''host: localhost'' @ crlf @ crlf) w)"

definition test_http_should_reject_browser_origins_even_with_bearer :: "host \<Rightarrow> world \<Rightarrow> bool" where
  "test_http_should_reject_browser_origins_even_with_bearer H w \<longleftrightarrow>
     (let response = send_test_http_request H
        (''POST /message HTTP/1.1'' @ crlf @ ''host: localhost'' @ crlf @
         ''origin: https://attacker.example'' @ crlf @
         ''authorization: Bearer '' @ replicate 64 CHR ''a'' @ crlf @
         ''content-length: 2'' @ crlf @ crlf @ [CHR 0x7B, CHR 0x7D]) w
      in response_starts ''HTTP/1.1 403 Forbidden'' response \<and>
         \<not> contains (to_ascii_lowercase (the response)) ''access-control-allow'')"

definition test_http_should_accept_one_exact_bearer :: bool where
  "test_http_should_accept_one_exact_bearer \<longleftrightarrow>
     (let bearer = replicate 64 CHR ''a''; line = ''authorization: Bearer ''
      in authorized (''host: localhost'' @ crlf @ line @ bearer) bearer \<and>
         \<not> authorized (line @ bearer @ crlf @ line @ bearer) bearer \<and>
         \<not> authorized (line @ replicate 64 CHR ''b'') bearer)"

fun acquire_slots :: "nat \<Rightarrow> 32 word \<Rightarrow> bool \<times> 32 word" where
  "acquire_slots 0 clients = (True, clients)"
| "acquire_slots (Suc n) clients =
     (case acquire_sse_slot clients of
        (False, clients') \<Rightarrow> (False, clients')
      | (True, clients') \<Rightarrow> acquire_slots n clients')"

text \<open>The counter is 0 when the process starts, and again at the end of the test.\<close>

definition test_sse_slot_should_enforce_connection_limit :: bool where
  "test_sse_slot_should_enforce_connection_limit \<longleftrightarrow>
     (case acquire_slots max_sse_clients 0 of
        (filled, c1) \<Rightarrow>
          (case acquire_sse_slot c1 of
             (extra, c2) \<Rightarrow>
               (case acquire_sse_slot (release_sse_slot c2) of
                  (again, c3) \<Rightarrow> filled \<and> \<not> extra \<and> again \<and> (release_sse_slot ^^ max_sse_clients) c3 = 0)))"

section \<open>A request that is answered without the table\<close>

lemma read_one_segment:
  assumes "\<forall>n. c_fault c n = None" and "c_input c = [req]" and "req \<noteq> []" and "length req \<le> 4096"
    and "read_step req None = Read_Done"
  shows "read_request [] None c = (Inr (Some req), c\<lparr>c_ops := Suc (c_ops c), c_input := []\<rparr>)"
proof -
  have "sock_read c = (Inr req, c\<lparr>c_ops := Suc (c_ops c), c_input := []\<rparr>)"
    using assms(1,2,4) by (simp add: sock_read_def act_bind_def sock_ok)
  with assms(3,5) show ?thesis by (simp add: read_request.simps)
qed

lemma answered_at_once:
  assumes "req \<noteq> []" and "length req \<le> 4096" and "read_step req None = Read_Done"
    and "route H False (table_new Full) (replicate 64 CHR ''a'') req = done_with r"
  shows "send_test_http_request H req w = Some (response_bytes r @ rs_body r)"
proof -
  let ?c = "(test_conn req w)\<lparr>c_ops := 2\<rparr>"
  let ?d = "?c\<lparr>c_ops := Suc (c_ops ?c), c_input := []\<rparr>"
  have nf: "\<forall>n. c_fault ?c n = None" "\<forall>n. c_fault ?d n = None" "\<forall>n. c_fault (test_conn req w) n = None"
    by (simp_all add: test_conn_def)
  have "read_request [] None ?c = (Inr (Some req), ?d)"
    using nf(1) assms(1-3) by (intro read_one_segment) (simp_all add: test_conn_def)
  moreover obtain d where "done_with r ?d = (Inr Finished, d)" "c_sent d = response_bytes r @ rs_body r"
    using done_with_ok [OF nf(2), of r] by (auto simp: test_conn_def)
  ultimately show ?thesis
    using assms(4) nf(3)
    by (simp add: send_test_http_request_def handle_http_client_def act_bind_def sock_ok test_conn_def
        numeral_2_eq_2)
qed

lemma rejected_at_once:
  assumes "req \<noteq> []" and "length req \<le> 4096" and "read_step req None = Read_Reject r"
  shows "send_test_http_request H req w = Some (response_bytes r @ rs_body r)"
proof -
  let ?c = "(test_conn req w)\<lparr>c_ops := 2\<rparr>"
  let ?d = "?c\<lparr>c_ops := Suc (c_ops ?c), c_input := []\<rparr>"
  have nf: "\<forall>n. c_fault ?c n = None" "\<forall>n. c_fault ?d n = None" "\<forall>n. c_fault (test_conn req w) n = None"
    by (simp_all add: test_conn_def)
  have rd: "sock_read ?c = (Inr req, ?d)"
    using nf(1) assms(2) by (simp add: sock_read_def act_bind_def sock_ok test_conn_def)
  obtain d where "send_response r ?d = (Inr (), d)" "c_sent d = response_bytes r @ rs_body r"
    using send_response_ok [OF nf(2), of r] by (auto simp: test_conn_def)
  with rd assms(1,3) have "read_request [] None ?c = (Inr None, d)" "c_sent d = response_bytes r @ rs_body r"
    by (simp_all add: read_request.simps act_bind_def ret_def)
  then show ?thesis
    using nf(3)
    by (simp add: send_test_http_request_def handle_http_client_def act_bind_def sock_ok test_conn_def
        numeral_2_eq_2 ret_def)
qed

lemma http_line_facts:
  "split_once CHR '':'' ''POST /message HTTP/1.1'' = None"
  "split_once CHR '':'' ''host: localhost'' = Some (''host'', '' localhost'')"
  "split_once CHR '':'' ''content-length: 2'' = Some (''content-length'', '' 2'')"
  "split_once CHR '':'' ''content-length: 1048577'' = Some (''content-length'', '' 1048577'')"
  "split_once CHR '':'' ''origin: https://attacker.example'' = Some (''origin'', '' https://attacker.example'')"
  "split_once CHR '':'' (''authorization: Bearer '' @ replicate 64 CHR ''a'') =
     Some (''authorization'', '' Bearer '' @ replicate 64 CHR ''a'')"
  "\<not> eq_ignore_ascii_case ''host'' ''content-length''" "\<not> eq_ignore_ascii_case ''origin'' ''content-length''"
  "\<not> eq_ignore_ascii_case ''authorization'' ''content-length''"
  "eq_ignore_ascii_case ''content-length'' ''content-length''"
  "trim '' 2'' = ''2''" "trim '' 1048577'' = ''1048577''"
  by code_simp+

lemma http_shown: "show_nat 2 = ''2''" "show_nat 1048577 = ''1048577''"
  by (simp_all add: show_nat.simps digit_char_def)

lemma http_numbers:
  "parse_unsigned usize_max ''2'' = Some 2" "parse_unsigned usize_max ''1048577'' = Some 1048577"
  using parse_show_nat [of 2 usize_max] parse_show_nat [of 1048577 usize_max]
  by (simp_all add: http_shown usize_max_def)

lemma oversized_passes: "test_http_should_reject_oversized_body_before_reading_it H w"
proof -
  let ?req = "''POST /message HTTP/1.1'' @ crlf @ ''host: localhost'' @ crlf @
           ''content-length: '' @ ''1048577'' @ crlf @ crlf"
  have s: "show_nat (max_http_body_bytes + 1) = ''1048577''"
    using http_shown by (simp add: max_http_body_bytes_def)
  have "header_lines (take 64 ?req) = [''POST /message HTTP/1.1'', ''host: localhost'', ''content-length: 1048577'']"
    by code_simp
  then have l: "content_length (take 64 ?req) = 1048577"
    by (simp add: content_length_def http_line_facts http_numbers)
  have h: "header_end ?req = Some (64, 4)" "length ?req = 68" by code_simp+
  have "read_step ?req None = Read_Reject payload_too_large"
    using l h by (simp add: read_step_def expected_length_def max_http_header_bytes_def max_http_body_bytes_def
        del: take_append append_Cons append.append_Cons)
  from rejected_at_once [OF _ _ this, of H w] h(2) have
    "send_test_http_request H ?req w = Some (response_bytes payload_too_large @ rs_body payload_too_large)"
    by fastforce
  moreover have "starts_with ''HTTP/1.1 413 Payload Too Large'' (response_bytes payload_too_large @ rs_body payload_too_large)"
    by code_simp
  ultimately show ?thesis
    unfolding test_http_should_reject_oversized_body_before_reading_it_def s response_starts_def by simp
qed

lemma complete_request:
  assumes "header_end req = Some (off, len)" and "off \<le> max_http_header_bytes"
    and "content_length (take off req) \<le> max_http_body_bytes"
    and "off + len + content_length (take off req) \<le> length req"
  shows "read_step req None = Read_Done"
  using assms by (simp add: read_step_def expected_length_def)

definition plain_post :: string where
  "plain_post = ''POST /message HTTP/1.1'' @ crlf @ ''host: localhost'' @ crlf @
     ''content-length: 2'' @ crlf @ crlf @ [CHR 0x7B, CHR 0x7D]"

lemma plain_post_facts:
  "header_end plain_post = Some (58, 4)" "length plain_post = 64" "plain_post \<noteq> []"
  "first_words plain_post = (''POST'', ''/message'')"
  "has_header (take 58 plain_post) ''origin'' = False"
  "authorized (take 58 plain_post) (replicate 64 CHR ''a'') = False"
  "header_lines (take 58 plain_post) = [''POST /message HTTP/1.1'', ''host: localhost'', ''content-length: 2'']"
  by code_simp+

definition plain_get :: string where
  "plain_get = ''GET /sse HTTP/1.1'' @ crlf @ ''host: localhost'' @ crlf @ crlf"

lemma plain_get_facts:
  "header_end plain_get = Some (34, 4)" "length plain_get = 38" "plain_get \<noteq> []"
  "first_words plain_get = (''GET'', ''/sse'')"
  "has_header (take 34 plain_get) ''origin'' = False"
  "authorized (take 34 plain_get) (replicate 64 CHR ''a'') = False"
  "content_length (take 34 plain_get) = 0"
  by code_simp+

definition foreign_post :: string where
  "foreign_post = ''POST /message HTTP/1.1'' @ crlf @ ''host: localhost'' @ crlf @
     ''origin: https://attacker.example'' @ crlf @
     ''authorization: Bearer '' @ replicate 64 CHR ''a'' @ crlf @
     ''content-length: 2'' @ crlf @ crlf @ [CHR 0x7B, CHR 0x7D]"

lemma foreign_post_facts:
  "header_end foreign_post = Some (180, 4)" "length foreign_post = 186" "foreign_post \<noteq> []"
  "first_words foreign_post = (''POST'', ''/message'')"
  "has_header (take 180 foreign_post) ''origin'' = True"
  "header_lines (take 180 foreign_post) = [''POST /message HTTP/1.1'', ''host: localhost'',
     ''origin: https://attacker.example'', ''authorization: Bearer '' @ replicate 64 CHR ''a'', ''content-length: 2'']"
  by code_simp+

lemma denied_responses:
  "starts_with ''HTTP/1.1 401 Unauthorized'' (response_bytes unauthorized @ rs_body unauthorized)"
  "starts_with ''HTTP/1.1 403 Forbidden'' (response_bytes forbidden @ rs_body forbidden)"
  "\<not> contains (to_ascii_lowercase (response_bytes forbidden @ rs_body forbidden)) ''access-control-allow''"
  by code_simp+

lemma plain_post_passes: "test_http_should_require_bearer_before_message_dispatch H w"
proof -
  have l: "content_length (take 58 plain_post) = 2"
    by (simp add: content_length_def plain_post_facts http_line_facts http_numbers)
  have "read_step plain_post None = Read_Done"
    using plain_post_facts(2) l by (intro complete_request [OF plain_post_facts(1)]) (simp_all add: max_http_header_bytes_def max_http_body_bytes_def)
  moreover have "route H False (table_new Full) (replicate 64 CHR ''a'') plain_post = done_with unauthorized"
    by (simp add: route_def plain_post_facts)
  ultimately have "send_test_http_request H plain_post w = Some (response_bytes unauthorized @ rs_body unauthorized)"
    using plain_post_facts by (intro answered_at_once) simp_all
  with denied_responses show ?thesis
    unfolding test_http_should_require_bearer_before_message_dispatch_def plain_post_def response_starts_def by simp
qed

lemma plain_get_passes: "test_http_should_require_bearer_before_sse_dispatch H w"
proof -
  have "read_step plain_get None = Read_Done"
    using plain_get_facts(2) by (intro complete_request [OF plain_get_facts(1)]) (simp_all add: max_http_header_bytes_def plain_get_facts)
  moreover have "route H False (table_new Full) (replicate 64 CHR ''a'') plain_get = done_with unauthorized"
    by (simp add: route_def plain_get_facts)
  ultimately have "send_test_http_request H plain_get w = Some (response_bytes unauthorized @ rs_body unauthorized)"
    using plain_get_facts by (intro answered_at_once) simp_all
  with denied_responses show ?thesis
    unfolding test_http_should_require_bearer_before_sse_dispatch_def plain_get_def response_starts_def by simp
qed

lemma foreign_post_passes: "test_http_should_reject_browser_origins_even_with_bearer H w"
proof -
  have l: "content_length (take 180 foreign_post) = 2"
    using http_line_facts unfolding content_length_def foreign_post_facts by (simp add: http_numbers)
  have "read_step foreign_post None = Read_Done"
    using foreign_post_facts(2) l by (intro complete_request [OF foreign_post_facts(1)]) (simp_all add: max_http_header_bytes_def max_http_body_bytes_def)
  moreover have "route H False (table_new Full) (replicate 64 CHR ''a'') foreign_post = done_with forbidden"
    by (simp add: route_def foreign_post_facts)
  ultimately have "send_test_http_request H foreign_post w = Some (response_bytes forbidden @ rs_body forbidden)"
    using foreign_post_facts by (intro answered_at_once) simp_all
  with denied_responses show ?thesis
    unfolding test_http_should_reject_browser_origins_even_with_bearer_def foreign_post_def response_starts_def Let_def
    by simp
qed

section \<open>A machine to run the tests on\<close>

text \<open>
  The text of a JSON value without white space, as the tests see it: strings with the escapes of RFC 8259,
  integers in decimal; no test prints a floating-point number, whose text is an argument.
\<close>

definition json_char :: "char \<Rightarrow> string" where
  "json_char c =
     (if c = CHR 0x22 then [CHR 0x5C, CHR 0x22]
      else if c = CHR 0x5C then [CHR 0x5C, CHR 0x5C]
      else if c = CHR 0x0A then [CHR 0x5C, CHR ''n'']
      else if c = CHR 0x0D then [CHR 0x5C, CHR ''r'']
      else if c = CHR 0x09 then [CHR 0x5C, CHR ''t'']
      else if byte_val c < 32 then [CHR 0x5C] @ ''u00'' @ hex_digits 2 (byte_val c)
      else [c])"

definition json_quoted :: "string \<Rightarrow> string" where
  "json_quoted s = [CHR 0x22] @ concat (map json_char s) @ [CHR 0x22]"

fun json_number_text :: "(f64 \<Rightarrow> string) \<Rightarrow> json_number \<Rightarrow> string" where
  "json_number_text fl (Pos_Int n) = show_nat n"
| "json_number_text fl (Neg_Int i) = show_int i"
| "json_number_text fl (Float x) = fl x"

fun json_text :: "(f64 \<Rightarrow> string) \<Rightarrow> json \<Rightarrow> string"
  and json_elements :: "(f64 \<Rightarrow> string) \<Rightarrow> json list \<Rightarrow> string"
  and json_members :: "(f64 \<Rightarrow> string) \<Rightarrow> (string \<times> json) list \<Rightarrow> string" where
  "json_text fl Null = ''null''"
| "json_text fl (Bool b) = (if b then ''true'' else ''false'')"
| "json_text fl (Number n) = json_number_text fl n"
| "json_text fl (Str s) = json_quoted s"
| "json_text fl (Array vs) = ''['' @ json_elements fl vs @ '']''"
| "json_text fl (Object m) = ''{'' @ json_members fl m @ ''}''"
| "json_elements fl [] = []"
| "json_elements fl [v] = json_text fl v"
| "json_elements fl (v # u # vs) = json_text fl v @ '','' @ json_elements fl (u # vs)"
| "json_members fl [] = []"
| "json_members fl [(k, v)] = json_quoted k @ '':'' @ json_text fl v"
| "json_members fl ((k, v) # u # m) = json_quoted k @ '':'' @ json_text fl v @ '','' @ json_members fl (u # m)"

lemma lower_hex_is_hexdigit: "is_lower_hex c \<Longrightarrow> is_ascii_hexdigit c"
  by (auto simp: is_ascii_hexdigit_def byte_class_defs)

lemma pairing_code_passes: "test_pairing_code_should_be_hex_16_chars H w"
proof -
  have "list_all is_ascii_hexdigit (hex_digits 16 n)" for n
    using hex_digits_lower_hex [of 16 n] lower_hex_is_hexdigit by (auto simp: list_all_iff)
  then show ?thesis
    by (simp add: test_pairing_code_should_be_hex_16_chars_def generate_pairing_code_def passes_def act_simps)
qed

lemma http_bearer_passes: "test_http_bearer_should_be_bounded_lowercase_hex H w"
proof -
  have "\<not> valid_http_bearer (replicate http_bearer_hex_len CHR ''A'')" by code_simp
  moreover have "\<not> valid_http_bearer (t @ ''0'')" if "valid_http_bearer t" for t
    using that by (simp add: valid_http_bearer_def)
  ultimately show ?thesis
    using random_id_valid_bearer [of H "rng_pos w"]
    by (simp add: test_http_bearer_should_be_bounded_lowercase_hex_def generate_http_bearer_def
        passes_def generate_hex_eq)
qed

lemma notification_passes: "test_notification_should_not_respond H w"
  by (simp add: test_notification_should_not_respond_def passes_def handle_message_def jobj_def members_def
      obj_get_def say_def act_bind_def ret_def dispatch_method_def)

definition raw_line :: string where
  "raw_line = [CHR 0x7B, CHR 0x22] @ ''jsonrpc'' @ [CHR 0x22, CHR 0x3A, CHR 0x22] @ ''2.0'' @ [CHR 0x22, CHR 0x7D]"

lemma raw_line_facts:
  "cut_line raw_line = (raw_line, [])" "utf8_valid raw_line" "raw_line \<noteq> []" "trim raw_line = raw_line"
  "starts_with content_length_prefix (to_ascii_lowercase raw_line) = False"
  by code_simp+

lemma raw_line_passes:
  assumes "\<forall>n. p_fault p n = None"
  shows "test_stdio_reader_should_accept_raw_json_line p"
proof -
  have "read_line (p\<lparr>p_input := raw_line\<rparr>) = (Inr raw_line, p\<lparr>p_ops := Suc (p_ops p), p_input := []\<rparr>)"
    using assms raw_line_facts by (simp add: read_line_def pipe_op_def act_bind_def)
  with raw_line_facts show ?thesis
    by (simp add: test_stdio_reader_should_accept_raw_json_line_def raw_line_def [symmetric] passes_def
        read_stdio_message.simps [of "p\<lparr>p_input := raw_line\<rparr>"] del: append_Cons append_Nil)
qed

lemma websocket_passes: "test_websocket_url_should_match_legacy_shape demo_crates"
  by code_simp

lemma new_session_sender:
  assumes "negotiated_key C (r_manager r) a = Inr key" and "pm_sessions (r_manager r) = Map.empty" and "b \<noteq> a"
  shows "passes (act_bind (establish_session C a) (\<lambda>_. get_manager))
     (\<lambda>m'. ensure_relay_sender m' a = Inr () \<and> isl (ensure_relay_sender m' b)) r"
  using assms
  by (simp add: passes_def establish_session_def get_manager_bind put_session_def session_insert_def
      ensure_relay_sender_def act_bind_def get_manager_def)

lemma relay_sender_passes: "test_relay_sender_should_match_established_peer H demo_crates w"
proof -
  have d: "rc_hex_decode demo_crates (replicate 64 CHR ''a'') = Some (replicate 32 (CHR 0xAA))" by code_simp
  have ne: "replicate 64 CHR ''b'' \<noteq> replicate 64 CHR ''a''" by code_simp
  have k: "\<exists>key. negotiated_key demo_crates m (replicate 64 CHR ''a'') = Inr key" for m
    unfolding negotiated_key_def parse_identity_def d
    by (simp add: session_key_def demo_crates_def)
  obtain m w' where m: "(p2p_manager_new H demo_crates False (table_new Full) ''https://example.com'' ''room'' ::
      (world, io_error, p2p_manager) act) w = (Inr m, w')" "pm_sessions m = Map.empty"
    by (simp add: p2p_manager_new_def act_simps ret_def)
  let ?r = "\<lparr>r_manager = m, r_sent = [], r_sends = 0, r_connections = 0, r_world = w\<rparr>"
  obtain key where "negotiated_key demo_crates (r_manager ?r) (replicate 64 CHR ''a'') = Inr key"
    using k by blast
  from new_session_sender [OF this _ ne] m show ?thesis
    unfolding test_relay_sender_should_match_established_peer_def Let_def passes_def [of "p2p_manager_new _ _ _ _ _ _"]
    by simp
qed

section \<open>The tests of these crates\<close>

lemma flag_tests_pass: "test_version_flag_should_parse" "test_short_version_flag_should_parse"
  by (simp_all add: test_version_flag_should_parse_def test_short_version_flag_should_parse_def
      parse_args_from_def read_flags_drop switch_of_def option_of_def cli_default_def)

lemma constant_tests_pass:
  "test_access_mode_should_parse_known_modes" "test_tool_logs_exclude_arguments_and_results"
  "test_http_bind_addr_should_be_loopback_only"
  by code_simp+

lemma bearer_values:
  "auth_value (header_lines (''host: localhost'' @ crlf @ ''authorization: Bearer '' @ replicate 64 CHR ''a'')) None =
     Some (Some (''Bearer '' @ replicate 64 CHR ''a''))"
  "auth_value (header_lines (''authorization: Bearer '' @ replicate 64 CHR ''a'' @ crlf @
      ''authorization: Bearer '' @ replicate 64 CHR ''a'')) None = None"
  "auth_value (header_lines (''authorization: Bearer '' @ replicate 64 CHR ''b'')) None =
     Some (Some (''Bearer '' @ replicate 64 CHR ''b''))"
  "strip_prefix ''Bearer '' (''Bearer '' @ replicate 64 CHR ''a'') = Some (replicate 64 CHR ''a'')"
  "strip_prefix ''Bearer '' (''Bearer '' @ replicate 64 CHR ''b'') = Some (replicate 64 CHR ''b'')"
  "replicate 64 CHR ''b'' \<noteq> replicate 64 CHR ''a''"
  by code_simp+

lemma bearer_lines:
  "authorized (''host: localhost'' @ crlf @ ''authorization: Bearer '' @ replicate 64 CHR ''a'') (replicate 64 CHR ''a'')"
  "\<not> authorized (''authorization: Bearer '' @ replicate 64 CHR ''a'' @ crlf @
      ''authorization: Bearer '' @ replicate 64 CHR ''a'') (replicate 64 CHR ''a'')"
  "\<not> authorized (''authorization: Bearer '' @ replicate 64 CHR ''b'') (replicate 64 CHR ''a'')"
  unfolding authorized_def bearer_values option.case constant_time_eq_same using bearer_values(6) by simp_all

lemma one_exact_bearer_passes: "test_http_should_accept_one_exact_bearer"
  unfolding test_http_should_accept_one_exact_bearer_def Let_def using bearer_lines by blast

lemma sse_slot_passes: "test_sse_slot_should_enforce_connection_limit"
  by code_simp

text \<open>
  The machine: a file system with \<open>/tmp\<close>, the programs \<open>echo\<close> and \<open>hostname\<close>, the JSON texts above
  and a parser of the texts that the tests parse.
\<close>

abbreviation plain_text :: "json \<Rightarrow> string" where
  "plain_text \<equiv> json_text (\<lambda>_. [])"

definition retry_value :: "bool \<Rightarrow> json" where
  "retry_value b = jobj [(''report'', Null), (''retry_safe'', Bool b)]"

definition init_value :: json where
  "init_value =
     jobj [(''jsonrpc'', Str ''2.0''), (''id'', jnat 1), (''result'', initialize_result ''folk-around-tester'')]"

fun test_program :: "host_call \<Rightarrow> io_error + raw_output" where
  "test_program (Run_Process program args input cwd) =
     (if program = ''echo'' then
        Inr \<lparr>out_stdout = tl (concat (map (\<lambda>a. '' '' @ a) args)) @ [CHR 0x0A], out_stderr = [], out_code = Some 0\<rparr>
      else if program = ''hostname'' then
        Inr \<lparr>out_stdout = ''tester'' @ [CHR 0x0A], out_stderr = [], out_code = Some 0\<rparr>
      else Inl err_not_found)"
| "test_program _ = Inl err_not_found"

definition test_sha256 :: "bytes \<Rightarrow> bytes" where
  "test_sha256 bs =
     (if bs = [CHR 0x01, CHR 0x02, CHR 0x03, CHR 0x04]
      then the (unhex ''9f64a747e1b97f131fabb6b447296c9b6f0201e79fb3c5356e6c77e89b6a806a'')
      else if bs = ''value''
      then the (unhex ''cd42404d52ad55ccfa9aca4adc828aa5800ad9d385a0671fbcbf724118320619'')
      else replicate 32 CHR 0x00)"

text \<open>
  The machine of the tests that run programs, parse or hash something. It is no code of the repository: it gives
  the answers that the tests expect of the programs and crates that they use, the two digests, an action
  hash for each interaction mode and the texts that are parsed among them.
\<close>

definition test_machine :: host where
  "test_machine = demo_host\<lparr>
     h_run := \<lambda>tr. test_program (last tr),
     h_sha256 := test_sha256,
     h_capabilities := \<lambda>_. Inr \<lparr>supported_actions = [''invoke''], cap_detail = Null\<rparr>,
     h_obs_target := \<lambda>obs tag.
       if tag = ''e0'' then Inr \<lparr>st_observation_id = obs_id obs, st_detail = Str tag\<rparr>
       else Inl (Lib_Semantic ''unknown tag''),
     h_action_hash := \<lambda>rq.
       Inr (replicate 64 (if rq_interaction_mode rq = Interactive then CHR ''1'' else CHR ''2'')),
     h_report_json := \<lambda>_. Inr Null,
     h_json_string := \<lambda>v. Inr (plain_text v),
     h_json_pretty := \<lambda>v. Inr (plain_text v),
     h_json_display := plain_text,
     h_json_parse := \<lambda>s.
       (case find (\<lambda>v. plain_text v = s) [init_value, retry_value True, retry_value False] of
          Some v \<Rightarrow> Inr v | None \<Rightarrow> Inl ''unknown text'')\<rparr>"

definition test_world :: world where
  "test_world = demo_world\<lparr>files := [Path True [''tmp''] \<mapsto> Dir 511]\<rparr>"

lemma initialize_passes: "test_initialize_should_match_protocol_shape test_machine test_world"
  by code_simp

lemma test_machine_facts: "h_fault test_machine n = None" "h_unix test_machine = True" "h_dir_mode test_machine = 493"
  "h_file_mode test_machine = 420"
  by (simp_all add: test_machine_def demo_host_def)

lemma temp_dir_tmp: "temp_dir test_machine = Path True [''tmp'']"
  by code_simp

lemma private_files_of_the_test:
  "passes
     (act_bind (ensure_private_dir test_machine (Path True [''tmp'', nm])) (\<lambda>_.
      act_bind (open_new_private_file test_machine (Path True [''tmp'', nm, ''token''])) (\<lambda>_.
      act_bind (fs_mode test_machine (Path True [''tmp'', nm])) (\<lambda>dir_mode.
      act_bind (fs_mode test_machine (Path True [''tmp'', nm, ''token''])) (\<lambda>file_mode.
      act_bind (fs_remove_file test_machine (Path True [''tmp'', nm, ''token''])) (\<lambda>_.
      act_bind (fs_remove_dir test_machine (Path True [''tmp'', nm])) (\<lambda>_.
      ret (dir_mode, file_mode))))))))
     (\<lambda>(dir_mode, file_mode). dir_mode mod 512 = 448 \<and> file_mode mod 512 = 384) (test_world\<lparr>rng_pos := k\<rparr>)"
proof -
  have a: "path_ancestors (Path True [''tmp'', nm]) = [Path True [''tmp''], Path True [''tmp'', nm]]"
    by (simp add: path_ancestors_def upt_rec)
  have "max_symlinks = Suc 39" by (simp add: max_symlinks_def)
  with a show ?thesis
    by (simp add: passes_def test_world_def demo_world_def ensure_private_dir_def fs_create_dir_all_def
      act_simps test_machine_facts fs_set_permissions_def open_new_private_file_def fs_create_new_def
      fs_mode_def fs_open_def fs_remove_file_def fs_remove_dir_def check_parent_def path_parent_def)
qed

lemma credential_paths_pass: "test_credential_paths_should_be_owner_only test_machine test_world"
proof -
  let ?hex = "hex_digits 16 (be_val (map (h_random test_machine) [0..<8]))"
  let ?nm = "''folk-around-http-token-'' @ ?hex"
  have "CHR ''/'' \<notin> set ?hex"
    using hex_digits_lower_hex [of 16] lower_hex_facts(1) by (auto simp: list_all_iff)
  then have "is_file_name ?nm" by (simp add: is_file_name_def)
  from path_join_file_name [OF this] have p: "path_join (temp_dir test_machine) ?nm = Path True [''tmp'', ?nm]"
    by (simp add: temp_dir_tmp)
  have t: "path_join (Path True [''tmp'', nm]) ''token'' = Path True [''tmp'', nm, ''token'']" for nm
    by (simp add: path_join_file_name is_file_name_def)
  have w: "rng_pos test_world = 0" by (simp add: test_world_def demo_world_def)
  show ?thesis
    unfolding test_credential_paths_should_be_owner_only_def passes_def bind_primitive w add_0 Let_def p t
    using private_files_of_the_test [of ?nm 8] unfolding passes_def .
qed

text \<open>
  A regression check of the model: the unit tests of \<open>folk-core\<close>, \<open>folk-mcp\<close>, \<open>folk-transport\<close> and
  \<open>folk-around\<close> pass. Those that take a host \<open>H\<close> pass for every host and state of it (the pipe without faults); two
  pass on the machine above, and two with the crates of \<open>Relay_Session\<close>, whose URL parser and cryptography are
  examples. What the crates promise in general is proved in the theories of the components.
\<close>

lemma repository_tests_hold:
  "test_access_mode_should_parse_known_modes \<and> test_pairing_code_should_be_hex_16_chars H w \<and>
   test_http_bearer_should_be_bounded_lowercase_hex H w \<and>
   test_credential_paths_should_be_owner_only test_machine test_world \<and>
   test_initialize_should_match_protocol_shape test_machine test_world \<and>
   test_notification_should_not_respond H w \<and> test_tool_logs_exclude_arguments_and_results \<and>
   test_version_flag_should_parse \<and> test_short_version_flag_should_parse \<and>
   test_websocket_url_should_match_legacy_shape demo_crates \<and> test_http_bind_addr_should_be_loopback_only \<and>
   test_relay_sender_should_match_established_peer H demo_crates w \<and>
   test_stdio_reader_should_accept_raw_json_line (p\<lparr>p_fault := (\<lambda>_. None)\<rparr>) \<and>
   test_http_should_reject_oversized_body_before_reading_it H w \<and>
   test_http_should_require_bearer_before_message_dispatch H w \<and>
   test_http_should_require_bearer_before_sse_dispatch H w \<and>
   test_http_should_reject_browser_origins_even_with_bearer H w \<and>
   test_http_should_accept_one_exact_bearer \<and> test_sse_slot_should_enforce_connection_limit"
  using constant_tests_pass flag_tests_pass pairing_code_passes http_bearer_passes credential_paths_pass
    initialize_passes notification_passes websocket_passes relay_sender_passes raw_line_passes [of "p\<lparr>p_fault := (\<lambda>_. None)\<rparr>"]
    oversized_passes plain_post_passes plain_get_passes foreign_post_passes one_exact_bearer_passes sse_slot_passes
  by simp

end
