(* ===== verification/Tool_Tests.thy ===== *)
theory Tool_Tests
  imports Repo_Tests
begin

text \<open>
  The unit tests of the repository, second part: those of \<open>folk-computer-use\<close>, its tools and its
  Praefectus adapter, in the same way as in \<open>Repo_Tests\<close>. Fields of third-party structures that the program
  does not read are members of a JSON value.
\<close>

section \<open>The tools\<close>

text \<open>A request to call a tool, and its response on a table with the tools of the machine.\<close>

definition call_request :: "string \<Rightarrow> json \<Rightarrow> json" where
  "call_request name args =
     jobj [(''jsonrpc'', Str ''2.0''), (''id'', jnat 1), (''method'', Str ''tools/call''),
       (''params'', jobj [(''name'', Str name), (''arguments'', args)])]"

definition call_registered :: "host \<Rightarrow> access_mode \<Rightarrow> string \<Rightarrow> json \<Rightarrow> (world, string, string option) act" where
  "call_registered H mode name args =
     act_bind (register_tools H (table_new mode)) (\<lambda>table.
     handle_message H False table (call_request name args))"

definition responds :: "(string \<Rightarrow> bool) \<Rightarrow> string option \<Rightarrow> bool" where
  "responds check response \<longleftrightarrow> (case response of None \<Rightarrow> False | Some r \<Rightarrow> check r)"

definition tool_names :: "tool_table \<Rightarrow> string list" where
  "tool_names table = map tool_name (table_tools table)"

definition test_sandbox_shell_should_match_legacy_safe_command_behavior :: "host \<Rightarrow> world \<Rightarrow> bool" where
  "test_sandbox_shell_should_match_legacy_safe_command_behavior H =
     passes (call_registered H Sandbox ''folk_shell'' (jobj [(''command'', Str ''echo hi'')]))
       (responds (\<lambda>r. contains r ''hi''))"

definition test_sandbox_shell_should_block_shell_metacharacters :: "host \<Rightarrow> world \<Rightarrow> bool" where
  "test_sandbox_shell_should_block_shell_metacharacters H =
     passes (call_registered H Sandbox ''folk_shell'' (jobj [(''command'', Str ''echo hi; uname -s'')]))
       (responds (\<lambda>r. contains r ''command blocked in this mode'' \<and> \<not> contains r ''Darwin'' \<and> \<not> contains r ''Linux''))"

definition test_limited_shell_should_execute_allowlisted_program_without_shell :: "host \<Rightarrow> world \<Rightarrow> bool" where
  "test_limited_shell_should_execute_allowlisted_program_without_shell H =
     passes (call_registered H Limited ''folk_shell'' (jobj [(''command'', Str ''echo hi'')]))
       (responds (\<lambda>r. contains r ''hi''))"

definition test_unsupported_ui_effects_are_not_advertised_in_sandbox :: "host \<Rightarrow> world \<Rightarrow> bool" where
  "test_unsupported_ui_effects_are_not_advertised_in_sandbox H =
     passes (register_tools H (table_new Sandbox) :: (world, string, tool_table) act)
       (\<lambda>table. list_all (\<lambda>name. name \<noteq> ''folk_type'') (tool_names table))"

definition test_unsupported_ui_effects_are_not_advertised_in_limited :: "host \<Rightarrow> world \<Rightarrow> bool" where
  "test_unsupported_ui_effects_are_not_advertised_in_limited H =
     passes (register_tools H (table_new Limited) :: (world, string, tool_table) act)
       (\<lambda>table. list_all (\<lambda>name. name \<noteq> ''folk_type'') (tool_names table))"

definition strict_semantic_schema :: "json \<Rightarrow> bool" where
  "strict_semantic_schema input_schema \<longleftrightarrow>
     at_key input_schema ''additionalProperties'' = Bool False \<and>
     (case as_object (at_key input_schema ''properties'') of
        None \<Rightarrow> False
      | Some properties \<Rightarrow>
          obj_get properties ''operation_id'' \<noteq> None \<and> obj_get properties ''observation_id'' \<noteq> None \<and>
          obj_get properties ''tag'' \<noteq> None \<and>
          at_key (at_key (Object properties) ''interaction_mode'') ''enum'' =
            Array [Str ''interactive'', Str ''background_only''] \<and>
          at_key (at_key (Object properties) ''operation_id'') ''maxLength'' = jnat 256 \<and>
          at_key (at_key (Object properties) ''observation_id'') ''pattern'' = Str ''^[0-9a-f]{64}$'' \<and>
          at_key (at_key (Object properties) ''tag'') ''pattern'' = Str ''^e[0-9]{1,4}$'' \<and>
          obj_get properties ''x'' = None \<and> obj_get properties ''y'' = None \<and>
          obj_get properties ''selector'' = None)"

definition test_advertised_semantic_tools_never_expose_coordinates :: "host \<Rightarrow> bool" where
  "test_advertised_semantic_tools_never_expose_coordinates H \<longleftrightarrow>
     (let table = register_tools_with_semantic_capabilities H True True (table_new Full);
          tools = filter (\<lambda>t. tool_name t = ''folk_click'' \<or> tool_name t = ''folk_set_value'') (table_tools table)
      in length tools = 2 \<and> list_all (\<lambda>t. strict_semantic_schema (tool_input_schema t)) tools)"

definition test_semantic_effects_reject_unknown_arguments_before_target_resolution :: "host \<Rightarrow> world \<Rightarrow> bool" where
  "test_semantic_effects_reject_unknown_arguments_before_target_resolution H =
     passes
       (handle_message H False (register_tools_with_semantic_capabilities H True True (table_new Full))
          (call_request ''folk_click''
             (jobj [(''operation_id'', Str ''op''), (''observation_id'', Str ''missing''), (''tag'', Str ''e0''), (''x'', jnat 1)])))
       (responds (\<lambda>r. contains r ''invalid tool arguments'' \<and>
          \<not> contains r ''semantic computer-use target is unavailable''))"

definition invalid_semantic_args :: "json list" where
  "invalid_semantic_args =
     [jobj [(''operation_id'', Str ''bad/id''), (''observation_id'', Str (replicate 64 CHR ''a'')), (''tag'', Str ''e0''),
        (''interaction_mode'', Str ''interactive'')],
      jobj [(''operation_id'', Str ''op''), (''observation_id'', Str (replicate 64 CHR ''A'')), (''tag'', Str ''e0''),
        (''interaction_mode'', Str ''interactive'')],
      jobj [(''operation_id'', Str ''op''), (''observation_id'', Str (replicate 64 CHR ''a'')), (''tag'', Str ''e12345''),
        (''interaction_mode'', Str ''interactive'')],
      jobj [(''operation_id'', Str ''op''), (''observation_id'', Str (replicate 64 CHR ''a'')), (''tag'', Str ''e0''),
        (''interaction_mode'', Str ''unknown'')],
      jobj [(''operation_id'', Str ''op''), (''observation_id'', Str (replicate 64 CHR ''a'')), (''tag'', Str ''e0''),
        (''interaction_mode'', Str ''interactive''), (''session_isolation'', Str ''host_isolated'')],
      jobj [(''operation_id'', Str ''op''), (''observation_id'', Str (replicate 64 CHR ''a'')), (''tag'', Str ''e0''),
        (''value'', Str (replicate (16 * 1024 + 1) CHR ''x'')), (''interaction_mode'', Str ''interactive'')]]"

definition test_semantic_effect_argument_bounds_match_the_protocol :: bool where
  "test_semantic_effect_argument_bounds_match_the_protocol \<longleftrightarrow>
     ensure_semantic_args
       (jobj [(''operation_id'', Str ''op:1''), (''observation_id'', Str (replicate 64 CHR ''a'')), (''tag'', Str ''e4095''),
          (''interaction_mode'', Str ''interactive'')]) False = Inr () \<and>
     list_all (\<lambda>invalid. isl (ensure_semantic_args invalid (jget invalid ''value'' \<noteq> None))) invalid_semantic_args"

definition test_host_mode_blocks_semantic_effects_before_argument_resolution :: "host \<Rightarrow> world \<Rightarrow> bool" where
  "test_host_mode_blocks_semantic_effects_before_argument_resolution H w \<longleftrightarrow>
     list_all (\<lambda>mode. list_all (\<lambda>name.
       passes
         (handle_message H False (register_tools_with_semantic_capabilities H True True (table_new mode))
            (call_request name (jobj [])))
         (responds (\<lambda>r. contains r ''action blocked in this mode'' \<and> \<not> contains r ''missing required argument'')) w)
       [''folk_click'', ''folk_set_value'']) [Limited, Sandbox]"

definition test_praefectus_errors_should_not_expose_private_details :: bool where
  "test_praefectus_errors_should_not_expose_private_details \<longleftrightarrow>
     exec_error_text (Praefectus_Error ''private state path: /Users/private-user/.local/state'') =
       ''computer-use protocol request failed''"

definition test_backend_errors_should_not_expose_private_details :: bool where
  "test_backend_errors_should_not_expose_private_details \<longleftrightarrow>
     exec_error_text (Peekaboo_Error ''private state path: /Users/private-user/.local/state'') =
       ''computer-use backend request failed''"

definition test_limited_launch_should_be_blocked :: bool where
  "test_limited_launch_should_be_blocked \<longleftrightarrow>
     isl (ensure_safe_focus_or_full Limited ''launch'') \<and>
     ensure_safe_focus_or_full Limited ''activate'' = Inr ()"

definition test_restricted_clipboard_write_should_be_blocked_before_effect :: "host \<Rightarrow> world \<Rightarrow> bool" where
  "test_restricted_clipboard_write_should_be_blocked_before_effect H =
     passes
       (act_bind (register_tools H (table_new Limited)) (\<lambda>table.
        table_call table ''folk_clipboard_write'' (jobj [(''text'', Str ''private'')])) :: (world, string, json) act)
       (\<lambda>response. contains (h_json_display H response) ''action blocked in this mode'')"

definition test_restricted_permission_grant_should_be_blocked_before_effect :: "host \<Rightarrow> world \<Rightarrow> bool" where
  "test_restricted_permission_grant_should_be_blocked_before_effect H =
     passes
       (act_bind (register_tools H (table_new Sandbox)) (\<lambda>table.
        table_call table ''folk_permissions'' (jobj [(''action'', Str ''grant'')])) :: (world, string, json) act)
       (\<lambda>response. contains (h_json_display H response) ''action blocked in this mode'')"

definition test_restricted_permission_inspection_should_remain_read_only :: "host \<Rightarrow> world \<Rightarrow> bool" where
  "test_restricted_permission_inspection_should_remain_read_only H =
     passes (permissions H (jobj []) Limited :: (world, string, json) act)
       (\<lambda>response. Option.bind (jget response ''isError'') as_bool \<noteq> Some True)"

section \<open>Screenshots and registration\<close>

text \<open>\<open>path.to_string_lossy()\<close> of an absolute path, and \<open>path.exists()\<close>.\<close>

definition path_text :: "path \<Rightarrow> string" where
  "path_text p = concat (map (\<lambda>c. ''/'' @ c) (path_comps p))"

definition path_exists :: "path \<Rightarrow> (world, 'e, bool) act" where
  "path_exists p =
     act_bind get_files (\<lambda>fs.
     ret (case follow max_symlinks fs p of None \<Rightarrow> False | Some q \<Rightarrow> fs q \<noteq> None))"

definition test_capture :: "path \<Rightarrow> bool \<Rightarrow> image_capture" where
  "test_capture p ephemeral =
     \<lparr>cap_path = p, cap_mode = Screen_Mode, cap_mime = ''image/png'', cap_ephemeral = ephemeral\<rparr>"

definition screen_value :: json where
  "screen_value = jobj [(''mode'', Str ''screen'')]"

definition test_image_bytes :: bytes where
  "test_image_bytes = [CHR 0x01, CHR 0x02, CHR 0x03, CHR 0x04]"

text \<open>\<open>pid\<close> is the number of the process that runs the test.\<close>

definition test_image_result_should_return_only_a_restricted_content_hash :: "host \<Rightarrow> nat \<Rightarrow> world \<Rightarrow> bool" where
  "test_image_result_should_return_only_a_restricted_content_hash H pid =
     (let p = path_join (temp_dir H) (''folk-around-image-result-'' @ show_nat pid @ ''.png'') in
      passes
        (act_bind (try_io (fs_write H p test_image_bytes)) (\<lambda>_.
         act_bind (image_result H screen_value (test_capture p False) ''folk-artifact:test.png'') (\<lambda>response.
         act_bind (try_io (fs_mode H p)) (\<lambda>m.
         act_bind (act_match (try_io (fs_remove_file H p) :: unit exec) ret (\<lambda>_. ret ())) (\<lambda>_.
         ret (response, m))))))
        (\<lambda>(response, m).
           at_key (at_key (at_key response ''structuredContent'') ''artifact'') ''contentHash'' =
             Str ''sha256:9f64a747e1b97f131fabb6b447296c9b6f0201e79fb3c5356e6c77e89b6a806a'' \<and>
           at_key (at_key (at_key response ''structuredContent'') ''artifact'') ''locator'' =
             Str ''folk-artifact:test.png'' \<and>
           (case as_array (at_key response ''content'') of
              None \<Rightarrow> False
            | Some content \<Rightarrow> length content = 1 \<and> at_key (hd content) ''type'' = Str ''text'') \<and>
           m mod 64 = 0 \<and>
           \<not> contains (h_json_display H response) (path_text p) \<and>
           \<not> contains (h_json_display H response) ''AQIDBA=='' \<and>
           \<not> contains (h_json_display H response) ([CHR 0x22] @ ''path'' @ [CHR 0x22]) \<and>
           \<not> contains (h_json_display H response) ([CHR 0x22] @ ''bytes'' @ [CHR 0x22])))"

definition test_image_result_should_delete_ephemeral_capture_and_fail_closed :: "host \<Rightarrow> nat \<Rightarrow> world \<Rightarrow> bool" where
  "test_image_result_should_delete_ephemeral_capture_and_fail_closed H pid =
     (let p = path_join (temp_dir H) (''folk-around-ephemeral-image-result-'' @ show_nat pid @ ''.png'') in
      passes
        (act_bind (try_io (fs_write H p test_image_bytes)) (\<lambda>_.
         act_bind (act_match (image_result H screen_value (test_capture p True) ''folk-artifact:test.png'')
           (\<lambda>_. ret None) (\<lambda>e. ret (Some e)) :: (world, tool_exec_error, tool_exec_error option) act) (\<lambda>refused.
         act_bind (path_exists p) (\<lambda>there.
         ret (refused, there)))))
        (\<lambda>(refused, there). refused = Some Screenshot_Reference_Unavailable \<and> \<not> there))"

definition expected_tools :: "string list" where
  "expected_tools =
     [''folk_shell'', ''folk_system_info'', ''folk_list_apps'', ''folk_spawn'', ''folk_image'', ''folk_list_screens'',
      ''folk_clipboard_read'', ''folk_clipboard_write'', ''folk_permissions'', ''folk_screen_capture'']"

definition unavailable_tools :: "string list" where
  "unavailable_tools =
     [''folk_doctor'', ''folk_press'', ''folk_type'', ''folk_paste'', ''folk_hotkey'', ''folk_scroll'', ''folk_swipe'',
      ''folk_drag'', ''folk_move'', ''folk_perform_action'', ''folk_window'', ''folk_app'', ''folk_open'',
      ''folk_menu'', ''folk_sleep'', ''folk_clean'']"

definition test_tool_registration_reports_only_hardened_runtime_capabilities :: "host \<Rightarrow> bool" where
  "test_tool_registration_reports_only_hardened_runtime_capabilities H \<longleftrightarrow>
     (let table = register_tools_with_semantic_capabilities H False False (table_new Full)
      in list_all (\<lambda>n. n \<in> set (tool_names table)) expected_tools \<and>
         list_all (\<lambda>n. n \<notin> set (tool_names table)) unavailable_tools \<and>
         list_all (\<lambda>t. Option.bind (jget (tool_input_schema t) ''properties'') (\<lambda>v. jget v ''path'') = None)
           (filter (\<lambda>t. tool_name t \<in> {''folk_image'', ''folk_see'', ''folk_screen_capture''}) (table_tools table)))"

text \<open>The three assertions ask the backend again.\<close>

definition test_runtime_semantic_capabilities_control_exact_tool_advertisement :: "host \<Rightarrow> world \<Rightarrow> bool" where
  "test_runtime_semantic_capabilities_control_exact_tool_advertisement H =
     passes
       (act_bind (register_tools H (table_new Full)) (\<lambda>table.
        act_bind (supports_semantic_action H ''invoke'') (\<lambda>invoke.
        act_bind (supports_semantic_action H ''set_value'') (\<lambda>settable.
        ret (tool_names table, invoke, settable)))) :: (world, string, string list \<times> bool \<times> bool) act)
       (\<lambda>(names, invoke, settable).
          (''folk_click'' \<in> set names) = invoke \<and> (''folk_set_value'' \<in> set names) = settable \<and>
          (''folk_ui_snapshot'' \<in> set names) = (invoke \<or> settable))"

definition test_semantic_capability_filter_does_not_advertise_a_different_effect :: "host \<Rightarrow> bool" where
  "test_semantic_capability_filter_does_not_advertise_a_different_effect H \<longleftrightarrow>
     list_all (\<lambda>(click, set_value).
       let names = tool_names (register_tools_with_semantic_capabilities H click set_value (table_new Full))
       in (''folk_click'' \<in> set names) = click \<and> (''folk_set_value'' \<in> set names) = set_value \<and>
          (''folk_ui_snapshot'' \<in> set names))
       [(True, False), (False, True)]"

section \<open>Calling a registered tool\<close>

lemma find_entry:
  "find (\<lambda>t. tool_name t = name) (map entry_tool (filter (\<lambda>e. P (fst e)) es)) =
     (if P name then map_option entry_tool (find (\<lambda>e. fst e = name) es) else None)"
proof -
  have "tool_name (entry_tool e) = fst e" for e by (simp add: entry_tool_def split: prod.split)
  then show ?thesis by (induction es) auto
qed

lemma registered_entry:
  "find (\<lambda>e. fst e = ''folk_shell'') (all_entries H) = Some (hd (host_tools H))"
  "find (\<lambda>e. fst e = ''folk_clipboard_write'') (all_entries H) = Some (capture_tools H ! 4)"
  "find (\<lambda>e. fst e = ''folk_permissions'') (all_entries H) = Some (capture_tools H ! 5)"
  "find (\<lambda>e. fst e = ''folk_click'') (all_entries H) = Some (hd (click_tools H))"
  "find (\<lambda>e. fst e = ''folk_set_value'') (all_entries H) = Some (hd (set_value_tools H))"
  by (simp_all add: all_entries_def entries_defs)

lemma always_advertised: "advertised c v ''folk_shell''" "advertised c v ''folk_clipboard_write''"
  "advertised c v ''folk_permissions''" "advertised True v ''folk_click''" "advertised c True ''folk_set_value''"
  by (simp_all add: advertised_def unadvertised_def)

lemma run_registered:
  "run_tool (tools_of H mode c v) ''folk_shell'' args = act_match (shell H args mode) ret (\<lambda>e. ret (err_result (tool_error_text e)))"
  "run_tool (tools_of H mode c v) ''folk_clipboard_write'' args = act_match (clipboard_write H args mode) ret (\<lambda>e. ret (err_result (tool_error_text e)))"
  "run_tool (tools_of H mode c v) ''folk_permissions'' args = act_match (permissions H args mode) ret (\<lambda>e. ret (err_result (tool_error_text e)))"
  "run_tool (tools_of H mode True v) ''folk_click'' args = act_match (click H args mode) ret (\<lambda>e. ret (err_result (tool_error_text e)))"
  "run_tool (tools_of H mode c True) ''folk_set_value'' args = act_match (set_value H args mode) ret (\<lambda>e. ret (err_result (tool_error_text e)))"
  unfolding run_tool_def tools_of_tools find_entry
  by (simp_all add: registered_entry always_advertised entry_tool_def host_tools_def capture_tools_def
      click_tools_def set_value_tools_def)

lemma call_request_response:
  "handle_message H False table (call_request name args) w =
     act_bind (run_tool table name args) (\<lambda>result. some_response (json_response H (jnat 1) result)) w"
proof -
  let ?m = "members [(''jsonrpc'', Str ''2.0''), (''id'', jnat 1), (''method'', Str ''tools/call''),
       (''params'', jobj [(''name'', Str name), (''arguments'', args)])]"
  have g: "obj_get ?m ''method'' = Some (Str ''tools/call'')" "obj_get ?m ''id'' = Some (jnat 1)"
    "obj_get ?m ''params'' = Some (Object (members [(''name'', Str name), (''arguments'', args)]))"
    by (simp_all add: members_def obj_get_def jobj_def)
  have p: "obj_get (members [(''name'', Str name), (''arguments'', args)]) ''name'' = Some (Str name)"
    "obj_get (members [(''name'', Str name), (''arguments'', args)]) ''arguments'' = Some args"
    by (simp_all add: members_def obj_get_def)
  show ?thesis
    using handle_quiet_request [OF g(1)] dispatch_tools_call [OF g(2)] g(3) p
    by (simp add: call_request_def jobj_def [of "[(''jsonrpc'', _), _, _, _]"] handle_tools_call_def say_def
        table_call_run_tool)
qed

lemma call_registered_response:
  obtains c v w' where "(register_tools H (table_new mode) :: (world, string, tool_table) act) w = (Inr (tools_of H mode c v), w')"
    "call_registered H mode name args w =
       act_bind (run_tool (tools_of H mode c v) name args) (\<lambda>result. some_response (json_response H (jnat 1) result)) w'"
proof -
  have s: "\<exists>b w'. (supports_semantic_action H a :: (world, string, bool) act) w = (Inr b, w')" for a w
    by (cases "h_capabilities H (trace w @ [Query_Capabilities])")
       (simp_all add: supports_semantic_action_def host_call_def act_match_def ret_def Let_def, blast)
  obtain c w1 where c: "(supports_semantic_action H ''invoke'' :: (world, string, bool) act) w = (Inr c, w1)"
    using s by blast
  obtain v w' where "(supports_semantic_action H ''set_value'' :: (world, string, bool) act) w1 = (Inr v, w')"
    using s by blast
  with c have r: "(register_tools H (table_new mode) :: (world, string, tool_table) act) w = (Inr (tools_of H mode c v), w')"
    by (simp add: register_tools_def act_bind_Inr tools_of_def)
  then show thesis
    by (intro that [of c v w']) (simp_all add: call_registered_def act_bind_Inr call_request_response)
qed

text \<open>What the response of a call says, when the tool's result does not depend on the state.\<close>

lemma response_of_result:
  assumes "(run_tool table name args :: (world, string, json) act) w = (Inr result, w')" and "P (plain_text
     (jobj [(''jsonrpc'', Str ''2.0''), (''id'', jnat 1), (''result'', result)]))"
  shows "passes (act_bind (run_tool table name args)
     (\<lambda>result. some_response (json_response test_machine (jnat 1) result))) (responds P) w"
  using assms
  by (simp add: passes_def act_bind_def some_response_def json_response_def test_machine_def act_map_def
      lift_res_def ret_def responds_def)

lemma call_test:
  assumes "\<And>c v w. \<exists>w'. (run_tool (tools_of test_machine mode c v) name args :: (world, string, json) act) w = (Inr result, w')"
    and "P (plain_text (jobj [(''jsonrpc'', Str ''2.0''), (''id'', jnat 1), (''result'', result)]))"
  shows "passes (call_registered test_machine mode name args) (responds P) w"
proof -
  obtain c v w' where c: "call_registered test_machine mode name args w =
       act_bind (run_tool (tools_of test_machine mode c v) name args)
         (\<lambda>result. some_response (json_response test_machine (jnat 1) result)) w'"
    by (rule call_registered_response)
  obtain w'' where "(run_tool (tools_of test_machine mode c v) name args :: (world, string, json) act) w' = (Inr result, w'')"
    using assms(1) by blast
  from response_of_result [OF this, of P] assms(2) show ?thesis unfolding passes_def c by simp
qed

section \<open>The tests of the tools\<close>

definition hi_output :: string where
  "hi_output = ''stdout:'' @ [CHR 0x0A] @ ''hi'' @ [CHR 0x0A, CHR 0x0A, CHR 0x0A] @
     ''stderr:'' @ [CHR 0x0A, CHR 0x0A, CHR 0x0A] @ ''exit: 0''"

lemma echo_hi:
  "restricted_command ''echo hi'' = Some (''echo'', [''hi''])" "from_utf8_lossy (''hi'' @ [CHR 0x0A]) = ''hi'' @ [CHR 0x0A]"
  "from_utf8_lossy [] = []" "show_int 0 = ''0''" "restricted_command ''echo hi; uname -s'' = None"
  by code_simp+

lemma shell_echo:
  assumes "mode \<noteq> Full"
  shows "\<exists>w'. (run_tool (tools_of test_machine mode c v) ''folk_shell'' (jobj [(''command'', Str ''echo hi'')]) ::
    (world, string, json) act) w = (Inr (text_result hi_output), w')"
proof -
  have a: "str_arg (jobj [(''command'', Str ''echo hi'')]) ''command'' = Some ''echo hi''" by code_simp
  have "h_run test_machine (trace w @ [Run_Process ''echo'' [''hi''] None None]) =
      Inr \<lparr>out_stdout = ''hi'' @ [CHR 0x0A], out_stderr = [], out_code = Some 0\<rparr>"
    by (simp add: test_machine_def)
  moreover have "str_arg (jobj [(''command'', Str ''echo hi'')]) ''cwd'' = None" by code_simp
  ultimately show ?thesis
    using assms a echo_hi
    by (simp add: run_registered shell_def flatten_def need_str_def act_match_def act_bind_def lift_res_def
        run_command_def try_io_def act_map_err_def host_call_def ret_def Let_def shell_text_def hi_output_def)
qed

lemma shell_blocked:
  assumes "mode \<noteq> Full"
  shows "\<exists>w'. (run_tool (tools_of test_machine mode c v) ''folk_shell'' (jobj [(''command'', Str ''echo hi; uname -s'')]) ::
    (world, string, json) act) w = (Inr (err_result ''command blocked in this mode''), w')"
proof -
  have a: "str_arg (jobj [(''command'', Str ''echo hi; uname -s'')]) ''command'' = Some ''echo hi; uname -s''" by code_simp
  show ?thesis
    using assms a echo_hi
    by (simp add: run_registered shell_def flatten_def need_str_def act_match_def act_bind_def lift_res_def
        ret_def Let_def)
qed

lemma shell_tests_pass:
  "test_sandbox_shell_should_match_legacy_safe_command_behavior test_machine w"
  "test_sandbox_shell_should_block_shell_metacharacters test_machine w"
  "test_limited_shell_should_execute_allowlisted_program_without_shell test_machine w"
  unfolding test_sandbox_shell_should_match_legacy_safe_command_behavior_def
    test_sandbox_shell_should_block_shell_metacharacters_def
    test_limited_shell_should_execute_allowlisted_program_without_shell_def
  subgoal by (rule call_test, rule shell_echo, simp, code_simp)
  subgoal by (rule call_test, rule shell_blocked, simp, code_simp)
  subgoal by (rule call_test, rule shell_echo, simp, code_simp)
  done

lemma registered:
  obtains c v w' where "(register_tools H (table_new mode) :: (world, string, tool_table) act) w = (Inr (tools_of H mode c v), w')"
  by (rule call_registered_response)

lemma no_typing_tool: "''folk_type'' \<notin> set (tool_names (tools_of H mode c v))"
  by (simp add: tool_names_def advertised_tools_exact)

lemma unadvertised_tests_pass:
  "test_unsupported_ui_effects_are_not_advertised_in_sandbox H w"
  "test_unsupported_ui_effects_are_not_advertised_in_limited H w"
proof -
  have "passes (register_tools H (table_new mode) :: (world, string, tool_table) act)
      (\<lambda>table. list_all (\<lambda>name. name \<noteq> ''folk_type'') (tool_names table)) w" for mode
  proof -
    obtain c v w' where "(register_tools H (table_new mode) :: (world, string, tool_table) act) w = (Inr (tools_of H mode c v), w')"
      by (rule registered)
    then show ?thesis using no_typing_tool [of H mode c v] by (auto simp: passes_def list_all_iff)
  qed
  then show "test_unsupported_ui_effects_are_not_advertised_in_sandbox H w"
    "test_unsupported_ui_effects_are_not_advertised_in_limited H w"
    by (simp_all add: test_unsupported_ui_effects_are_not_advertised_in_sandbox_def
        test_unsupported_ui_effects_are_not_advertised_in_limited_def)
qed

lemma semantic_schemas: "list_all (\<lambda>e. strict_semantic_schema (fst (snd (snd e)))) (click_tools H @ set_value_tools H)"
  by (simp add: click_tools_def set_value_tools_def strict_semantic_schema_def at_key_def strict_schema_def
      schema_def object_schema_def jobj_def members_def obj_get_def constrained_string_property_def
      interaction_mode_property_def)

lemma coordinates_test_passes: "test_advertised_semantic_tools_never_expose_coordinates H"
proof -
  let ?semantic = "\<lambda>t. tool_name t = ''folk_click'' \<or> tool_name t = ''folk_set_value''"
  have n: "tool_name (entry_tool e) = fst e" "tool_input_schema (entry_tool e) = fst (snd (snd e))" for e
    by (simp_all add: entry_tool_def split: prod.split)
  have "filter ?semantic (table_tools (tools_of H Full True True)) =
      map entry_tool (filter (\<lambda>e. (fst e = ''folk_click'' \<or> fst e = ''folk_set_value'') \<and> advertised True True (fst e)) (all_entries H))"
    by (simp add: tools_of_tools filter_map comp_def n conj_commute)
  also have "filter (\<lambda>e. (fst e = ''folk_click'' \<or> fst e = ''folk_set_value'') \<and> advertised True True (fst e)) (all_entries H) =
      click_tools H @ set_value_tools H"
    by (simp add: all_entries_def entries_defs always_advertised)
  finally have f: "filter ?semantic (table_tools (tools_of H Full True True)) =
      map entry_tool (click_tools H @ set_value_tools H)" .
  have "length (click_tools H @ set_value_tools H) = 2" by (simp add: click_tools_def set_value_tools_def)
  then show ?thesis
    unfolding test_advertised_semantic_tools_never_expose_coordinates_def Let_def tools_of_def [symmetric] f
    using semantic_schemas [of H] by (simp add: list.pred_map comp_def n)
qed

definition unknown_member :: json where
  "unknown_member = jobj [(''operation_id'', Str ''op''), (''observation_id'', Str ''missing''), (''tag'', Str ''e0''), (''x'', jnat 1)]"

lemma unknown_member_refused: "ensure_semantic_args unknown_member False = Inl Invalid_Arguments"
  by code_simp

lemma unknown_arguments_test_passes:
  "test_semantic_effects_reject_unknown_arguments_before_target_resolution test_machine w"
proof -
  have "(run_tool (tools_of test_machine Full True True) ''folk_click'' unknown_member :: (world, string, json) act) w =
      (Inr (err_result ''invalid tool arguments''), w)"
    by (simp add: run_registered click_def flatten_def unknown_member_refused ensure_mutation_def act_match_def
        act_bind_def lift_res_def ret_def fail_def)
  from response_of_result [OF this] show ?thesis
    unfolding test_semantic_effects_reject_unknown_arguments_before_target_resolution_def
      unknown_member_def [symmetric] tools_of_def [symmetric] passes_def call_request_response
    by this code_simp
qed

lemma host_mode_test_passes:
  "test_host_mode_blocks_semantic_effects_before_argument_resolution test_machine w"
proof -
  have r: "(run_tool (tools_of test_machine mode True True) ''folk_click'' args :: (world, string, json) act) w =
      (Inr (err_result ''action blocked in this mode''), w)"
    "(run_tool (tools_of test_machine mode True True) ''folk_set_value'' args :: (world, string, json) act) w =
      (Inr (err_result ''action blocked in this mode''), w)" if "mode \<noteq> Full" for mode args
    using that by (simp_all add: run_registered click_def set_value_def flatten_def ensure_mutation_def act_match_def
        act_bind_def lift_res_def ret_def fail_def)
  let ?P = "\<lambda>r. contains r ''action blocked in this mode'' \<and> \<not> contains r ''missing required argument''"
  have "?P (plain_text (jobj [(''jsonrpc'', Str ''2.0''), (''id'', jnat 1),
      (''result'', err_result ''action blocked in this mode'')]))" by code_simp
  note q = response_of_result [OF r(1), of _ ?P, OF _ this] response_of_result [OF r(2), of _ ?P, OF _ this]
  show ?thesis
    unfolding test_host_mode_blocks_semantic_effects_before_argument_resolution_def tools_of_def [symmetric]
    using q unfolding passes_def call_request_response by simp
qed

lemma error_tests_pass:
  "test_praefectus_errors_should_not_expose_private_details"
  "test_backend_errors_should_not_expose_private_details" "test_limited_launch_should_be_blocked"
  by code_simp+

lemma blocked_text: "contains (plain_text (err_result ''action blocked in this mode'')) ''action blocked in this mode''"
  by code_simp

lemma blocked_calls:
  assumes "mode \<noteq> Full"
  shows "(run_tool (tools_of H mode c v) ''folk_clipboard_write'' args :: (world, string, json) act) w =
      (Inr (err_result ''action blocked in this mode''), w)"
    "(run_tool (tools_of H mode c v) ''folk_permissions'' (jobj [(''action'', Str ''grant'')]) :: (world, string, json) act) w =
      (Inr (err_result ''action blocked in this mode''), w)"
proof -
  have "str_arg (jobj [(''action'', Str ''grant'')]) ''action'' = Some ''grant''" by code_simp
  then show "(run_tool (tools_of H mode c v) ''folk_permissions'' (jobj [(''action'', Str ''grant'')]) :: (world, string, json) act) w =
      (Inr (err_result ''action blocked in this mode''), w)"
    using assms by (simp add: run_registered permissions_def flatten_def ensure_mutation_def act_match_def
        act_bind_def lift_res_def ret_def fail_def)
  show "(run_tool (tools_of H mode c v) ''folk_clipboard_write'' args :: (world, string, json) act) w =
      (Inr (err_result ''action blocked in this mode''), w)"
    using assms by (simp add: run_registered clipboard_write_def flatten_def ensure_mutation_def act_match_def
        act_bind_def lift_res_def ret_def fail_def)
qed

lemma blocked_tests_pass:
  "test_restricted_clipboard_write_should_be_blocked_before_effect test_machine w"
  "test_restricted_permission_grant_should_be_blocked_before_effect test_machine w"
proof -
  have d: "h_json_display test_machine = plain_text" by (simp add: test_machine_def)
  obtain c v w' where r: "(register_tools test_machine (table_new Limited) :: (world, string, tool_table) act) w =
      (Inr (tools_of test_machine Limited c v), w')"
    by (rule registered)
  then show "test_restricted_clipboard_write_should_be_blocked_before_effect test_machine w"
    by (simp add: test_restricted_clipboard_write_should_be_blocked_before_effect_def passes_def act_bind_Inr
        table_call_run_tool blocked_calls d blocked_text)
  obtain c' v' w'' where r': "(register_tools test_machine (table_new Sandbox) :: (world, string, tool_table) act) w =
      (Inr (tools_of test_machine Sandbox c' v'), w'')"
    by (rule registered)
  then show "test_restricted_permission_grant_should_be_blocked_before_effect test_machine w"
    by (simp add: test_restricted_permission_grant_should_be_blocked_before_effect_def passes_def act_bind_Inr
        table_call_run_tool blocked_calls d blocked_text)
qed

lemma permission_inspection_passes: "test_restricted_permission_inspection_should_remain_read_only H w"
proof -
  have "str_arg (jobj []) ''action'' = None" by code_simp
  then show ?thesis
    by (simp add: test_restricted_permission_inspection_should_remain_read_only_def passes_def permissions_def
        flatten_def act_match_def act_bind_def host_call_def ret_def Let_def json_text_result_def text_result_def
        jobj_def members_def obj_get_def)
qed

lemma valid_semantic_args:
  "ensure_semantic_args
     (jobj [(''operation_id'', Str ''op:1''), (''observation_id'', Str (replicate 64 CHR ''a'')), (''tag'', Str ''e4095''),
        (''interaction_mode'', Str ''interactive'')]) False = Inr ()"
  by code_simp

abbreviation args_refused :: "json \<Rightarrow> bool" where
  "args_refused invalid \<equiv> isl (ensure_semantic_args invalid (jget invalid ''value'' \<noteq> None))"

lemma short_args_refused:
  "args_refused (jobj [(''operation_id'', Str ''bad/id''), (''observation_id'', Str (replicate 64 CHR ''a'')), (''tag'', Str ''e0''),
        (''interaction_mode'', Str ''interactive'')])"
  "args_refused (jobj [(''operation_id'', Str ''op''), (''observation_id'', Str (replicate 64 CHR ''A'')), (''tag'', Str ''e0''),
        (''interaction_mode'', Str ''interactive'')])"
  "args_refused (jobj [(''operation_id'', Str ''op''), (''observation_id'', Str (replicate 64 CHR ''a'')), (''tag'', Str ''e12345''),
        (''interaction_mode'', Str ''interactive'')])"
  "args_refused (jobj [(''operation_id'', Str ''op''), (''observation_id'', Str (replicate 64 CHR ''a'')), (''tag'', Str ''e0''),
        (''interaction_mode'', Str ''unknown'')])"
  "args_refused (jobj [(''operation_id'', Str ''op''), (''observation_id'', Str (replicate 64 CHR ''a'')), (''tag'', Str ''e0''),
        (''interaction_mode'', Str ''interactive''), (''session_isolation'', Str ''host_isolated'')])"
  by code_simp+

lemma long_value_refused:
  assumes "length v > max_value_bytes"
  shows "isl (ensure_semantic_args (jobj [(''operation_id'', Str ''op''), (''observation_id'', i), (''tag'', Str ''e0''),
        (''value'', Str v), (''interaction_mode'', Str ''interactive'')]) True)"
proof -
  let ?a = "jobj [(''operation_id'', Str ''op''), (''observation_id'', i), (''tag'', Str ''e0''),
        (''value'', Str v), (''interaction_mode'', Str ''interactive'')]"
  have "str_arg ?a ''value'' = Some v" by (simp add: str_arg_def jobj_def members_def obj_get_def)
  with assms show ?thesis
    by (auto simp: ensure_semantic_args_def res_bind_def split: sum.splits)
qed

lemma long_args_refused:
  "args_refused (jobj [(''operation_id'', Str ''op''), (''observation_id'', Str (replicate 64 CHR ''a'')), (''tag'', Str ''e0''),
        (''value'', Str (replicate (16 * 1024 + 1) CHR ''x'')), (''interaction_mode'', Str ''interactive'')])"
proof -
  have "jget (jobj [(''operation_id'', Str ''op''), (''observation_id'', i), (''tag'', Str ''e0''),
        (''value'', Str v), (''interaction_mode'', Str ''interactive'')]) ''value'' \<noteq> None" for i v
    by (simp add: jobj_def members_def obj_get_def)
  moreover have "length (replicate (16 * 1024 + 1) CHR ''x'') > max_value_bytes"
    unfolding length_replicate by (simp add: max_value_bytes_def)
  ultimately show ?thesis using long_value_refused by presburger
qed

lemma argument_bounds_pass: "test_semantic_effect_argument_bounds_match_the_protocol"
  unfolding test_semantic_effect_argument_bounds_match_the_protocol_def invalid_semantic_args_def list.pred_inject
  by (intro conjI list.pred_inject(1) valid_semantic_args short_args_refused long_args_refused)

section \<open>The tests of screenshots and registration\<close>

lemma test_names:
  "is_file_name (''folk-around-image-result-'' @ show_nat pid @ ''.png'')"
  "is_file_name (''folk-around-ephemeral-image-result-'' @ show_nat pid @ ''.png'')"
proof -
  have "CHR ''/'' \<notin> set (show_nat pid)"
    using show_nat_digits [of pid] by (auto simp: list_all_iff byte_class_defs)
  then show "is_file_name (''folk-around-image-result-'' @ show_nat pid @ ''.png'')"
    "is_file_name (''folk-around-ephemeral-image-result-'' @ show_nat pid @ ''.png'')"
    by (simp_all add: is_file_name_def)
qed

lemma write_test_image:
  "\<exists>w. (try_io (fs_write test_machine (Path True [''tmp'', nm]) test_image_bytes) :: unit exec) test_world = (Inr (), w) \<and>
     files w = (files test_world)(Path True [''tmp'', nm] \<mapsto> Regular 420 test_image_bytes)"
proof -
  have "max_symlinks = Suc 39" by (simp add: max_symlinks_def)
  then show ?thesis
    by (simp add: try_io_def act_map_err_def fs_write_def test_world_def demo_world_def act_simps test_machine_facts
        check_parent_def path_parent_def)
qed

definition test_artifact :: json where
  "test_artifact = jobj
     [(''contentHash'', Str ''sha256:9f64a747e1b97f131fabb6b447296c9b6f0201e79fb3c5356e6c77e89b6a806a''),
      (''mimeType'', Str ''image/png'')]"

definition test_image_response :: json where
  "test_image_response =
     (let value = json_set ''artifact'' (json_set ''locator'' (Str ''folk-artifact:test.png'') test_artifact) screen_value
      in jobj [(''content'', Array [jobj [(''type'', Str ''text''), (''text'', Str (plain_text value))]]),
           (''structuredContent'', value)])"

lemma test_digest: "hex_bytes (h_sha256 test_machine test_image_bytes) =
    ''9f64a747e1b97f131fabb6b447296c9b6f0201e79fb3c5356e6c77e89b6a806a''"
  by code_simp

lemma hash_short:
  assumes "bs \<noteq> []" and "length bs \<le> 8192"
  shows "\<exists>w'. hash_reads test_machine bs 0 [] w = (Inr bs, w') \<and> files w' = files w"
proof -
  have "length bs \<le> u64_max" "length bs \<le> max_screenshot_bytes"
    using assms(2) by (simp_all add: u64_max_def max_screenshot_bytes_def)
  with assms show ?thesis
    by (simp add: hash_reads.simps [of _ bs] hash_reads.simps [of _ "[]"] try_io_def act_map_err_def act_bind_def
        io_step_def test_machine_facts ret_def Let_def)
qed

lemma image_of_test:
  assumes "files w p = Some (Regular 420 test_image_bytes)"
  shows "\<exists>w'. image_result test_machine screen_value (test_capture p False) ''folk-artifact:test.png'' w =
      (Inr test_image_response, w') \<and> files w' p = Some (Regular 384 test_image_bytes)"
proof -
  have m: "max_symlinks = Suc 39" by (simp add: max_symlinks_def)
  have s: "\<not> length test_image_bytes > max_screenshot_bytes" "test_image_bytes \<noteq> []" "length test_image_bytes \<le> 8192"
    by (simp_all add: test_image_bytes_def max_screenshot_bytes_def)
  have p: "pretty_text test_machine = plain_text" by (rule ext) (simp add: pretty_text_def test_machine_def)
  let ?w = "w\<lparr>files := (files w)(p \<mapsto> Regular 384 test_image_bytes), io_ops := Suc (Suc (Suc (Suc (io_ops w))))\<rparr>"
  obtain w' where h: "hash_reads test_machine test_image_bytes 0 [] ?w = (Inr test_image_bytes, w')" "files w' = files ?w"
    using hash_short [OF s(2,3), of ?w] by blast
  have "screenshot_reference test_machine (test_capture p False) w = (Inr test_artifact, w')"
    using assms m s h(1)
    by (simp add: screenshot_reference_def test_machine_facts test_capture_def try_io_def act_map_err_def fs_open_def
        fs_symlink_metadata_def fs_set_permissions_def act_bind_def io_step_def get_files_def put_node_def lift_res_def
        ret_def test_digest test_artifact_def)
  then show ?thesis
    using h(2) by (simp add: image_result_def test_capture_def act_bind_Inr p test_image_response_def Let_def)
qed

lemma contains_prefix: "contains s (a @ b) \<Longrightarrow> contains s a"
  by (induction s) (auto simp: starts_with_iff dest: append_prefixD)

lemma passes_bind: "m s = (Inr x, t) \<Longrightarrow> passes (f x) P t \<Longrightarrow> passes (act_bind m f) P s"
  by (simp add: passes_def act_bind_def)

lemma passes_ignored: "passes (act_bind (act_match m ret (\<lambda>_. ret ())) (\<lambda>_. ret x)) P s \<longleftrightarrow> P x"
  by (simp add: passes_def act_bind_def act_match_def ret_def split: prod.split sum.split)

lemma test_response_facts:
  "at_key (at_key (at_key test_image_response ''structuredContent'') ''artifact'') ''contentHash'' =
     Str ''sha256:9f64a747e1b97f131fabb6b447296c9b6f0201e79fb3c5356e6c77e89b6a806a''"
  "at_key (at_key (at_key test_image_response ''structuredContent'') ''artifact'') ''locator'' = Str ''folk-artifact:test.png''"
  "case as_array (at_key test_image_response ''content'') of None \<Rightarrow> False
     | Some content \<Rightarrow> length content = 1 \<and> at_key (hd content) ''type'' = Str ''text''"
  "\<not> contains (plain_text test_image_response) ''/tmp/folk-around''"
  "\<not> contains (plain_text test_image_response) ''AQIDBA==''"
  "\<not> contains (plain_text test_image_response) ([CHR 0x22] @ ''path'' @ [CHR 0x22])"
  "\<not> contains (plain_text test_image_response) ([CHR 0x22] @ ''bytes'' @ [CHR 0x22])"
  by code_simp+

lemma image_test_passes: "test_image_result_should_return_only_a_restricted_content_hash test_machine pid test_world"
proof -
  let ?nm = "''folk-around-image-result-'' @ show_nat pid @ ''.png''"
  let ?p = "Path True [''tmp'', ?nm]"
  have p: "path_join (temp_dir test_machine) ?nm = ?p"
    using path_join_file_name [OF test_names(1)] by (simp add: temp_dir_tmp)
  obtain w where w: "(try_io (fs_write test_machine ?p test_image_bytes) :: unit exec) test_world = (Inr (), w)"
    "files w = (files test_world)(?p \<mapsto> Regular 420 test_image_bytes)"
    using write_test_image [of ?nm] by blast
  then obtain w' where i: "image_result test_machine screen_value (test_capture ?p False) ''folk-artifact:test.png'' w =
      (Inr test_image_response, w')" "files w' ?p = Some (Regular 384 test_image_bytes)"
    using image_of_test [of w ?p] by auto
  have "max_symlinks = Suc 39" by (simp add: max_symlinks_def)
  with i(2) have "\<exists>w''. (try_io (fs_mode test_machine ?p) :: nat exec) w' = (Inr 384, w'')"
    by (simp add: try_io_def act_map_err_def fs_mode_def fs_open_def act_bind_def io_step_def test_machine_facts
        get_files_def ret_def)
  then obtain w'' where m: "(try_io (fs_mode test_machine ?p) :: nat exec) w' = (Inr 384, w'')" by blast
  have "path_text ?p = ''/tmp/folk-around'' @ (''-image-result-'' @ show_nat pid @ ''.png'')" by (simp add: path_text_def)
  then have nc: "\<not> contains (plain_text test_image_response) (path_text ?p)"
    using contains_prefix test_response_facts(4) by metis
  have dj: "h_json_display test_machine = plain_text" by (simp add: test_machine_def)
  show ?thesis
    unfolding test_image_result_should_return_only_a_restricted_content_hash_def Let_def p
    by (rule passes_bind, rule w(1), rule passes_bind, rule i(1), rule passes_bind, rule m,
        unfold passes_ignored prod.case dj, intro conjI test_response_facts nc) simp
qed

lemma ephemeral_test_passes:
  "test_image_result_should_delete_ephemeral_capture_and_fail_closed test_machine pid test_world"
proof -
  let ?nm = "''folk-around-ephemeral-image-result-'' @ show_nat pid @ ''.png''"
  let ?p = "Path True [''tmp'', ?nm]"
  have p: "path_join (temp_dir test_machine) ?nm = ?p"
    using path_join_file_name [OF test_names(2)] by (simp add: temp_dir_tmp)
  obtain w where w: "(try_io (fs_write test_machine ?p test_image_bytes) :: unit exec) test_world = (Inr (), w)"
    "files w = (files test_world)(?p \<mapsto> Regular 420 test_image_bytes)"
    using write_test_image [of ?nm] by blast
  have "max_symlinks = Suc 39" by (simp add: max_symlinks_def)
  with w(2) have "passes
      (act_bind (act_match (image_result test_machine screen_value (test_capture ?p True) ''folk-artifact:test.png'')
           (\<lambda>_. ret None) (\<lambda>e. ret (Some e)) :: (world, tool_exec_error, tool_exec_error option) act) (\<lambda>refused.
         act_bind (path_exists ?p) (\<lambda>there. ret (refused, there))))
        (\<lambda>(refused, there). refused = Some Screenshot_Reference_Unavailable \<and> \<not> there) w"
    by (simp add: passes_def image_result_def test_capture_def fs_remove_file_def act_bind_def act_match_def io_step_def
        test_machine_facts get_files_def put_node_def ret_def fail_def path_exists_def)
  then show ?thesis
    unfolding test_image_result_should_delete_ephemeral_capture_and_fail_closed_def Let_def p
    by - (rule passes_bind, rule w(1))
qed

lemma capability_filter_passes: "test_semantic_capability_filter_does_not_advertise_a_different_effect H"
  unfolding test_semantic_capability_filter_does_not_advertise_a_different_effect_def tools_of_def [symmetric]
  by (simp add: tool_names_def advertised_tools_exact)

definition screenshot_tool :: "string \<Rightarrow> bool" where
  "screenshot_tool n \<longleftrightarrow> n \<in> {''folk_image'', ''folk_see'', ''folk_screen_capture''}"

lemma no_screenshots:
  "filter (\<lambda>e. screenshot_tool (fst e)) (host_tools H) = []"
  "filter (\<lambda>e. screenshot_tool (fst e)) (click_tools H) = []"
  "filter (\<lambda>e. screenshot_tool (fst e)) (input_tools H) = []"
  "filter (\<lambda>e. screenshot_tool (fst e)) (set_value_tools H) = []"
  "filter (\<lambda>e. screenshot_tool (fst e)) (control_tools H) = []"
  by (simp_all add: entries_defs screenshot_tool_def)

lemma no_path_entries:
  "list_all (\<lambda>e. screenshot_tool (fst e) \<longrightarrow>
      Option.bind (jget (fst (snd (snd e))) ''properties'') (\<lambda>v. jget v ''path'') = None) (all_entries H)"
proof -
  let ?ok = "\<lambda>e. Option.bind (jget (fst (snd (snd e))) ''properties'') (\<lambda>v. jget v ''path'') = None"
  have "list_all ?ok (capture_tools H)" unfolding capture_tools_def by code_simp
  then have "list_all ?ok (filter (\<lambda>e. screenshot_tool (fst e)) (all_entries H))"
    by (simp add: all_entries_def no_screenshots list_all_iff)
  then show ?thesis unfolding list_all_iff set_filter by blast
qed

lemma registration_test_passes: "test_tool_registration_reports_only_hardened_runtime_capabilities H"
proof -
  let ?ok = "\<lambda>s. Option.bind (jget s ''properties'') (\<lambda>v. jget v ''path'') = None"
  let ?t = "table_tools (tools_of H Full False False)"
  have n: "tool_name (entry_tool e) = fst e" "tool_input_schema (entry_tool e) = fst (snd (snd e))" for e
    by (simp_all add: entry_tool_def split: prod.split)
  have "filter (\<lambda>t. screenshot_tool (tool_name t)) ?t =
      map entry_tool (filter (\<lambda>e. screenshot_tool (fst e) \<and> advertised False False (fst e)) (all_entries H))"
    unfolding tools_of_tools filter_map comp_def n filter_filter by (simp add: conj_commute)
  moreover have "list_all (\<lambda>e. ?ok (fst (snd (snd e))))
      (filter (\<lambda>e. screenshot_tool (fst e) \<and> advertised False False (fst e)) (all_entries H))"
    using no_path_entries [of H] unfolding list_all_iff set_filter by blast
  ultimately have p: "list_all (\<lambda>t. ?ok (tool_input_schema t)) (filter (\<lambda>t. screenshot_tool (tool_name t)) ?t)"
    by (simp only: list.pred_map comp_def n)
  have "list_all (\<lambda>n. n \<in> set (tool_names (tools_of H Full False False))) expected_tools"
    "list_all (\<lambda>n. n \<notin> set (tool_names (tools_of H Full False False))) unavailable_tools"
    by (simp_all add: tool_names_def advertised_tools_exact expected_tools_def unavailable_tools_def)
  with p show ?thesis
    unfolding test_tool_registration_reports_only_hardened_runtime_capabilities_def Let_def tools_of_def [symmetric]
      screenshot_tool_def by blast
qed

lemma runtime_capability_passes:
  "test_runtime_semantic_capabilities_control_exact_tool_advertisement test_machine w"
proof -
  have s: "\<exists>w'. (supports_semantic_action test_machine a :: (world, string, bool) act) w = (Inr (a = ''invoke''), w')" for a w
    by (auto simp: supports_semantic_action_def host_call_def act_match_def ret_def Let_def test_machine_def supports_action_def)
  obtain w1 where w1: "(supports_semantic_action test_machine ''invoke'' :: (world, string, bool) act) w = (Inr True, w1)"
    using s [of "''invoke''"] by auto
  obtain w2 where w2: "(supports_semantic_action test_machine ''set_value'' :: (world, string, bool) act) w1 = (Inr False, w2)"
    using s [of "''set_value''"] by auto
  obtain w3 where w3: "(supports_semantic_action test_machine ''invoke'' :: (world, string, bool) act) w2 = (Inr True, w3)"
    using s [of "''invoke''"] by auto
  obtain w4 where w4: "(supports_semantic_action test_machine ''set_value'' :: (world, string, bool) act) w3 = (Inr False, w4)"
    using s [of "''set_value''"] by auto
  have r: "(register_tools test_machine (table_new Full) :: (world, string, tool_table) act) w =
      (Inr (tools_of test_machine Full True False), w2)"
    using w1 w2 by (simp add: register_tools_def act_bind_def tools_of_def ret_def)
  show ?thesis
    unfolding test_runtime_semantic_capabilities_control_exact_tool_advertisement_def
    by (rule passes_bind, rule r, rule passes_bind, rule w3, rule passes_bind, rule w4)
       (simp add: tool_names_def advertised_tools_exact)
qed

end
