(* ===== verification/Adapter_Tests.thy ===== *)
theory Adapter_Tests
  imports Tool_Tests
begin

text \<open>
  The unit tests of the repository, third part: those of the Praefectus adapter, in the same way as in
  \<open>Repo_Tests\<close>.
\<close>

section \<open>The Praefectus adapter\<close>

definition test_observation :: "host \<Rightarrow> int \<Rightarrow> observation" where
  "test_observation H now =
     \<lparr>obs_id = replicate 64 CHR ''1'', obs_expires_at_ms = now + 30000,
      obs_detail = jobj
        [(''protocol_version'', jnat (h_protocol_version H)), (''generation'', jnat 1), (''observed_at_ms'', jnat (nat now)), (''truncated'', Bool False),
         (''provenance'', jobj
            [(''backend'', Str ''Accessibility''), (''backend_name'', Str ''test''), (''process_id'', jnat 1),
             (''process_generation'', Str ''generation''), (''window_id'', Str ''window''), (''document_id'', Null),
             (''display_geometry_hash'', Str (replicate 64 CHR ''2'')), (''host_opt_ins'', Array [])]),
         (''elements'', Array [jobj
            [(''tag'', Str ''e0''), (''element_id'', Str (replicate 64 CHR ''3'')), (''parent_id'', Null),
             (''fingerprint_hash'', Str (replicate 64 CHR ''4'')), (''role'', Str ''button''), (''name'', Str ''Save''),
             (''bounds'', Null),
             (''actionability'', jobj
                [(''visible'', Bool True), (''enabled'', Bool True), (''unambiguous'', Bool True), (''stable'', Bool True),
                 (''receives_events'', Bool True), (''invokable'', Bool True), (''editable'', Bool False)])]])]\<rparr>"

definition test_full_access_check_precedes_semantic_target_lookup :: "host \<Rightarrow> world \<Rightarrow> bool" where
  "test_full_access_check_precedes_semantic_target_lookup H w \<longleftrightarrow>
     fst (execute_click H Limited ''op'' ''missing'' ''e0'' Interactive w) = Inl Blocked"

definition is_err :: "'a exec \<Rightarrow> bool exec" where
  "is_err m = act_match m (\<lambda>_. ret False) (\<lambda>_. ret True)"

definition test_cached_semantic_targets_are_observation_and_tag_bound :: "host \<Rightarrow> world \<Rightarrow> bool" where
  "test_cached_semantic_targets_are_observation_and_tag_bound H =
     passes
       (act_bind (now_ms H) (\<lambda>now.
        let obs = test_observation H now in
        act_bind (cache_observation H obs) (\<lambda>_.
        act_bind (cached_target H (obs_id obs) ''e0'') (\<lambda>(target, deadline).
        act_bind (is_err (cached_target H ''f'' ''e0'')) (\<lambda>other_id.
        act_bind (is_err (cached_target H (obs_id obs) ''e1'')) (\<lambda>other_tag.
        ret (st_observation_id target = obs_id obs \<and> deadline = obs_expires_at_ms obs \<and> other_id \<and> other_tag)))))))
       (\<lambda>ok. ok)"

definition test_key :: bytes where
  "test_key = replicate 32 (CHR 0x07)"

text \<open>The target of the observation's element, and a request for it.\<close>

definition with_target :: "host \<Rightarrow> (observation \<Rightarrow> semantic_target \<Rightarrow> tool_exec_error + bool) \<Rightarrow> world \<Rightarrow> bool" where
  "with_target H check =
     passes
       (act_bind (now_ms H) (\<lambda>now.
        let obs = test_observation H now in
        act_bind (lift_lib (h_obs_target H obs ''e0'')) (\<lambda>target.
        lift_res (check obs target))))
       (\<lambda>ok. ok)"

definition test_request ::
  "host \<Rightarrow> observation \<Rightarrow> semantic_target \<Rightarrow> interaction_mode \<Rightarrow> tool_exec_error + action_request" where
  "test_request H obs target imode =
     signed_request H Invoke target ''operation:1'' (obs_expires_at_ms obs) test_key ''session:1'' imode"

definition test_identical_operation_proposals_have_a_stable_canonical_hash :: "host \<Rightarrow> world \<Rightarrow> bool" where
  "test_identical_operation_proposals_have_a_stable_canonical_hash H =
     with_target H (\<lambda>obs target.
       res_bind (test_request H obs target Interactive) (\<lambda>first.
       res_bind (test_request H obs target Interactive) (\<lambda>second.
       res_bind (map_err from_lib_error (h_action_hash H first)) (\<lambda>first_hash.
       res_bind (map_err from_lib_error (h_action_hash H second)) (\<lambda>second_hash.
       Inr (first_hash = second_hash \<and> rq_authority first = rq_authority second))))))"

text \<open>\<open>perms\<close> is the default value of a third-party type.\<close>

definition test_semantic_routing_requires_exact_action_support :: "json \<Rightarrow> bool" where
  "test_semantic_routing_requires_exact_action_support perms \<longleftrightarrow>
     (let capabilities = \<lparr>supported_actions = [''invoke''], cap_detail = jobj
        [(''platform'', Str ''test''), (''backend'', Str ''test''), (''session_isolation'', Str ''SharedDesktop''),
         (''action_capabilities'', Array [jobj [(''action'', Str ''invoke''),
            (''delivery_route'', Str ''TargetAddressed''), (''background_support'', Str ''Guarded'')]]),
         (''permissions'', perms), (''display_geometry_hash'', Str (replicate 64 CHR ''0''))]\<rparr>
      in supports_action capabilities ''invoke'' \<and> \<not> supports_action capabilities ''set_value'' \<and>
         \<not> supports_action capabilities [])"

definition test_invoke_is_external_and_explicitly_unverified :: "host \<Rightarrow> bool" where
  "test_invoke_is_external_and_explicitly_unverified H \<longleftrightarrow>
     (case action_policy H Invoke of (safety, verification) \<Rightarrow> safety = External \<and> verification = Verify_None)"

definition test_interaction_mode_changes_the_authorized_action_hash :: "host \<Rightarrow> world \<Rightarrow> bool" where
  "test_interaction_mode_changes_the_authorized_action_hash H =
     with_target H (\<lambda>obs target.
       res_bind (test_request H obs target Interactive) (\<lambda>interactive.
       res_bind (test_request H obs target Background_Only) (\<lambda>background.
       res_bind (map_err from_lib_error (h_action_hash H interactive)) (\<lambda>interactive_hash.
       res_bind (map_err from_lib_error (h_action_hash H background)) (\<lambda>background_hash.
       Inr (interactive_hash \<noteq> background_hash))))))"

definition test_set_value_is_external_and_verifies_the_typed_value_hash :: "host \<Rightarrow> bool" where
  "test_set_value_is_external_and_verifies_the_typed_value_hash H \<longleftrightarrow>
     (case action_policy H (Set_Value ''value'') of (safety, verification) \<Rightarrow>
        safety = External \<and>
        verification = Target_Value_Hash ''cd42404d52ad55ccfa9aca4adc828aa5800ad9d385a0671fbcbf724118320619'')"

definition test_folk_ledger_is_outside_the_working_directory :: "host \<Rightarrow> bool" where
  "test_folk_ledger_is_outside_the_working_directory H \<longleftrightarrow>
     (let state_root = path_join (temp_dir H) ''folk-state''
      in ledger_path_from (Some state_root) None =
           Some (path_join (path_join (path_join state_root ''folk-around'') ''praefectus'') ''operations.jsonl''))"

definition test_folk_ledger_rejects_relative_state_roots :: bool where
  "test_folk_ledger_rejects_relative_state_roots \<longleftrightarrow>
     (ledger_path_from (Some (path_from ''relative-state'')) (Some (path_from ''/home/folk'')),
      ledger_path_from None (Some (path_from ''relative-home''))) = (None, None)"

definition test_ack :: "host \<Rightarrow> ack_state \<Rightarrow> action_ack" where
  "test_ack H state =
     \<lparr>ack_sequence = 2, ack_replayed = False, ack_state = state,
      ack_detail = jobj [(''protocol_version'', jnat (h_protocol_version H)), (''operation_id'', Str ''folk-operation''),
        (''action_hash'', Str (replicate 64 CHR ''0''))]\<rparr>"

definition test_receipt :: "host \<Rightarrow> string \<Rightarrow> json" where
  "test_receipt H effect =
     jobj [(''protocol_version'', jnat (h_protocol_version H)), (''action_name'', Str ''click''),
       (''action_hash'', Str (replicate 64 CHR ''0'')), (''started_at_ms'', jnat 1), (''finished_at_ms'', jnat 2), (''backend'', Str ''test''), (''fallback_chain'', Array []),
       (''delivery_route'', Str ''TargetAddressed''), (''session_isolation'', Str ''SharedDesktop''),
       (''interaction_mode'', Str ''Interactive''), (''context_preservation'', Str ''NotApplicable''),
       (''effect'', Str effect), (''before'', Null), (''after'', Null), (''warnings'', Array [])]"

definition serialized_retry_safe :: "host \<Rightarrow> terminal \<Rightarrow> bool option" where
  "serialized_retry_safe H t =
     (case report_result H \<lparr>acknowledgements = [test_ack H (Ack_Terminal t)]\<rparr> of
        Inl _ \<Rightarrow> None
      | Inr response \<Rightarrow>
          (case as_str (at_key (at_index (at_key response ''content'') 0) ''text'') of
             None \<Rightarrow> None
           | Some t \<Rightarrow>
               (case h_json_parse H t of
                  Inl _ \<Rightarrow> None
                | Inr payload \<Rightarrow> as_bool (at_key payload ''retry_safe''))))"

definition test_no_effect_terminals_serialize_retry_safe_true :: "host \<Rightarrow> bool" where
  "test_no_effect_terminals_serialize_retry_safe_true H \<longleftrightarrow>
     list_all (\<lambda>t. serialized_retry_safe H t = Some True)
       [Rejected ''PermissionDenied'' ''action rejected'', Cancelled_Before_Effect, Expired_Before_Effect]"

definition test_succeeded_terminal_serializes_retry_safe_false :: "host \<Rightarrow> bool" where
  "test_succeeded_terminal_serializes_retry_safe_false H \<longleftrightarrow>
     serialized_retry_safe H (Succeeded (test_receipt H ''Verified'')) = Some False"

definition test_outcome_unknown_serializes_retry_safe_false :: "host \<Rightarrow> bool" where
  "test_outcome_unknown_serializes_retry_safe_false H \<longleftrightarrow>
     serialized_retry_safe H
       (Outcome_Unknown (test_receipt H ''Unknown'') ''delivery could not be determined'') = Some False"

definition test_failed_or_missing_terminal_is_not_retry_safe :: "host \<Rightarrow> bool" where
  "test_failed_or_missing_terminal_is_not_retry_safe H \<longleftrightarrow>
     serialized_retry_safe H (Failed ''DispatchFailed'' ''dispatch failed'') = Some False \<and>
     \<not> report_is_retry_safe \<lparr>acknowledgements = [test_ack H Accepted]\<rparr>"


section \<open>They pass\<close>

lemma access_check_passes: "test_full_access_check_precedes_semantic_target_lookup H w"
  by (simp add: test_full_access_check_precedes_semantic_target_lookup_def execute_click_def ensure_mutation_def
      act_bind_def lift_res_def fail_def)

lemma routing_passes: "test_semantic_routing_requires_exact_action_support perms"
  by (simp add: test_semantic_routing_requires_exact_action_support_def supports_action_def)

lemma policy_test_passes: "test_invoke_is_external_and_explicitly_unverified H"
  by (simp add: test_invoke_is_external_and_explicitly_unverified_def action_policy_def)

lemma value_hash_test_passes: "test_set_value_is_external_and_verifies_the_typed_value_hash test_machine"
  by code_simp

lemma ledger_tests_pass:
  "test_folk_ledger_is_outside_the_working_directory test_machine"
  "test_folk_ledger_rejects_relative_state_roots"
  by code_simp+

lemma retry_tests_pass:
  "test_no_effect_terminals_serialize_retry_safe_true test_machine"
  "test_succeeded_terminal_serializes_retry_safe_false test_machine"
  "test_outcome_unknown_serializes_retry_safe_false test_machine"
  "test_failed_or_missing_terminal_is_not_retry_safe test_machine"
  by code_simp+

lemma cached_targets_pass: "test_cached_semantic_targets_are_observation_and_tag_bound test_machine test_world"
  by code_simp

lemma request_tests_pass:
  "test_identical_operation_proposals_have_a_stable_canonical_hash test_machine test_world"
  "test_interaction_mode_changes_the_authorized_action_hash test_machine test_world"
  by code_simp+

text \<open>
  A regression check of the model: the unit tests of \<open>folk-computer-use\<close> pass. Those that take a host \<open>H\<close> pass for every
  host and state of it; the others on the machine of \<open>Repo_Tests\<close>, whose programs and libraries answer what these
  tests expect, so that the tests of hashes check what is hashed, not the hash. \<open>pid\<close> is the number of the process that
  runs the tests.
\<close>

lemma computer_use_tests_hold:
  "test_sandbox_shell_should_match_legacy_safe_command_behavior test_machine w \<and>
   test_sandbox_shell_should_block_shell_metacharacters test_machine w \<and>
   test_limited_shell_should_execute_allowlisted_program_without_shell test_machine w \<and>
   test_unsupported_ui_effects_are_not_advertised_in_sandbox H w \<and>
   test_unsupported_ui_effects_are_not_advertised_in_limited H w \<and>
   test_advertised_semantic_tools_never_expose_coordinates H \<and>
   test_semantic_effects_reject_unknown_arguments_before_target_resolution test_machine w \<and>
   test_semantic_effect_argument_bounds_match_the_protocol \<and>
   test_host_mode_blocks_semantic_effects_before_argument_resolution test_machine w \<and>
   test_praefectus_errors_should_not_expose_private_details \<and>
   test_backend_errors_should_not_expose_private_details \<and>
   test_limited_launch_should_be_blocked \<and>
   test_restricted_clipboard_write_should_be_blocked_before_effect test_machine w \<and>
   test_restricted_permission_grant_should_be_blocked_before_effect test_machine w \<and>
   test_restricted_permission_inspection_should_remain_read_only H w \<and>
   test_image_result_should_return_only_a_restricted_content_hash test_machine pid test_world \<and>
   test_image_result_should_delete_ephemeral_capture_and_fail_closed test_machine pid test_world \<and>
   test_tool_registration_reports_only_hardened_runtime_capabilities H \<and>
   test_runtime_semantic_capabilities_control_exact_tool_advertisement test_machine w \<and>
   test_semantic_capability_filter_does_not_advertise_a_different_effect H \<and>
   test_full_access_check_precedes_semantic_target_lookup H w \<and>
   test_cached_semantic_targets_are_observation_and_tag_bound test_machine test_world \<and>
   test_identical_operation_proposals_have_a_stable_canonical_hash test_machine test_world \<and>
   test_semantic_routing_requires_exact_action_support perms \<and>
   test_invoke_is_external_and_explicitly_unverified H \<and>
   test_interaction_mode_changes_the_authorized_action_hash test_machine test_world \<and>
   test_set_value_is_external_and_verifies_the_typed_value_hash test_machine \<and>
   test_folk_ledger_is_outside_the_working_directory test_machine \<and>
   test_folk_ledger_rejects_relative_state_roots \<and>
   test_no_effect_terminals_serialize_retry_safe_true test_machine \<and>
   test_succeeded_terminal_serializes_retry_safe_false test_machine \<and>
   test_outcome_unknown_serializes_retry_safe_false test_machine \<and>
   test_failed_or_missing_terminal_is_not_retry_safe test_machine"
  by (intro conjI shell_tests_pass unadvertised_tests_pass coordinates_test_passes unknown_arguments_test_passes
      argument_bounds_pass host_mode_test_passes error_tests_pass blocked_tests_pass permission_inspection_passes
      image_test_passes ephemeral_test_passes registration_test_passes runtime_capability_passes
      capability_filter_passes access_check_passes cached_targets_pass request_tests_pass routing_passes
      policy_test_passes value_hash_test_passes ledger_tests_pass retry_tests_pass)

end
