(* ===== verification/Spec2Isabelle.thy ===== *)
theory Spec2Isabelle
  imports Core_Config Core_Files Mcp Adapter Tools Tools_Table Tools_Access Http Sse Stdio Relay Cli Service
    Access_Modes Tool_Results Sse_Stream Network Credential_Race Connections Repo_Tests Tool_Tests Adapter_Tests
begin

text \<open>
  A verification library of the Rust program \<open>folk-around\<close>, a daemon that lets an agent use the
  computer it runs on through the Model Context Protocol (MCP), over standard input and output, over
  local HTTP with server-sent events, or through an end-to-end encrypted relay of a signalling
  server.

  \<^bold>\<open>The program and the theories.\<close> Each theory follows the code in order and keeps the code's names.

  \<^item> \<open>folk-around/src/main.rs\<close> (\<open>Cli\<close>): the flags (\<open>parse_args_from\<close>), the choice of mode and transport from
    flags and saved configuration, what is saved, and \<open>run\<close> up to its \<open>launch\<close>: the transport
    with everything that is handed to it, for the network transports at the point where the peer-to-peer
    thread is spawned or, without it, where the credential is about to be loaded. \<open>main_stdio\<close> is the process of the stdio transport
    with its exit status.
  \<^item> \<open>folk-core/src/lib.rs\<close> (\<open>Core_Config\<close>, \<open>Core_Files\<close>): access modes, the terminal clock, the configuration
    file, private directories, the HTTP credential, screenshot artifacts, pairing codes.
  \<^item> \<open>folk-mcp/src/lib.rs\<close> (\<open>Mcp\<close>): the tool table, result and schema constructors, the JSON-RPC handler
    \<open>handle_message\<close>.
  \<^item> \<open>folk-computer-use/src/lib.rs\<close> (\<open>Tools_Args\<close>, \<open>Tools\<close>, \<open>Tools_Table\<close>): argument and access checks, every
    tool handler, the thirty registrations and the \<open>retain\<close> filter. \<open>Tools_Access\<close> proves what the access
    modes promise, \<open>Tool_Results\<close> that every call is answered with a tool result of the protocol.
  \<^item> \<open>folk-computer-use/src/praefectus_adapter.rs\<close> (\<open>Adapter\<close>): the observation cache, signed requests, the
    engine run and the judgement of its report.
  \<^item> \<open>folk-transport/src/lib.rs\<close> (\<open>Http\<close>, \<open>Sse\<close>, \<open>Stdio\<close>, \<open>Relay_Session\<close>, \<open>Relay\<close>): the HTTP connection and the
    accept loop; the slots of the event streams; the stdio server; key agreement, sealing, opening and
    the replay check of the relay; the signalling connection and its reconnecting thread.
  \<^item> \<open>Service\<close> proves what needs the whole program: access modes on every transport and over the life of a
    process, resuming a peer-to-peer session. \<open>Access_Modes\<close> proves that
    the limited and the sandbox mode are the same on every transport.
  \<^item> \<open>Sse_Stream\<close> is the stream of one client in sequence, related to the threads of \<open>Sse\<close>. \<open>Network\<close> is the
    process with an HTTP server: the main thread prints the instructions, loads the credential, binds the address
    and accepts, while the peer-to-peer thread, spawned before, makes its rounds; a list of events is any order of
    their steps. \<open>Connections\<close> interleaves the threads of the HTTP server at their socket operations and
    the atomic operations on the slot counter, event streams included; it proves that they do not disturb each
    other but through the host and the counter, that every call is authorized, that none waits for another,
    and that they follow the slot protocol of \<open>Sse\<close>. \<open>Credential_Race\<close> interleaves the file operations of
    processes that start at the same time.
  \<^item> \<open>Repo_Tests\<close>, \<open>Tool_Tests\<close> and \<open>Adapter_Tests\<close> are a regression check of the model, no properties: they state the
    unit tests of the crates, one definition \<open>test_<name>\<close> for each, over the definitions of the model, and show that
    they pass, for every host where a test does not depend on the machine, else on \<open>test_machine\<close>, which is no code of
    the repository but gives the answers (digests, action hashes, parsed texts, outputs of programs) that the tests expect.
  \<^item> \<open>Prelude\<close>, \<open>Rust_Str\<close>, \<open>Rust_Text\<close>, \<open>Rust_Bytes\<close>, \<open>Json\<close> and \<open>Host\<close> are shared: actions and the locales
    \<open>effect_relation\<close> and \<open>world_carrier\<close>, the parts of the Rust standard library that the program uses
    (trimming, splitting, number parsing, UTF-8, big-endian integers), JSON values with the look-ups of
    \<open>serde_json\<close>, and the host.

  \<^bold>\<open>State and effects.\<close> An operation is an action \<open>'s \<Rightarrow> ('e + 'a) \<times> 's\<close>; an early return or a \<open>?\<close> is a
  left value, and effects before it are kept. The state of most operations is a \<open>world\<close>: the file
  system (with symbolic links and permission bits), the positions of the random source and of the clock,
  standard error, and the trace of host calls. A record \<open>host\<close> gives what the world answers: random bytes, the
  clock, an I/O fault for any operation, the answers of host calls (child processes, the automation backend,
  the semantic engine), the JSON parser and printer, hashing and signing. The transports have states
  of their own that contain a world (\<open>pipe\<close>, \<open>conn\<close>, \<open>relay\<close>; the locale \<open>world_carrier\<close> lifts facts
  about worlds to them), the event-stream slots are a step relation over interleaved threads, and the 64-bit
  sequence numbers of the relay are machine words that wrap.

  \<^bold>\<open>What is proved.\<close> A server in the limited or sandbox mode only looks and runs allowlisted programs directly,
  on every transport and from start to exit; over HTTP nothing runs without the token, and through the relay nothing
  without an authentic payload that is newer than all before; session keys are those negotiated with
  their peer, a payload is accepted once, an authentic request is answered once; files are
  never clobbered, credentials are well formed and private, racing processes agree on the credential
  and never wait for each other, the configuration survives a restart; a semantic action reaches the engine at most once and only on a live observation; requests,
  notifications, errors and tool results of the protocol; bounds on buffers, caches, slots and reading; framing round
  trips; the flags and the web socket address agree with reference definitions; the threads of the HTTP server
  are isolated from each other and refine the slot protocol.

  \<^bold>\<open>Bounds and fuel.\<close> Symbolic links are followed for at most 40 steps, as Linux does. An artifact is tried 16
  times, as in the code. What a connection, a pipe or a listener delivers is a finite list, so its loop is
  recursion over the list and a theorem for all lists covers every prefix of an endless input. The
  endless reconnecting loop of \<open>start_p2p\<close> is followed for \<open>n\<close> rounds, for every \<open>n\<close>. The header and argument
  loops are terminating functions with a measure. An event stream is followed for \<open>n\<close> keep-alive rounds, for
  every \<open>n\<close>. A thread of the HTTP server ends, or reaches its call of \<open>handle_message\<close> or its event stream,
  within as many turns of its own as its client sends bytes, and nine more; after the call it needs at most
  three. A process in the credential race needs at most 69 moves of its own: one to open, one to generate, at
  most 64 writes, three to synchronise and return.

  \<^bold>\<open>Parameters.\<close> The crates \<open>rs_peekaboo\<close>, \<open>praefectus\<close>, \<open>ed25519-dalek\<close>, \<open>sha2\<close>, \<open>serde_json\<close> (parsing and printing
  only), \<open>hex\<close>, \<open>x25519-dalek\<close>, \<open>hkdf\<close>, \<open>chacha20poly1305\<close>, \<open>base64\<close>, \<open>url\<close> and \<open>tungstenite\<close> are arguments of the
  definitions; what is relied on of them is a named hypothesis (\<open>hex_laws\<close>, \<open>aead_laws\<close>, \<open>dh_laws\<close>).

  \<^bold>\<open>Granularity.\<close> \<open>handle_message\<close> takes no lock, so two threads can interleave inside it. \<open>Connections\<close> therefore does
  not run it: a call is entered in one event and left in another with an arbitrary answer, and its theorems hold
  whatever the other threads do to the host meanwhile. \<open>Network\<close> follows the effects on the host and runs each
  connection and each relay round to its end before the next; finer interleavings of their host calls are not
  modelled there. \<open>route\<close> ends in the outcome \<open>Streaming\<close> where the code calls \<open>send_sse\<close>; \<open>serve_connection\<close>
  and the threads of \<open>Connections\<close> continue from there. The head of a response (one \<open>write!\<close>) and each \<open>write_all\<close> is one write
  operation, which fails or sends everything; only the race of the credential file has partial writes, and
  the retry of \<open>write_all\<close> after an interrupted write is left out everywhere.

  \<^bold>\<open>Not modelled.\<close> Elapsed time: timeouts are read or write errors, pauses do nothing. The bytes that \<open>--version\<close> prints, the construction of the \<open>Peekaboo\<close>
  value, the variants of functions for systems other than Unix beyond the error they return, the
  TypeScript signalling server, the web page, the installer and the manual page.
\<close>

section \<open>Boundary cases\<close>

text \<open>
  The configuration format has no quoting: a room name with a line feed is read back as a room and a mode, and a
  room name with a leading space loses it.
\<close>

lemma room_with_line_feed_sets_the_mode:
  "parse_config (render_config (default_config\<lparr>room := Some (''den'' @ [CHR 0x0A] @ ''mode=full'')\<rparr>)) =
     default_config\<lparr>room := Some ''den'', config_mode := Some ''full''\<rparr>"
  "parse_config (render_config (default_config\<lparr>room := Some '' den''\<rparr>)) \<noteq>
     default_config\<lparr>room := Some '' den''\<rparr>"
  by code_simp+

text \<open>
  The allowlist of the restricted modes names programs, not what they do: commands that delete files or write
  a download to one are accepted.
\<close>

lemma allowlist_admits_mutating_commands:
  "restricted_command ''find . -delete'' = Some (''find'', [''.'', ''-delete''])"
  "restricted_command ''curl -o notes http://a.example'' =
     Some (''curl'', [''-o'', ''notes'', ''http://a.example''])"
  by code_simp+

text \<open>
  A credential file of another length than 64 bytes is refused. A start that is interrupted after the
  file was created and before it was written leaves such a file, which no later start repairs.
\<close>

lemma credential_of_wrong_length_is_refused:
  assumes "h_unix H" and d: "config_dir H = Inr d"
    and f: "files w (path_join d ''http-token'') = Some (Regular m t)" and "length t \<noteq> 64"
    and k: "dirs_ok (files w) (path_ancestors d)"
    and nf: "\<forall>n \<ge> io_ops w. h_fault H n = None"
  shows "fst (load_or_create_http_bearer H w) = Inl Invalid_Http_Bearer"
proof -
  let ?p = "path_join d ''http-token''"
  from ensure_private_dir_existing [OF k nf config_dir_comps [OF d]]
  obtain w1 where e: "ensure_private_dir H d w = (Inr (), w1)" "world_extends w w1"
    "io_ops w \<le> io_ops w1" by blast
  from world_extends_regular [OF e(2) f] obtain m' where f1: "files w1 ?p = Some (Regular m' t)"
    by blast
  let ?w2 = "w1\<lparr>io_ops := Suc (io_ops w1)\<rparr>"
  have o: "open_new_private_file H ?p w1 = (Inl err_exists, ?w2)"
    using f1 nf e(3) by (simp add: open_new_private_file_def fs_create_new_def bind_io_step_ok)
  have "fs_symlink_metadata H ?p ?w2 = (Inr (Regular m' t), ?w2\<lparr>io_ops := Suc (io_ops ?w2)\<rparr>)"
    using f1 nf e(3) by (simp add: fs_symlink_metadata_def bind_io_step_ok lift_res_def)
  then have "fst (load_http_bearer H ?p ?w2) = Inl Invalid_Http_Bearer"
    using \<open>length t \<noteq> 64\<close>
    by (simp add: load_http_bearer_def act_bind_def act_map_err_def http_bearer_hex_len_def
        http_bearer_bytes_def fail_def)
  with assms(1) d e o show ?thesis
    by (auto simp: load_or_create_http_bearer_def act_bind_def act_map_err_def act_match_def
        lift_res_def err_exists_def Let_def split: prod.splits)
qed

end
